(* ===== verification/Agent_Id.thy ===== *)
theory Agent_Id
  imports Prelude
begin

text \<open>
  Identifiers: agent ids (\<open>agent_control/agent_id.rs\<close>), agent type ids
  (\<open>agent_type/agent_type_id.rs\<close>), the pair of both that names a sub-agent
  (\<open>sub_agent/identity.rs\<close>) and the version of the agent type language
  (\<open>agent_type/protocol_version.rs\<close>). The lemmas give the accepted language of each
  parser and the print/parse round trips. Semantic versions are a third-party type: the
  model is polymorphic in it (\<open>'v\<close>) and takes its parser and printer as arguments. The
  supported protocol version is generated by the build and is an argument too.
\<close>

section \<open>Agent ids\<close>

definition AGENT_CONTROL_ID :: string where
  "AGENT_CONTROL_ID = ''agent-control''"

definition RESERVED_AGENT_IDS :: "string list" where
  "RESERVED_AGENT_IDS = [AGENT_CONTROL_ID]"

definition AGENT_ID_MAX_LENGTH :: nat where
  "AGENT_ID_MAX_LENGTH = 32"

datatype sub_agent_id = SubAgentID string

datatype agent_id = AgentControl | SubAgent sub_agent_id

datatype agent_id_error = AgentIdInvalidFormat | AgentIdReserved string

fun sub_agent_id_as_str :: "sub_agent_id \<Rightarrow> string" where
  "sub_agent_id_as_str (SubAgentID s) = s"

fun agent_id_as_str :: "agent_id \<Rightarrow> string" where
  "agent_id_as_str AgentControl = AGENT_CONTROL_ID"
| "agent_id_as_str (SubAgent i) = sub_agent_id_as_str i"

definition agent_id_str_validation :: "string \<Rightarrow> bool" where
  "agent_id_str_validation s \<longleftrightarrow>
     length s \<le> AGENT_ID_MAX_LENGTH
     \<and> starts_with_char is_ascii_alphabetic s
     \<and> ends_with_char is_ascii_alphanumeric s
     \<and> list_all (\<lambda>c. c = CHR ''-'' \<or> is_ascii_digit c \<or> is_ascii_lowercase c) s"

definition agent_id_not_reserved_and_valid :: "string \<Rightarrow> (agent_id_error, unit) result" where
  "agent_id_not_reserved_and_valid s =
     (if list_ex (\<lambda>i. eq_ignore_ascii_case s i) RESERVED_AGENT_IDS then Err (AgentIdReserved s)
      else if agent_id_str_validation s then Ok ()
      else Err AgentIdInvalidFormat)"

definition agent_id_try_from :: "string \<Rightarrow> (agent_id_error, agent_id) result" where
  "agent_id_try_from input =
     rbind (agent_id_not_reserved_and_valid input) (\<lambda>_. Ok (SubAgent (SubAgentID input)))"

definition sub_agent_id_try_from :: "string \<Rightarrow> (agent_id_error, sub_agent_id) result" where
  "sub_agent_id_try_from input =
     rbind (agent_id_not_reserved_and_valid input) (\<lambda>_. Ok (SubAgentID input))"

text \<open>\<open>impl From<AgentID> for String\<close>.\<close>

fun agent_id_into_string :: "agent_id \<Rightarrow> string" where
  "agent_id_into_string AgentControl = AGENT_CONTROL_ID"
| "agent_id_into_string (SubAgent (SubAgentID s)) = s"

section \<open>Agent type ids\<close>

definition NAME_NAMESPACE_MAX_LENGTH :: nat where
  "NAME_NAMESPACE_MAX_LENGTH = 64"

definition VERSION_MAX_LENGTH :: nat where
  "VERSION_MAX_LENGTH = 14"

datatype name_format_error =
    NameEmpty
  | NameTooLong nat nat
  | NameInvalidStart
  | NameInvalidEnd
  | NameInvalidCharacter char

datatype agent_type_id_error =
    InvalidNamespace name_format_error
  | InvalidName name_format_error
  | InvalidVersion string
  | ForbiddenSemVer
  | VersionTooLong nat nat

record 'v agent_type_id =
  ati_name :: string
  ati_namespace :: string
  ati_version :: 'v

definition parse_version ::
  "(string \<Rightarrow> (string, 'v) result) \<Rightarrow> string \<Rightarrow> (agent_type_id_error, 'v) result" where
  "parse_version semver s =
     (if \<not> list_all (\<lambda>c. is_ascii_digit c \<or> c = CHR ''.'') s then Err ForbiddenSemVer
      else if length s > VERSION_MAX_LENGTH then Err (VersionTooLong (length s) VERSION_MAX_LENGTH)
      else map_err InvalidVersion (semver s))"

definition name_char :: "char \<Rightarrow> bool" where
  "name_char c \<longleftrightarrow> c = CHR ''_'' \<or> c = CHR ''.'' \<or> is_ascii_digit c \<or> is_ascii_lowercase c"

definition validate_format :: "string \<Rightarrow> (name_format_error, unit) result" where
  "validate_format s =
     (if s = [] then Err NameEmpty
      else if length s > NAME_NAMESPACE_MAX_LENGTH
        then Err (NameTooLong (length s) NAME_NAMESPACE_MAX_LENGTH)
      else if \<not> starts_with_char is_ascii_alphabetic s then Err NameInvalidStart
      else if \<not> ends_with_char is_ascii_alphanumeric s then Err NameInvalidEnd
      else case find (\<lambda>c. \<not> name_char c) s of
             Some c \<Rightarrow> Err (NameInvalidCharacter c)
           | None \<Rightarrow> Ok ())"

definition agent_type_id_from_parts ::
  "(string \<Rightarrow> (string, 'v) result) \<Rightarrow> string \<Rightarrow> string \<Rightarrow> string
    \<Rightarrow> (agent_type_id_error, 'v agent_type_id) result" where
  "agent_type_id_from_parts semver name namespace version =
     rbind (map_err InvalidNamespace (validate_format namespace)) (\<lambda>_.
     rbind (map_err InvalidName (validate_format name)) (\<lambda>_.
     rbind (parse_version semver version) (\<lambda>v.
       Ok \<lparr>ati_name = name, ati_namespace = namespace, ati_version = v\<rparr>)))"

definition unwrap_or_default :: "(string \<times> string) option \<Rightarrow> string \<times> string" where
  "unwrap_or_default m = (case m of None \<Rightarrow> ([], []) | Some p \<Rightarrow> p)"

definition agent_type_id_try_from ::
  "(string \<Rightarrow> (string, 'v) result) \<Rightarrow> string \<Rightarrow> (agent_type_id_error, 'v agent_type_id) result" where
  "agent_type_id_try_from semver value =
     (let (namespace, rest) = unwrap_or_default (split_once (CHR ''/'') value);
          (name, version) = unwrap_or_default (split_once (CHR '':'') rest)
      in agent_type_id_from_parts semver name namespace version)"

definition agent_type_id_fmt :: "('v \<Rightarrow> string) \<Rightarrow> 'v agent_type_id \<Rightarrow> string" where
  "agent_type_id_fmt show_v t =
     ati_namespace t @ ''/'' @ ati_name t @ '':'' @ show_v (ati_version t)"

text \<open>The structured form read from an agent type file: absent fields count as empty.\<close>

definition agent_type_id_deserialize ::
  "(string \<Rightarrow> (string, 'v) result) \<Rightarrow> string option \<Rightarrow> string option \<Rightarrow> string option
    \<Rightarrow> (agent_type_id_error, 'v agent_type_id) result" where
  "agent_type_id_deserialize semver name namespace version =
     agent_type_id_from_parts semver (case name of None \<Rightarrow> [] | Some s \<Rightarrow> s)
       (case namespace of None \<Rightarrow> [] | Some s \<Rightarrow> s) (case version of None \<Rightarrow> [] | Some s \<Rightarrow> s)"

section \<open>Agent identities\<close>

definition AGENT_CONTROL_TYPE :: string where
  "AGENT_CONTROL_TYPE = ''com.newrelic.agent_control''"

definition AGENT_CONTROL_NAMESPACE :: string where
  "AGENT_CONTROL_NAMESPACE = ''newrelic''"

definition AC_AGENT_TYPE_VERSION :: string where
  "AC_AGENT_TYPE_VERSION = ''0.1.0''"

record 'v agent_identity =
  ai_id :: agent_id
  ai_agent_type_id :: "'v agent_type_id"

definition agent_identity_from :: "agent_id \<Rightarrow> 'v agent_type_id \<Rightarrow> 'v agent_identity" where
  "agent_identity_from i t = \<lparr>ai_id = i, ai_agent_type_id = t\<rparr>"

text \<open>\<open>None\<close> is the panic of \<open>unwrap_or_else\<close>.\<close>

definition new_agent_control_identity ::
  "(string \<Rightarrow> (string, 'v) result) \<Rightarrow> 'v agent_identity option" where
  "new_agent_control_identity semver =
     (case agent_type_id_try_from semver
        (AGENT_CONTROL_NAMESPACE @ ''/'' @ AGENT_CONTROL_TYPE @ '':'' @ AC_AGENT_TYPE_VERSION) of
        Inl _ \<Rightarrow> None
      | Inr t \<Rightarrow> Some (agent_identity_from AgentControl t))"

definition agent_identity_fmt :: "('v \<Rightarrow> string) \<Rightarrow> 'v agent_identity \<Rightarrow> string" where
  "agent_identity_fmt show_v i =
     agent_type_id_fmt show_v (ai_agent_type_id i) @ '':'' @ agent_id_as_str (ai_id i)"

section \<open>The protocol version of an agent type file\<close>

record protocol_version =
  pv_major :: nat
  pv_minor :: nat

datatype protocol_version_error =
    PvMissing
  | PvInvalidFormat string
  | PvIncompatible protocol_version protocol_version

definition protocol_version_fmt :: "protocol_version \<Rightarrow> string" where
  "protocol_version_fmt v = show_nat (pv_major v) @ ''.'' @ show_nat (pv_minor v)"

definition protocol_version_from_str ::
  "string \<Rightarrow> (protocol_version_error, protocol_version) result" where
  "protocol_version_from_str s =
     (case split_on (CHR ''.'') s of
        [major, minor] \<Rightarrow>
          rbind (ok_or (PvInvalidFormat s) (parse_uint 64 major)) (\<lambda>ma.
          rbind (ok_or (PvInvalidFormat s) (parse_uint 64 minor)) (\<lambda>mi.
            Ok \<lparr>pv_major = ma, pv_minor = mi\<rparr>))
      | _ \<Rightarrow> Err (PvInvalidFormat s))"

text \<open>The derived order: major first, then minor.\<close>

definition pv_gt :: "protocol_version \<Rightarrow> protocol_version \<Rightarrow> bool" where
  "pv_gt a b \<longleftrightarrow> pv_major a > pv_major b \<or> pv_major a = pv_major b \<and> pv_minor a > pv_minor b"

definition check_compatibility ::
  "protocol_version \<Rightarrow> protocol_version \<Rightarrow> (protocol_version_error, unit) result" where
  "check_compatibility target supported =
     (if pv_gt target supported then Err (PvIncompatible target supported) else Ok ())"

definition is_supported ::
  "protocol_version \<Rightarrow> protocol_version \<Rightarrow> (protocol_version_error, unit) result" where
  "is_supported supported v = check_compatibility v supported"

text \<open>The \<open>protocol_version\<close> field of a parsed document: absent, a string, or some other
  value (with its printed form).\<close>

datatype pv_field = PvAbsent | PvString string | PvOther string

fun protocol_version_validate ::
  "protocol_version \<Rightarrow> pv_field \<Rightarrow> (protocol_version_error, unit) result" where
  "protocol_version_validate supported PvAbsent = Err PvMissing"
| "protocol_version_validate supported (PvString raw) =
     rbind (protocol_version_from_str raw) (is_supported supported)"
| "protocol_version_validate supported (PvOther p) = Err (PvInvalidFormat p)"

section \<open>Lemmas on agent ids\<close>

lemma to_ascii_lowercase_id: "\<not> is_ascii_uppercase c \<Longrightarrow> to_ascii_lowercase c = c"
  by (simp add: to_ascii_lowercase_def)

lemma map_lowercase_id: "list_all (\<lambda>c. \<not> is_ascii_uppercase c) s \<Longrightarrow> map to_ascii_lowercase s = s"
  by (induction s) (simp_all add: to_ascii_lowercase_id)

lemma agent_id_char_not_upper:
  "c = CHR ''-'' \<or> is_ascii_digit c \<or> is_ascii_lowercase c \<Longrightarrow> \<not> is_ascii_uppercase c"
  by (auto simp: ascii_defs)

lemma valid_id_lowercase: "agent_id_str_validation s \<Longrightarrow> map to_ascii_lowercase s = s"
proof (rule map_lowercase_id)
  assume "agent_id_str_validation s"
  then have "list_all (\<lambda>c. c = CHR ''-'' \<or> is_ascii_digit c \<or> is_ascii_lowercase c) s"
    by (simp add: agent_id_str_validation_def)
  then show "list_all (\<lambda>c. \<not> is_ascii_uppercase c) s"
    by (rule list.pred_mono_strong) (rule agent_id_char_not_upper)
qed

lemma agent_control_id_lowercase: "map to_ascii_lowercase AGENT_CONTROL_ID = AGENT_CONTROL_ID"
  by (rule map_lowercase_id) (simp add: AGENT_CONTROL_ID_def is_ascii_uppercase_def)

lemma agent_id_checked_iff:
  "agent_id_not_reserved_and_valid s = Inr u \<longleftrightarrow> agent_id_str_validation s \<and> s \<noteq> AGENT_CONTROL_ID"
  using valid_id_lowercase [of s]
  by (auto simp: agent_id_not_reserved_and_valid_def RESERVED_AGENT_IDS_def
      eq_ignore_ascii_case_def agent_control_id_lowercase)

lemma agent_id_try_from_iff:
  "agent_id_try_from s = Inr i \<longleftrightarrow>
     agent_id_str_validation s \<and> s \<noteq> AGENT_CONTROL_ID \<and> i = SubAgent (SubAgentID s)"
  by (auto simp: agent_id_try_from_def result_simps agent_id_checked_iff)

lemma agent_id_char_class:
  assumes "c = CHR ''-'' \<or> is_ascii_digit c \<or> is_ascii_lowercase c"
  shows "is_ascii_alphabetic c \<longleftrightarrow> is_ascii_lowercase c"
    and "is_ascii_alphanumeric c \<longleftrightarrow> c \<noteq> CHR ''-''"
proof -
  have "\<not> is_ascii_digit (CHR ''-'')" "\<not> is_ascii_lowercase (CHR ''-'')"
    by (simp_all add: ascii_defs)
  moreover have "\<not> is_ascii_uppercase c" using assms by (rule agent_id_char_not_upper)
  ultimately show "is_ascii_alphabetic c \<longleftrightarrow> is_ascii_lowercase c"
    and "is_ascii_alphanumeric c \<longleftrightarrow> c \<noteq> CHR ''-''"
    using assms by (auto simp: is_ascii_alphabetic_def is_ascii_alphanumeric_def)
qed

lemma agent_id_str_validation_lang:
  "agent_id_str_validation s \<longleftrightarrow>
     s \<noteq> [] \<and> length s \<le> 32 \<and> is_ascii_lowercase (hd s) \<and> last s \<noteq> CHR ''-''
     \<and> list_all (\<lambda>c. c = CHR ''-'' \<or> is_ascii_digit c \<or> is_ascii_lowercase c) s"
proof (cases "s \<noteq> [] \<and> list_all (\<lambda>c. c = CHR ''-'' \<or> is_ascii_digit c \<or> is_ascii_lowercase c) s")
  case True
  then have "hd s \<in> set s" "last s \<in> set s" by simp_all
  with True have "is_ascii_alphabetic (hd s) \<longleftrightarrow> is_ascii_lowercase (hd s)"
    "is_ascii_alphanumeric (last s) \<longleftrightarrow> last s \<noteq> CHR ''-''"
    by (auto simp only: list_all_iff intro!: agent_id_char_class)
  with True show ?thesis
    by (simp add: agent_id_str_validation_def starts_with_char_iff ends_with_char_iff
        AGENT_ID_MAX_LENGTH_def conj_ac)
next
  case False
  then show ?thesis
    by (auto simp: agent_id_str_validation_def starts_with_char_iff)
qed

text \<open>
  The identifiers the program can hold: Agent Control itself and what the parser accepts.
\<close>

definition agent_id_wf :: "agent_id \<Rightarrow> bool" where
  "agent_id_wf i = (case i of AgentControl \<Rightarrow> True
     | SubAgent (SubAgentID s) \<Rightarrow> is_ok (agent_id_not_reserved_and_valid s))"

lemma agent_id_wf_try_from: "agent_id_try_from s = Inr i \<Longrightarrow> agent_id_wf i"
  by (auto simp: agent_id_try_from_def agent_id_wf_def is_ok_iff result_simps)

section \<open>Lemmas on agent type ids\<close>

lemma validate_format_ok_iff:
  "validate_format s = Inr u \<longleftrightarrow>
     s \<noteq> [] \<and> length s \<le> NAME_NAMESPACE_MAX_LENGTH \<and> starts_with_char is_ascii_alphabetic s
     \<and> ends_with_char is_ascii_alphanumeric s \<and> list_all name_char s"
  by (auto simp: validate_format_def list_all_iff find_None_iff find_Some_iff split: option.splits)

lemma validate_format_no_sep:
  "validate_format s = Inr u \<Longrightarrow> CHR ''/'' \<notin> set s \<and> CHR '':'' \<notin> set s"
proof -
  assume "validate_format s = Inr u"
  then have all: "list_all name_char s" by (simp add: validate_format_ok_iff)
  have "\<not> name_char (CHR ''/'')" "\<not> name_char (CHR '':'')"
    by (simp_all add: name_char_def ascii_defs)
  with all show ?thesis by (metis list_all_iff)
qed

lemma parse_version_ok_iff:
  "parse_version semver s = Inr v \<longleftrightarrow>
     list_all (\<lambda>c. is_ascii_digit c \<or> c = CHR ''.'') s \<and> length s \<le> VERSION_MAX_LENGTH
     \<and> semver s = Inr v"
  by (auto simp: parse_version_def)

lemma from_parts_ok_iff:
  "agent_type_id_from_parts semver n ns ver = Inr t \<longleftrightarrow>
     validate_format ns = Inr () \<and> validate_format n = Inr ()
     \<and> parse_version semver ver = Inr (ati_version t) \<and> ati_name t = n \<and> ati_namespace t = ns"
  by (cases t) (auto simp: agent_type_id_from_parts_def result_simps)

lemma split_once_Some_I: "d \<notin> set a \<Longrightarrow> split_once d (a @ d # b) = Some (a, b)"
  by (simp add: split_once_Some)

lemma try_from_fmt:
  assumes "agent_type_id_from_parts semver n ns ver = Inr t"
  shows "agent_type_id_try_from semver (ns @ CHR ''/'' # n @ CHR '':'' # ver) = Inr t"
proof -
  from assms have "CHR ''/'' \<notin> set ns" "CHR '':'' \<notin> set n"
    by (auto simp: from_parts_ok_iff dest: validate_format_no_sep)
  with assms show ?thesis
    by (simp add: agent_type_id_try_from_def unwrap_or_default_def split_once_Some_I)
qed

lemma try_from_parts:
  assumes "agent_type_id_try_from semver s = Inr t"
  shows "\<exists>ver. s = ati_namespace t @ CHR ''/'' # ati_name t @ CHR '':'' # ver
    \<and> agent_type_id_from_parts semver (ati_name t) (ati_namespace t) ver = Inr t"
proof -
  obtain ns rest where sp1: "unwrap_or_default (split_once (CHR ''/'') s) = (ns, rest)"
    by (cases "unwrap_or_default (split_once (CHR ''/'') s)")
  obtain n ver where sp2: "unwrap_or_default (split_once (CHR '':'') rest) = (n, ver)"
    by (cases "unwrap_or_default (split_once (CHR '':'') rest)")
  from assms sp1 sp2 have parts: "agent_type_id_from_parts semver n ns ver = Inr t"
    by (simp add: agent_type_id_try_from_def)
  then have "ns \<noteq> []" "n \<noteq> []" "ati_name t = n" "ati_namespace t = ns"
    by (simp_all add: from_parts_ok_iff validate_format_ok_iff)
  with sp1 sp2 have "split_once (CHR ''/'') s = Some (ns, rest)"
    "split_once (CHR '':'') rest = Some (n, ver)"
    by (auto simp: unwrap_or_default_def split: option.splits)
  with parts \<open>ati_name t = n\<close> \<open>ati_namespace t = ns\<close> show ?thesis
    by (auto simp: split_once_Some)
qed

section \<open>Lemmas on protocol versions\<close>

lemma dot_not_in_show_nat: "CHR ''.'' \<notin> set (show_nat n)"
  using show_nat_digits [of "CHR ''.''" n] by (auto simp: is_ascii_digit_def)

lemma protocol_version_from_str_bounds:
  "protocol_version_from_str s = Inr v \<Longrightarrow> pv_major v < 2 ^ 64 \<and> pv_minor v < 2 ^ 64"
  by (auto simp: protocol_version_from_str_def result_simps
      split: list.splits dest!: parse_uint_bound)

lemma split_on_fmt:
  "split_on (CHR ''.'') (protocol_version_fmt v) = [show_nat (pv_major v), show_nat (pv_minor v)]"
  by (simp add: protocol_version_fmt_def split_on_append split_on_no_sep dot_not_in_show_nat)

lemma from_str_fmt:
  "protocol_version_from_str (protocol_version_fmt v) = Inr v
    \<longleftrightarrow> pv_major v < 2 ^ 64 \<and> pv_minor v < 2 ^ 64"
proof
  assume "pv_major v < 2 ^ 64 \<and> pv_minor v < 2 ^ 64"
  then have "parse_uint 64 (show_nat (pv_major v)) = Some (pv_major v)"
    "parse_uint 64 (show_nat (pv_minor v)) = Some (pv_minor v)"
    by (simp_all only: parse_uint_show_nat)
  then show "protocol_version_from_str (protocol_version_fmt v) = Inr v"
    by (simp add: protocol_version_from_str_def split_on_fmt)
qed (rule protocol_version_from_str_bounds)

lemma is_supported_iff:
  "is_supported supported w = Inr u \<longleftrightarrow>
     pv_major w < pv_major supported
     \<or> pv_major w = pv_major supported \<and> pv_minor w \<le> pv_minor supported"
  by (simp add: is_supported_def check_compatibility_def pv_gt_def) arith

section \<open>Properties\<close>

text \<open>An agent id is accepted exactly when it is a lower-case RFC 1035 label of at most 32
  characters other than the reserved name, whatever the case the reserved name is compared in;
  the accepted id prints back to its input.\<close>

theorem agent_id_language:
  "agent_id_try_from s = Inr i \<longleftrightarrow>
     s \<noteq> [] \<and> length s \<le> 32 \<and> is_ascii_lowercase (hd s) \<and> last s \<noteq> CHR ''-''
     \<and> list_all (\<lambda>c. c = CHR ''-'' \<or> is_ascii_digit c \<or> is_ascii_lowercase c) s
     \<and> s \<noteq> ''agent-control'' \<and> i = SubAgent (SubAgentID s) \<and> agent_id_into_string i = s"
  by (auto simp: agent_id_try_from_iff agent_id_str_validation_lang AGENT_CONTROL_ID_def)

lemma agent_id_as_str_inj_iff:
  "agent_id_wf i \<Longrightarrow> agent_id_wf j \<Longrightarrow> agent_id_as_str i = agent_id_as_str j \<longleftrightarrow> i = j"
  by (auto simp: agent_id_wf_def is_ok_iff agent_id_checked_iff
      split: agent_id.splits sub_agent_id.splits)

text \<open>Distinct well-formed agents never share a name: the name used for directories,
  configuration maps and logs determines the agent, Agent Control included.\<close>

theorem agent_id_as_str_inj: "inj_on agent_id_as_str {i. agent_id_wf i}"
  by (auto simp: inj_on_def agent_id_as_str_inj_iff)

text \<open>C30. Every agent type id the program can build, from a qualified name or from the fields
  of an agent type file, prints to a qualified name that parses back to it, provided the
  semantic version library prints a version the way it was written.\<close>

theorem agent_type_id_roundtrip:
  assumes semver_print: "\<And>s v. semver s = Inr v \<Longrightarrow> show_v v = s"
    and built: "agent_type_id_deserialize semver n ns ver = Inr t
      \<or> agent_type_id_try_from semver s = Inr t"
  shows "agent_type_id_try_from semver (agent_type_id_fmt show_v t) = Inr t"
proof -
  from built obtain n' ns' ver' where parts: "agent_type_id_from_parts semver n' ns' ver' = Inr t"
    by (auto simp: agent_type_id_deserialize_def dest!: try_from_parts)
  then have "semver ver' = Inr (ati_version t)" "ati_name t = n'" "ati_namespace t = ns'"
    by (simp_all add: from_parts_ok_iff parse_version_ok_iff)
  with semver_print have "agent_type_id_fmt show_v t = ns' @ CHR ''/'' # n' @ CHR '':'' # ver'"
    by (simp add: agent_type_id_fmt_def)
  with try_from_fmt [OF parts] show ?thesis by simp
qed

theorem agent_type_id_roundtrip_witness:
  "agent_type_id_try_from Inr (agent_type_id_fmt id
      \<lparr>ati_name = ''a.b'', ati_namespace = ''ns'', ati_version = ''0.1.0''\<rparr>)
    = Inr \<lparr>ati_name = ''a.b'', ati_namespace = ''ns'', ati_version = ''0.1.0''\<rparr>"
proof (rule agent_type_id_roundtrip)
  show "agent_type_id_deserialize Inr (Some ''a.b'') (Some ''ns'') (Some ''0.1.0'')
      = Inr \<lparr>ati_name = ''a.b'', ati_namespace = ''ns'', ati_version = ''0.1.0''\<rparr>
    \<or> agent_type_id_try_from Inr ''x'' =
      Inr \<lparr>ati_name = ''a.b'', ati_namespace = ''ns'', ati_version = ''0.1.0''\<rparr>"
    by (simp add: agent_type_id_deserialize_def agent_type_id_from_parts_def validate_format_def
        parse_version_def NAME_NAMESPACE_MAX_LENGTH_def VERSION_MAX_LENGTH_def name_char_def
        starts_with_char_def ends_with_char_def ascii_defs)
qed simp

text \<open>C31. A protocol version prints to a string that parses back to it, and an agent type file
  is accepted exactly when its field is a string that parses to a version not newer than the
  supported one in the order of major first, then minor.\<close>

theorem protocol_version_validation:
  "(pv_major v < 2 ^ 64 \<and> pv_minor v < 2 ^ 64 \<longleftrightarrow>
      protocol_version_from_str (protocol_version_fmt v) = Inr v)
   \<and> (protocol_version_validate supported field = Inr () \<longleftrightarrow>
      (\<exists>raw w. field = PvString raw \<and> protocol_version_from_str raw = Inr w
         \<and> (pv_major w < pv_major supported
            \<or> pv_major w = pv_major supported \<and> pv_minor w \<le> pv_minor supported)))"
  by (cases field) (auto simp: from_str_fmt result_simps is_supported_iff)

end
