(* ===== verification/Remote_Config.thy ===== *)
theory Remote_Config
  imports Agent_Id "HOL-Library.Multiset"
begin

text \<open>
  The values that travel between the OpAMP server, the stores and the agents.

  \<^item> \<open>ConfigState\<close> and the status reported to the server (\<open>opamp/remote_config/hash.rs\<close>,
    \<open>opamp/remote_config/report.rs\<close>);
  \<^item> \<open>YAMLConfig\<close>, \<open>Config\<close> and \<open>RemoteConfig\<close> (\<open>values/yaml_config.rs\<close>, \<open>values/config.rs\<close>);
  \<^item> \<open>OpampRemoteConfig\<close> and \<open>ConfigurationMap\<close> (\<open>opamp/remote_config.rs\<close>);
  \<^item> the parser that turns an OpAMP message into the configuration of a sub-agent
    (\<open>sub_agent/remote_config_parser.rs\<close>).

  A \<open>HashMap\<close> is an association list with distinct keys; the order of the list is the order an
  iteration happens to take, so a statement about every list is a statement about every iteration
  order. Values of a YAML document are an arbitrary type; the YAML library is the parameter
  \<open>from_str\<close>, its error type being the text it prints.
\<close>

section \<open>State and hash of a configuration\<close>

datatype config_state =
    Applying
  | Applied
  | Failed (failed_error_message: string)

type_synonym hash = string

definition is_applied :: "config_state \<Rightarrow> bool" where
  "is_applied s \<longleftrightarrow> s = Applied"

definition is_applying :: "config_state \<Rightarrow> bool" where
  "is_applying s \<longleftrightarrow> s = Applying"

fun is_failed :: "config_state \<Rightarrow> bool" where
  "is_failed (Failed _) = True"
| "is_failed _ = False"

fun error_message :: "config_state \<Rightarrow> string option" where
  "error_message (Failed msg) = Some msg"
| "error_message _ = None"

datatype remote_config_statuses = StatusApplying | StatusApplied | StatusFailed

record remote_config_status =
  last_remote_config_hash :: string
  rcs_status :: remote_config_statuses
  rcs_error_message :: string

fun statuses_from_state :: "config_state \<Rightarrow> remote_config_statuses" where
  "statuses_from_state Applying = StatusApplying"
| "statuses_from_state Applied = StatusApplied"
| "statuses_from_state (Failed _) = StatusFailed"

text \<open>The message \<open>report_state\<close> hands to \<open>set_remote_config_status\<close>.\<close>

definition report_state_msg :: "config_state \<Rightarrow> hash \<Rightarrow> remote_config_status" where
  "report_state_msg state h =
     \<lparr>last_remote_config_hash = h,
      rcs_status = statuses_from_state state,
      rcs_error_message = (case error_message state of None \<Rightarrow> [] | Some m \<Rightarrow> m)\<rparr>"

section \<open>YAML configurations\<close>

type_synonym 'j yaml_config = "(string \<times> 'j) list"

definition yaml_is_empty :: "'j yaml_config \<Rightarrow> bool" where
  "yaml_is_empty c \<longleftrightarrow> c = []"

definition remove_key :: "string \<Rightarrow> 'j yaml_config \<Rightarrow> 'j option \<times> 'j yaml_config" where
  "remove_key k c = (map_of c k, AList.delete k c)"

fun append_entry :: "'j yaml_config \<Rightarrow> string \<times> 'j \<Rightarrow> string + 'j yaml_config" where
  "append_entry result (key, value) =
     (if ahas result key then Inl (''cannot append duplicated key: '' @ key)
      else Inr (AList.update key value result))"

definition try_append :: "'j yaml_config \<Rightarrow> 'j yaml_config \<Rightarrow> string + 'j yaml_config" where
  "try_append a b = try_fold append_entry a b"

definition merge_override :: "'j yaml_config \<Rightarrow> 'j yaml_config \<Rightarrow> 'j yaml_config" where
  "merge_override a b = fold (\<lambda>(k, v) result. AList.update k v result) b a"

definition yaml_try_from ::
  "(string \<Rightarrow> string + 'j yaml_config) \<Rightarrow> string \<Rightarrow> string + 'j yaml_config" where
  "yaml_try_from from_str s = map_err (\<lambda>e. ''decoding config: '' @ e) (from_str s)"

definition yaml_into_string ::
  "('j yaml_config \<Rightarrow> string + string) \<Rightarrow> 'j yaml_config \<Rightarrow> string + string" where
  "yaml_into_string to_str c =
     (if c = [] then Inr []
      else map_err (\<lambda>e. ''decoding config: '' @ e) (to_str c))"

datatype agent_capability = AcceptsRemoteConfig

definition has_remote_management :: "('c \<Rightarrow> agent_capability \<Rightarrow> bool) \<Rightarrow> 'c \<Rightarrow> bool" where
  "has_remote_management has_capability caps = has_capability caps AcceptsRemoteConfig"

section \<open>Local and remote configurations\<close>

record 'j remote_config =
  rc_config :: "'j yaml_config"
  rc_hash :: hash
  rc_state :: config_state

datatype 'j config =
    LocalConfig "'j yaml_config"
  | RemoteConfig "'j remote_config"

definition config_default :: "'j config" where
  "config_default = LocalConfig []"

fun get_yaml_config :: "'j config \<Rightarrow> 'j yaml_config" where
  "get_yaml_config (LocalConfig c) = c"
| "get_yaml_config (RemoteConfig rc) = rc_config rc"

fun get_hash :: "'j config \<Rightarrow> hash option" where
  "get_hash (LocalConfig _) = None"
| "get_hash (RemoteConfig rc) = Some (rc_hash rc)"

fun get_state :: "'j config \<Rightarrow> config_state option" where
  "get_state (LocalConfig _) = None"
| "get_state (RemoteConfig rc) = Some (rc_state rc)"

fun get_local_config :: "'j config \<Rightarrow> 'j yaml_config option" where
  "get_local_config (LocalConfig c) = Some c"
| "get_local_config (RemoteConfig _) = None"

fun get_remote_config_of :: "'j config \<Rightarrow> 'j remote_config option" where
  "get_remote_config_of (LocalConfig _) = None"
| "get_remote_config_of (RemoteConfig rc) = Some rc"

definition rc_is_applied :: "'j remote_config \<Rightarrow> bool" where
  "rc_is_applied rc = is_applied (rc_state rc)"

definition rc_is_applying :: "'j remote_config \<Rightarrow> bool" where
  "rc_is_applying rc = is_applying (rc_state rc)"

definition rc_is_failed :: "'j remote_config \<Rightarrow> bool" where
  "rc_is_failed rc = is_failed (rc_state rc)"

definition with_state :: "'j remote_config \<Rightarrow> config_state \<Rightarrow> 'j remote_config" where
  "with_state rc st = rc\<lparr>rc_state := st\<rparr>"

section \<open>OpAMP remote configurations\<close>

definition AGENT_CONFIG_PREFIX :: string where
  "AGENT_CONFIG_PREFIX = ''agentConfig''"

definition AGENT_CONFIG_OVERRIDE_PREFIX :: string where
  "AGENT_CONFIG_OVERRIDE_PREFIX = ''override.agentConfig''"

type_synonym configuration_map = "(string \<times> string) list"

text \<open>\<open>'s\<close> is the type of the signature data of one configuration file.\<close>

record 's opamp_remote_config =
  orc_agent_id :: agent_id
  orc_hash :: hash
  orc_state :: config_state
  orc_signatures :: "(string \<times> 's) list option"
  orc_config_map :: configuration_map

datatype opamp_remote_config_error =
    OrcUTF8 string
  | OrcInvalidConfig string string

fun opamp_remote_config_error_fmt :: "opamp_remote_config_error \<Rightarrow> string" where
  "opamp_remote_config_error_fmt (OrcUTF8 e) = ''invalid UTF-8 sequence: '' @ e"
| "opamp_remote_config_error_fmt (OrcInvalidConfig h m) =
     ''invalid config for hash '' @ sq h @ '': '' @ m"

definition opamp_remote_config_new ::
  "agent_id \<Rightarrow> hash \<Rightarrow> config_state \<Rightarrow> configuration_map \<Rightarrow> 's opamp_remote_config" where
  "opamp_remote_config_new aid h st cm =
     \<lparr>orc_agent_id = aid, orc_hash = h, orc_state = st, orc_signatures = None,
      orc_config_map = cm\<rparr>"

definition with_signature ::
  "'s opamp_remote_config \<Rightarrow> (string \<times> 's) list \<Rightarrow> 's opamp_remote_config" where
  "with_signature c sigs = c\<lparr>orc_signatures := Some sigs\<rparr>"

definition configs_iter :: "'s opamp_remote_config \<Rightarrow> (string \<times> string) list" where
  "configs_iter c = orc_config_map c"

definition agent_configs_iter :: "'s opamp_remote_config \<Rightarrow> (string \<times> string) list" where
  "agent_configs_iter c = filter (\<lambda>(k, _). starts_with AGENT_CONFIG_PREFIX k) (configs_iter c)"

definition is_agent_configs_empty :: "'s opamp_remote_config \<Rightarrow> bool" where
  "is_agent_configs_empty c \<longleftrightarrow>
     \<not> list_ex (\<lambda>(k, v). starts_with AGENT_CONFIG_PREFIX k \<and> v \<noteq> []) (orc_config_map c)"

definition override_configs :: "'s opamp_remote_config \<Rightarrow> string list" where
  "override_configs c =
     map snd (filter (\<lambda>(k, _). starts_with AGENT_CONFIG_OVERRIDE_PREFIX k) (configs_iter c))"

definition agent_config_override ::
  "'s opamp_remote_config \<Rightarrow> opamp_remote_config_error + string option" where
  "agent_config_override c =
     (case override_configs c of
        [] \<Rightarrow> Inr None
      | [v] \<Rightarrow> Inr (Some v)
      | _ \<Rightarrow> Inl (OrcInvalidConfig (orc_hash c)
                (''multiple configurations with '' @ sq AGENT_CONFIG_OVERRIDE_PREFIX @ '' prefix'')))"

definition config_signature ::
  "'s opamp_remote_config \<Rightarrow> string \<Rightarrow> opamp_remote_config_error + 's" where
  "config_signature c name =
     (case orc_signatures c of
        None \<Rightarrow> Inl (OrcInvalidConfig (orc_hash c) ''missing signatures'')
      | Some sigs \<Rightarrow>
          ok_or (OrcInvalidConfig (orc_hash c) (''missing signature for config: '' @ name))
            (map_of sigs name))"

section \<open>Parsing the configuration of a sub-agent\<close>

datatype remote_config_parser_error =
    ParserValidation string
  | ParserRemoteConfigLoad string
  | ParserInvalidValues string

fun remote_config_parser_error_fmt :: "remote_config_parser_error \<Rightarrow> string" where
  "remote_config_parser_error_fmt (ParserValidation m) =
     ''remote configuration with validation errors: '' @ m"
| "remote_config_parser_error_fmt (ParserRemoteConfigLoad m) =
     ''remote configuration cannot be loaded: '' @ m"
| "remote_config_parser_error_fmt (ParserInvalidValues m) =
     ''remote configuration with invalid values: '' @ m"

definition append_content ::
  "(string \<Rightarrow> string + 'j yaml_config) \<Rightarrow> 'j yaml_config \<Rightarrow> string \<times> string
   \<Rightarrow> remote_config_parser_error + 'j yaml_config" where
  "append_content from_str acc entry =
     rbind (map_err (\<lambda>e. ParserInvalidValues (''decoding config: '' @ e))
              (yaml_try_from from_str (snd entry)))
       (\<lambda>cfg. map_err (\<lambda>e. ParserInvalidValues (''appending config: '' @ e)) (try_append acc cfg))"

definition extract_remote_config_values ::
  "(string \<Rightarrow> string + 'j yaml_config) \<Rightarrow> 's opamp_remote_config
   \<Rightarrow> remote_config_parser_error + 'j remote_config option" where
  "extract_remote_config_values from_str c =
     rbind (try_fold (append_content from_str) [] (agent_configs_iter c)) (\<lambda>config.
     rbind (map_err (\<lambda>e. ParserInvalidValues
                       (''getting override values: '' @ opamp_remote_config_error_fmt e))
              (agent_config_override c)) (\<lambda>maybe_override.
     rbind (case maybe_override of
              None \<Rightarrow> Inr config
            | Some content \<Rightarrow>
                map_ok (merge_override config)
                  (map_err (\<lambda>e. ParserInvalidValues (''decoding override values: '' @ e))
                     (yaml_try_from from_str content))) (\<lambda>config'.
     if yaml_is_empty config' then Inr None
     else Inr (Some \<lparr>rc_config = config', rc_hash = orc_hash c, rc_state = orc_state c\<rparr>))))"

text \<open>A validator is the function its \<open>validate\<close> is; the error is what \<open>to_string\<close> prints.\<close>

type_synonym ('v, 's) remote_config_validator =
  "'v agent_identity \<Rightarrow> 's opamp_remote_config \<Rightarrow> string + unit"

primrec run_validators ::
  "('v, 's) remote_config_validator list \<Rightarrow> 'v agent_identity \<Rightarrow> 's opamp_remote_config
   \<Rightarrow> remote_config_parser_error + unit" where
  "run_validators [] ident c = Inr ()"
| "run_validators (v # vs) ident c =
     (case v ident c of Inl e \<Rightarrow> Inl (ParserValidation e) | Inr _ \<Rightarrow> run_validators vs ident c)"

definition remote_config_parse ::
  "(string \<Rightarrow> string + 'j yaml_config) \<Rightarrow> ('v, 's) remote_config_validator list
   \<Rightarrow> 'v agent_identity \<Rightarrow> 's opamp_remote_config
   \<Rightarrow> remote_config_parser_error + 'j remote_config option" where
  "remote_config_parse from_str validators ident c =
     (case error_message (orc_state c) of
        Some err_msg \<Rightarrow> Inl (ParserRemoteConfigLoad err_msg)
      | None \<Rightarrow>
          rbind (run_validators validators ident c)
            (\<lambda>_. extract_remote_config_values from_str c))"

section \<open>What the parser computes\<close>

lemma update_absent: "\<not> ahas m k \<Longrightarrow> AList.update k v m = m @ [(k, v)]"
  by (induction m) (auto simp: ahas_iff)

lemma try_append_iff:
  "try_append a b = Inr r \<longleftrightarrow>
     r = a @ b \<and> distinct (map fst b) \<and> fst ` set a \<inter> fst ` set b = {}"
proof (induction b arbitrary: a)
  case Nil
  then show ?case by (auto simp: try_append_def)
next
  case (Cons e b)
  obtain k v where e: "e = (k, v)" by (cases e)
  show ?case
  proof (cases "ahas a k")
    case True
    then show ?thesis by (auto simp: e try_append_def rbind_def ahas_iff akeys_def)
  next
    case False
    then have "try_append a (e # b) = try_append (a @ [(k, v)]) b"
      by (simp add: e try_append_def rbind_def update_absent)
    with Cons.IH[of "a @ [(k, v)]"] False show ?thesis
      by (auto simp: e ahas_iff akeys_def)
  qed
qed

lemma try_map_iff:
  "try_map f xs = Inr ys \<longleftrightarrow> list_all (\<lambda>x. is_ok (f x)) xs \<and> ys = map (\<lambda>x. projr (f x)) xs"
proof (induction xs arbitrary: ys)
  case (Cons x xs)
  show ?case
  proof (cases "f x")
    case (Inr y)
    then show ?thesis using Cons.IH
      by (cases "try_map f xs") (auto simp: rbind_def is_ok_def)
  qed (simp add: rbind_def is_ok_def)
qed auto

text \<open>Folding the configuration files of a message succeeds exactly when every file parses and
  no key occurs twice, and then concatenates the documents.\<close>

lemma append_contents_iff:
  "try_fold (append_content f) acc xs = Inr r \<longleftrightarrow>
     (\<exists>docs. try_map (\<lambda>e. f (snd e)) xs = Inr docs \<and> r = acc @ concat docs \<and>
        distinct (map fst (concat docs)) \<and> fst ` set acc \<inter> fst ` set (concat docs) = {})"
proof (induction xs arbitrary: acc)
  case (Cons x xs)
  show ?case
  proof (cases "f (snd x)")
    case (Inl e)
    then show ?thesis
      by (simp add: append_content_def yaml_try_from_def map_err_def rbind_def)
  next
    case (Inr d)
    have step: "try_fold (append_content f) acc (x # xs) =
        rbind (map_err (\<lambda>e. ParserInvalidValues (''appending config: '' @ e)) (try_append acc d))
          (\<lambda>m. try_fold (append_content f) m xs)"
      by (simp add: append_content_def yaml_try_from_def map_err_def rbind_def Inr)
    have "try_fold (append_content f) acc (x # xs) = Inr r \<longleftrightarrow>
      distinct (map fst d) \<and> fst ` set acc \<inter> fst ` set d = {} \<and>
      try_fold (append_content f) (acc @ d) xs = Inr r"
      unfolding step rbind_eq_Inr map_err_eq_Inr try_append_iff by blast
    note fold_eq = this[unfolded Cons.IH[of "acc @ d"]]
    show ?thesis
    proof (cases "try_map (\<lambda>e. f (snd e)) xs")
      case (Inl e)
      then show ?thesis unfolding fold_eq by (simp add: rbind_def \<open>f (snd x) = Inr d\<close>)
    next
      case docs: (Inr docs)
      have "try_map (\<lambda>e. f (snd e)) (x # xs) = Inr (d # docs)"
        by (simp add: rbind_def docs Inr)
      then show ?thesis
        unfolding fold_eq docs by (simp add: image_Un Int_Un_distrib Int_Un_distrib2 conj_ac)
    qed
  qed
qed auto

lemma map_of_merge_override:
  "distinct (map fst b) \<Longrightarrow> map_of (merge_override a b) = map_of a ++ map_of b"
proof (induction b arbitrary: a)
  case (Cons e b)
  obtain k v where e: "e = (k, v)" by (cases e)
  have "map_of (merge_override a (e # b)) = map_of (AList.update k v a) ++ map_of b"
    using Cons by (simp add: e merge_override_def)
  moreover have "k \<notin> dom (map_of b)"
    using Cons.prems by (simp add: e dom_map_of_conv_image_fst)
  ultimately show ?case
    by (auto simp: e fun_eq_iff map_add_def domIff split: option.splits)
qed (simp add: merge_override_def)

lemma merge_override_Nil [simp]: "merge_override a [] = a"
  by (simp add: merge_override_def)

lemma merge_override_eq_Nil: "merge_override a b = [] \<longleftrightarrow> a = [] \<and> b = []"
proof (induction b arbitrary: a)
  case (Cons e b)
  then show ?case by (cases e) (simp add: merge_override_def)
qed simp

text \<open>What the code relies on of the YAML library: a parsed document is a map.\<close>

definition yaml_parser :: "(string \<Rightarrow> string + 'j yaml_config) \<Rightarrow> bool" where
  "yaml_parser f \<longleftrightarrow> (\<forall>s d. f s = Inr d \<longrightarrow> amap_ok d)"

text \<open>The documents of a message, in the order of the iteration, and the override document.\<close>

definition override_doc :: "(string \<Rightarrow> string + 'j yaml_config) \<Rightarrow> 's opamp_remote_config \<Rightarrow> 'j yaml_config \<Rightarrow> bool" where
  "override_doc f c ov \<longleftrightarrow>
     (override_configs c = [] \<and> ov = []) \<or> (\<exists>s. override_configs c = [s] \<and> f s = Inr ov)"

lemma extract_remote_config_values_iff:
  "extract_remote_config_values f c = Inr r \<longleftrightarrow>
     (\<exists>docs ov. try_map (\<lambda>e. f (snd e)) (agent_configs_iter c) = Inr docs \<and>
        distinct (map fst (concat docs)) \<and> override_doc f c ov \<and>
        r = (if merge_override (concat docs) ov = [] then None
             else Some \<lparr>rc_config = merge_override (concat docs) ov, rc_hash = orc_hash c,
                        rc_state = orc_state c\<rparr>))"
proof -
  let ?fold = "try_fold (append_content f) [] (agent_configs_iter c)"
  let ?rest = "\<lambda>m. rbind (map_err (\<lambda>e. ParserInvalidValues
                       (''getting override values: '' @ opamp_remote_config_error_fmt e))
              (agent_config_override c)) (\<lambda>maybe_override.
     rbind (case maybe_override of
              None \<Rightarrow> Inr m
            | Some content \<Rightarrow>
                map_ok (merge_override m)
                  (map_err (\<lambda>e. ParserInvalidValues (''decoding override values: '' @ e))
                     (yaml_try_from f content))) (\<lambda>config'.
     if yaml_is_empty config' then Inr None
     else Inr (Some \<lparr>rc_config = config', rc_hash = orc_hash c, rc_state = orc_state c\<rparr>)))"
  have rest: "?rest m = Inr r \<longleftrightarrow> (\<exists>ov. override_doc f c ov \<and>
      r = (if merge_override m ov = [] then None
           else Some \<lparr>rc_config = merge_override m ov, rc_hash = orc_hash c,
                      rc_state = orc_state c\<rparr>))" for m
  proof -
    consider "override_configs c = []" | s where "override_configs c = [s]"
      | s t us where "override_configs c = s # t # us"
      by (metis list.exhaust)
    then show ?thesis
    proof cases
      case 2
      then show ?thesis
        by (cases "f s") (auto simp: agent_config_override_def override_doc_def map_err_def
          map_ok_def rbind_def yaml_try_from_def yaml_is_empty_def)
    qed (auto simp: agent_config_override_def override_doc_def map_err_def rbind_def
          yaml_is_empty_def)
  qed
  have "extract_remote_config_values f c = Inr r \<longleftrightarrow>
      (\<exists>m. ?fold = Inr m \<and> ?rest m = Inr r)"
    by (simp add: extract_remote_config_values_def rbind_eq_Inr)
  then show ?thesis
    unfolding rest append_contents_iff by auto
qed


text \<open>The outcome of the parser without the order in which the maps were iterated and without
  the text of an error.\<close>

fun config_view ::
  "'e + 'j remote_config option \<Rightarrow> ((string \<Rightarrow> 'j option) \<times> hash \<times> config_state) option option" where
  "config_view (Inl _) = None"
| "config_view (Inr None) = Some None"
| "config_view (Inr (Some rc)) = Some (Some (map_of (rc_config rc), rc_hash rc, rc_state rc))"

lemma mset_concat_cong: "mset xss = mset yss \<Longrightarrow> mset (concat xss) = mset (concat yss)"
  by (metis mset_concat mset_map sum_mset_sum_list)

lemma mset_map_cong: "mset xs = mset ys \<Longrightarrow> mset (map f xs) = mset (map f ys)"
  by simp

lemma try_map_perm:
  assumes "mset xs = mset ys" and "try_map f xs = Inr ds"
  obtains ds' where "try_map f ys = Inr ds'" and "mset ds = mset ds'"
proof
  have "set xs = set ys" using assms(1) by (rule mset_eq_setD)
  then show "try_map f ys = Inr (map (\<lambda>x. projr (f x)) ys)"
    using assms(2) by (simp add: try_map_iff list_all_iff)
  show "mset ds = mset (map (\<lambda>x. projr (f x)) ys)"
    using assms by (simp add: try_map_iff)
qed

lemma map_of_perm:
  assumes "distinct (map fst xs)" and "mset xs = mset ys"
  shows "map_of xs = map_of ys"
proof -
  have "distinct (map fst ys)"
    using assms mset_eq_imp_distinct_iff[OF mset_map_cong[OF assms(2), of fst]] by simp
  then show ?thesis
    using assms map_of_inject_set mset_eq_setD by blast
qed

lemma override_configs_perm:
  assumes "mset (orc_config_map c) = mset (orc_config_map c')"
  shows "mset (override_configs c) = mset (override_configs c')"
  using assms by (simp add: override_configs_def configs_iter_def mset_filter)

lemma override_doc_perm:
  assumes "mset (orc_config_map c) = mset (orc_config_map c')"
  shows "override_doc f c = override_doc f c'"
proof -
  have "override_configs c = [] \<longleftrightarrow> override_configs c' = []"
    and "override_configs c = [s] \<longleftrightarrow> override_configs c' = [s]" for s
    using override_configs_perm[OF assms] by (auto simp flip: mset_zero_iff)
  then show ?thesis by (auto simp: override_doc_def fun_eq_iff)
qed

lemma extract_perm_Inr:
  assumes perm: "mset (orc_config_map c) = mset (orc_config_map c')"
    and same: "orc_hash c = orc_hash c'" "orc_state c = orc_state c'"
    and docs_ok: "yaml_parser f"
    and ok: "extract_remote_config_values f c = Inr r"
  shows "\<exists>r'. extract_remote_config_values f c' = Inr r' \<and>
    config_view (Inr r' :: remote_config_parser_error + _) = config_view (Inr r :: remote_config_parser_error + _)"
proof -
  from ok obtain docs ov where docs: "try_map (\<lambda>e. f (snd e)) (agent_configs_iter c) = Inr docs"
    and dist: "distinct (map fst (concat docs))" and ov: "override_doc f c ov"
    and r: "r = (if merge_override (concat docs) ov = [] then None
             else Some \<lparr>rc_config = merge_override (concat docs) ov, rc_hash = orc_hash c,
                        rc_state = orc_state c\<rparr>)"
    unfolding extract_remote_config_values_iff by blast
  have "mset (agent_configs_iter c) = mset (agent_configs_iter c')"
    using perm by (simp add: agent_configs_iter_def configs_iter_def mset_filter)
  then obtain docs' where docs': "try_map (\<lambda>e. f (snd e)) (agent_configs_iter c') = Inr docs'"
    and docs_perm: "mset docs = mset docs'"
    using docs by (rule try_map_perm)
  have cc: "mset (concat docs) = mset (concat docs')" by (rule mset_concat_cong[OF docs_perm])
  have ov': "override_doc f c' ov" using ov override_doc_perm[OF perm, of f] by simp
  have dist': "distinct (map fst (concat docs'))"
    using dist mset_eq_imp_distinct_iff[OF mset_map_cong[OF cc, of fst]] by simp
  let ?r' = "if merge_override (concat docs') ov = [] then None
             else Some \<lparr>rc_config = merge_override (concat docs') ov, rc_hash = orc_hash c',
                        rc_state = orc_state c'\<rparr>"
  have "distinct (map fst ov)"
    using ov docs_ok by (auto simp: override_doc_def yaml_parser_def amap_ok_def)
  then have "map_of (merge_override (concat docs) ov) = map_of (merge_override (concat docs') ov)"
    using map_of_perm[OF dist cc] by (simp add: map_of_merge_override)
  moreover have "merge_override (concat docs) ov = [] \<longleftrightarrow> merge_override (concat docs') ov = []"
    using cc by (metis merge_override_eq_Nil mset_zero_iff)
  ultimately have view: "config_view (Inr ?r' :: remote_config_parser_error + _) = config_view (Inr r :: remote_config_parser_error + _)"
    using r same by simp
  have "extract_remote_config_values f c' = Inr ?r'"
    unfolding extract_remote_config_values_iff using docs' dist' ov' by blast
  with view show ?thesis by blast
qed

text \<open>C12. What a sub-agent is configured with does not depend on the order in which the entries of
  the message are visited: for two messages whose configuration maps hold the same entries in any
  order (and with the same hash and state), \<open>extract_remote_config_values\<close> fails on both, is empty
  on both, or returns the same configuration map with the same hash and state. The hypothesis on the
  parser is that a parsed document is a map, i.e. has distinct keys.\<close>

theorem extract_order_independent:
  fixes f :: "string \<Rightarrow> string + 'j yaml_config"
  assumes "mset (orc_config_map c) = mset (orc_config_map c')"
    and "orc_hash c = orc_hash c'" and "orc_state c = orc_state c'"
    and "yaml_parser f"
  shows "config_view (extract_remote_config_values f c) =
         config_view (extract_remote_config_values f c')"
proof (cases "extract_remote_config_values f c")
  case (Inr r)
  with extract_perm_Inr[OF assms Inr] show ?thesis
    by (cases r) auto
next
  case Inl: (Inl e)
  show ?thesis
  proof (cases "extract_remote_config_values f c'")
    case (Inr r)
    from extract_perm_Inr[OF assms(1)[symmetric] assms(2)[symmetric] assms(3)[symmetric]
        assms(4) this] Inl show ?thesis by simp
  qed (simp add: Inl)
qed

theorem extract_order_independent_witness:
  "let f = (\<lambda>s. Inr [(s, True)]);
       c = (\<lambda>cm. \<lparr>orc_agent_id = AgentControl, orc_hash = ''h'', orc_state = Applying,
                 orc_signatures = (None :: (string \<times> unit) list option), orc_config_map = cm\<rparr>)
   in config_view (extract_remote_config_values f
        (c [(''agentConfig-a'', ''x''), (''agentConfig-b'', ''y'')])) =
      config_view (extract_remote_config_values f
        (c [(''agentConfig-b'', ''y''), (''agentConfig-a'', ''x'')]))"
  unfolding Let_def
  by (rule extract_order_independent) (simp_all add: yaml_parser_def amap_ok_def)

text \<open>C13. A parsed configuration is the union of the \<open>agentConfig*\<close> documents of the message
  overridden by the (single) \<open>override.agentConfig*\<close> document: each key has the value of the override
  document if it has one, and otherwise the value of the only document that defines it. No key is
  defined by two of the documents, and the hash and state are those of the message.\<close>

theorem extract_lookup:
  fixes f :: "string \<Rightarrow> string + 'j yaml_config"
  assumes "extract_remote_config_values f c = Inr (Some rc)"
    and "yaml_parser f"
  shows "rc_hash rc = orc_hash c \<and> rc_state rc = orc_state c \<and> rc_config rc \<noteq> [] \<and>
    (\<exists>docs ov. try_map (\<lambda>e. f (snd e)) (agent_configs_iter c) = Inr docs \<and>
       distinct (map fst (concat docs)) \<and> override_doc f c ov \<and>
       map_of (rc_config rc) = map_of (concat docs) ++ map_of ov)"
proof -
  from assms(1) obtain docs ov where *: "try_map (\<lambda>e. f (snd e)) (agent_configs_iter c) = Inr docs"
    "distinct (map fst (concat docs))" "override_doc f c ov"
    and rc: "merge_override (concat docs) ov \<noteq> []"
      "rc = \<lparr>rc_config = merge_override (concat docs) ov, rc_hash = orc_hash c,
             rc_state = orc_state c\<rparr>"
    unfolding extract_remote_config_values_iff by (auto split: if_splits)
  have "distinct (map fst ov)"
    using *(3) assms(2) by (auto simp: override_doc_def yaml_parser_def amap_ok_def)
  then show ?thesis using * rc by (auto simp: map_of_merge_override)
qed

theorem extract_lookup_witness:
  "let f = (\<lambda>s. Inr [(s, True)]);
       c = \<lparr>orc_agent_id = AgentControl, orc_hash = ''h'', orc_state = Applying,
            orc_signatures = (None :: (string \<times> unit) list option),
            orc_config_map = [(''agentConfig'', ''x'')]\<rparr>;
       rc = \<lparr>rc_config = [(''x'', True)], rc_hash = ''h'', rc_state = Applying\<rparr>
   in extract_remote_config_values f c = Inr (Some rc) \<and>
      (\<exists>docs ov. try_map (\<lambda>e. f (snd e)) (agent_configs_iter c) =
         (Inr docs :: string + _) \<and> map_of (rc_config rc) = map_of (concat docs) ++ map_of ov)"
proof -
  let ?f = "\<lambda>s. Inr [(s, True)] :: string + bool yaml_config"
  let ?c = "\<lparr>orc_agent_id = AgentControl, orc_hash = ''h'', orc_state = Applying,
            orc_signatures = (None :: (string \<times> unit) list option),
            orc_config_map = [(''agentConfig'', ''x'')]\<rparr>"
  let ?rc = "\<lparr>rc_config = [(''x'', True)], rc_hash = ''h'', rc_state = Applying\<rparr>"
  have e: "extract_remote_config_values ?f ?c = Inr (Some ?rc)"
    by code_simp
  have "yaml_parser ?f" by (simp add: yaml_parser_def amap_ok_def)
  from extract_lookup[OF e this] e show ?thesis
    unfolding Let_def by blast
qed

end
