(* ===== verification/Remote_Config_Intake.thy ===== *)
theory Remote_Config_Intake
  imports Remote_Config
begin

text \<open>
  From the OpAMP message to a configuration that may be applied.

  \<^item> \<open>String::from_utf8\<close> and the conversion of the wire map (\<open>opamp/remote_config.rs\<close>);
  \<^item> the signatures of a message (\<open>opamp/remote_config/signature.rs\<close>, \<open>signature/public_key.rs\<close>);
  \<^item> the OpAMP callbacks (\<open>opamp/callbacks.rs\<close>);
  \<^item> the validators: regular expressions (\<open>validators/regexes.rs\<close>), signatures with the key store that
    is refreshed when the key id changes (\<open>validators/signature\<close>, \<open>signature/public_key_fetcher.rs\<close>).

  The JSON, base64, SHA-256, ED25519 and regular-expression libraries and the responses of the key
  server are parameters. A byte string is a list of 8-bit characters.
\<close>

section \<open>UTF-8\<close>

abbreviation utf8_cont :: "nat \<Rightarrow> bool" where
  "utf8_cont b \<equiv> 0x80 \<le> b \<and> b \<le> 0xBF"

fun utf8_valid :: "nat list \<Rightarrow> bool" where
  "utf8_valid [] = True"
| "utf8_valid (b1 # bs) =
     (if b1 < 0x80 then utf8_valid bs
      else if 0xC2 \<le> b1 \<and> b1 \<le> 0xDF then
        (case bs of b2 # r \<Rightarrow> utf8_cont b2 \<and> utf8_valid r | _ \<Rightarrow> False)
      else if 0xE0 \<le> b1 \<and> b1 \<le> 0xEF then
        (case bs of
           b2 # b3 # r \<Rightarrow>
             utf8_cont b2 \<and> (b1 = 0xE0 \<longrightarrow> 0xA0 \<le> b2) \<and> (b1 = 0xED \<longrightarrow> b2 \<le> 0x9F) \<and>
             utf8_cont b3 \<and> utf8_valid r
         | _ \<Rightarrow> False)
      else if 0xF0 \<le> b1 \<and> b1 \<le> 0xF4 then
        (case bs of
           b2 # b3 # b4 # r \<Rightarrow>
             utf8_cont b2 \<and> (b1 = 0xF0 \<longrightarrow> 0x90 \<le> b2) \<and> (b1 = 0xF4 \<longrightarrow> b2 \<le> 0x8F) \<and>
             utf8_cont b3 \<and> utf8_cont b4 \<and> utf8_valid r
         | _ \<Rightarrow> False)
      else False)"

text \<open>\<open>show_utf8\<close> prints the decoding error of the standard library.\<close>

definition from_utf8 :: "(string \<Rightarrow> string) \<Rightarrow> string \<Rightarrow> string + string" where
  "from_utf8 show_utf8 bytes =
     (if utf8_valid (map of_char bytes) then Inr bytes else Inl (show_utf8 bytes))"

fun insert_body ::
  "(string \<Rightarrow> string) \<Rightarrow> configuration_map \<Rightarrow> string \<times> string
   \<Rightarrow> opamp_remote_config_error + configuration_map" where
  "insert_body show_utf8 result (key, body) =
     rbind (map_err OrcUTF8 (from_utf8 show_utf8 body))
       (\<lambda>body. Inr (AList.update key body result))"

definition configuration_map_try_from ::
  "(string \<Rightarrow> string) \<Rightarrow> (string \<times> string) list \<Rightarrow> opamp_remote_config_error + configuration_map" where
  "configuration_map_try_from show_utf8 agent_config_map =
     try_fold (insert_body show_utf8) [] agent_config_map"

record agent_config_file =
  acf_body :: string
  acf_content_type :: string

definition effective_config_from :: "configuration_map \<Rightarrow> (string \<times> agent_config_file) list" where
  "effective_config_from m =
     map (\<lambda>(k, v). (k, \<lparr>acf_body = v, acf_content_type = ''text/yaml''\<rparr>)) m"

section \<open>Signatures of a message\<close>

definition SIGNATURE_CUSTOM_CAPABILITY :: string where
  "SIGNATURE_CUSTOM_CAPABILITY = ''com.newrelic.security.configSignature''"

definition SIGNATURE_CUSTOM_MESSAGE_TYPE :: string where
  "SIGNATURE_CUSTOM_MESSAGE_TYPE = ''newrelicRemoteConfigSignature''"

datatype signing_algorithm = ED25519

datatype pub_key_error =
    ParsePubKey string
  | ValidatingSignature string
  | UnsupportedAlgorithm string

fun pub_key_error_fmt :: "pub_key_error \<Rightarrow> string" where
  "pub_key_error_fmt (ParsePubKey m) = ''parsing PubKey: '' @ m"
| "pub_key_error_fmt (ValidatingSignature m) = ''validating signature: '' @ m"
| "pub_key_error_fmt (UnsupportedAlgorithm m) = ''unsupported algorithm: '' @ m"

text \<open>No character outside ASCII has an upper case made of the letters of \<open>ED25519\<close>, so comparing
  the Unicode upper case with that name is comparing without regard to ASCII case.\<close>

definition signing_algorithm_try_from :: "string \<Rightarrow> pub_key_error + signing_algorithm" where
  "signing_algorithm_try_from s =
     (if eq_ignore_ascii_case s ''ED25519'' then Inr ED25519 else Inl (UnsupportedAlgorithm s))"

record 'a signature_fields =
  sf_signature :: string
  sf_key_id :: string
  sf_signing_algorithm :: 'a

datatype signature_error =
    SigInvalidCapability
  | SigInvalidType
  | SigInvalidData string

fun signature_error_fmt :: "signature_error \<Rightarrow> string" where
  "signature_error_fmt SigInvalidCapability = ''invalid config signature capability''"
| "signature_error_fmt SigInvalidType = ''invalid config signature type''"
| "signature_error_fmt (SigInvalidData m) = ''invalid config signature data: '' @ m"

definition signature_data_try_from ::
  "string signature_fields \<Rightarrow> signature_error + signing_algorithm signature_fields" where
  "signature_data_try_from s =
     rbind (map_err (\<lambda>e. SigInvalidData (pub_key_error_fmt e))
              (signing_algorithm_try_from (sf_signing_algorithm s)))
       (\<lambda>alg. Inr \<lparr>sf_signature = sf_signature s, sf_key_id = sf_key_id s,
                  sf_signing_algorithm = alg\<rparr>)"

fun parse_first_valid_loop ::
  "nat \<Rightarrow> string \<Rightarrow> string signature_fields list
   \<Rightarrow> signature_error + signing_algorithm signature_fields" where
  "parse_first_valid_loop i acc [] = Inl (SigInvalidData acc)"
| "parse_first_valid_loop i acc (raw # rest) =
     (case signature_data_try_from raw of
        Inr valid \<Rightarrow> Inr valid
      | Inl err \<Rightarrow>
          parse_first_valid_loop (Suc i)
            (acc @ ''Cannot process the signature data in position '' @ show_nat i @ '': ''
             @ signature_error_fmt err @ [CHR 0x0A]) rest)"

definition parse_first_valid ::
  "string signature_fields list \<Rightarrow> signature_error + signing_algorithm signature_fields" where
  "parse_first_valid sigs = parse_first_valid_loop 0 [] sigs"

type_synonym signatures = "(string \<times> signing_algorithm signature_fields) list"

definition signatures_deserialize ::
  "(string \<times> string signature_fields list) list \<Rightarrow> string + signatures" where
  "signatures_deserialize raw =
     try_fold (\<lambda>sigs (ident, signature_list).
         map_ok (\<lambda>valid. AList.update ident valid sigs)
           (map_err (\<lambda>e. ''there is no valid signature data for '' @ ident @ '': ''
                        @ signature_error_fmt e)
              (parse_first_valid signature_list)))
       [] raw"

record custom_message =
  cm_capability :: string
  cm_type :: string
  cm_data :: string

text \<open>\<open>from_slice\<close> is the JSON reader for the raw map of signature lists.\<close>

definition signatures_try_from ::
  "(string \<Rightarrow> string + (string \<times> string signature_fields list) list) \<Rightarrow> custom_message
   \<Rightarrow> signature_error + signatures" where
  "signatures_try_from from_slice m =
     (if cm_capability m \<noteq> SIGNATURE_CUSTOM_CAPABILITY then Inl SigInvalidCapability
      else if cm_type m \<noteq> SIGNATURE_CUSTOM_MESSAGE_TYPE then Inl SigInvalidType
      else map_err SigInvalidData (rbind (from_slice (cm_data m)) signatures_deserialize))"

section \<open>OpAMP callbacks\<close>

datatype 's opamp_event =
    RemoteConfigReceived "'s opamp_remote_config"
  | Connected
  | ConnectFailed "nat option" string

record agent_remote_config =
  arc_config_hash :: string
  arc_config :: "(string \<times> string) list option"

record message_data =
  md_remote_config :: "agent_remote_config option"
  md_custom_message :: "custom_message option"

text \<open>The libraries the callbacks use.\<close>

record intake_libs =
  il_show_utf8 :: "string \<Rightarrow> string"
  il_from_slice :: "string \<Rightarrow> string + (string \<times> string signature_fields list) list"

definition intake_hash :: "intake_libs \<Rightarrow> agent_remote_config \<Rightarrow> config_state \<times> hash" where
  "intake_hash L msg =
     (case from_utf8 (il_show_utf8 L) (arc_config_hash msg) of
        Inr h \<Rightarrow> (Applying, h)
      | Inl err \<Rightarrow> (Failed (''Invalid hash: '' @ err), []))"

definition intake_config_map ::
  "intake_libs \<Rightarrow> agent_remote_config \<Rightarrow> config_state \<Rightarrow> config_state \<times> configuration_map" where
  "intake_config_map L msg state =
     (case arc_config msg of
        Some m \<Rightarrow>
          (case configuration_map_try_from (il_show_utf8 L) m of
             Inr cm \<Rightarrow> (state, cm)
           | Inl err \<Rightarrow>
               (Failed (''Invalid remote config format: '' @ opamp_remote_config_error_fmt err), []))
      | None \<Rightarrow> (Failed ''Config missing'', []))"

definition intake_signatures ::
  "intake_libs \<Rightarrow> custom_message option \<Rightarrow> config_state \<Rightarrow> config_state \<times> signatures option" where
  "intake_signatures L custom state =
     (case custom of
        None \<Rightarrow> (state, None)
      | Some m \<Rightarrow>
          (case signatures_try_from (il_from_slice L) m of
             Inr sigs \<Rightarrow> (state, Some sigs)
           | Inl (SigInvalidData err) \<Rightarrow>
               (Failed (''Invalid remote config signature format: '' @ err), None)
           | Inl _ \<Rightarrow> (state, None)))"

definition process_remote_config ::
  "intake_libs \<Rightarrow> agent_id \<Rightarrow> agent_remote_config \<Rightarrow> custom_message option
   \<Rightarrow> signing_algorithm signature_fields opamp_remote_config" where
  "process_remote_config L aid msg custom =
     (let (state, h) = intake_hash L msg;
          (state, config_map) = intake_config_map L msg state;
          (state, maybe_signature) = intake_signatures L custom state;
          remote_config = opamp_remote_config_new aid h state config_map
      in case maybe_signature of
           Some sigs \<Rightarrow> with_signature remote_config sigs
         | None \<Rightarrow> remote_config)"

text \<open>The events a callback publishes.\<close>

definition on_message ::
  "intake_libs \<Rightarrow> agent_id \<Rightarrow> message_data
   \<Rightarrow> signing_algorithm signature_fields opamp_event list" where
  "on_message L aid msg =
     (case md_remote_config msg of
        Some rc \<Rightarrow> [RemoteConfigReceived (process_remote_config L aid rc (md_custom_message msg))]
      | None \<Rightarrow> [])"

definition on_connect :: "'s opamp_event list" where
  "on_connect = [Connected]"

datatype connection_error =
    UnsuccessfulResponse nat string
  | OtherConnectionError string

fun on_connect_failed :: "connection_error \<Rightarrow> 's opamp_event list" where
  "on_connect_failed (UnsuccessfulResponse code reason) = [ConnectFailed (Some code) reason]"
| "on_connect_failed (OtherConnectionError err) = [ConnectFailed None err]"

section \<open>Regular-expression validator\<close>

definition rx_alt :: "char \<Rightarrow> string \<Rightarrow> string" where
  "rx_alt c hex = ''('' @ [c] @ ''|'' @ [CHR 0x5C, CHR 0x5C] @ ''x'' @ hex @ '')''"

definition REGEX_COMMAND_FIELD :: string where
  "REGEX_COMMAND_FIELD =
     rx_alt (CHR ''c'') ''63'' @ rx_alt (CHR ''o'') ''6f'' @ rx_alt (CHR ''m'') ''6d'' @
     rx_alt (CHR ''m'') ''6d'' @ rx_alt (CHR ''a'') ''61'' @ rx_alt (CHR ''n'') ''6e'' @
     rx_alt (CHR ''d'') ''64'' @ [CHR 0x5C] @ ''s*:''"

definition REGEX_EXEC_FIELD :: string where
  "REGEX_EXEC_FIELD =
     rx_alt (CHR ''e'') ''65'' @ rx_alt (CHR ''x'') ''78'' @ rx_alt (CHR ''e'') ''65'' @
     rx_alt (CHR ''c'') ''63'' @ [CHR 0x5C] @ ''s*:''"

definition REGEX_BINARY_PATH_FIELD :: string where
  "REGEX_BINARY_PATH_FIELD =
     ''(?i:'' @ rx_alt (CHR ''b'') ''62'' @ rx_alt (CHR ''i'') ''69'' @ rx_alt (CHR ''n'') ''6e'' @
     rx_alt (CHR ''a'') ''61'' @ rx_alt (CHR ''r'') ''72'' @ rx_alt (CHR ''y'') ''79'' @
     ''(_|'' @ [CHR 0x5C] @ ''x5f)'' @ rx_alt (CHR ''p'') ''70'' @ rx_alt (CHR ''a'') ''61'' @
     rx_alt (CHR ''t'') ''74'' @ rx_alt (CHR ''h'') ''68'' @ '')''"

definition REGEX_NRI_FLEX :: string where
  "REGEX_NRI_FLEX =
     rx_alt (CHR ''n'') ''6e'' @ rx_alt (CHR ''r'') ''72'' @ rx_alt (CHR ''i'') ''69'' @
     ''('' @ [CHR 0x5C] @ ''-|'' @ [CHR 0x5C, CHR 0x5C] @ ''x2d)'' @
     rx_alt (CHR ''f'') ''66'' @ rx_alt (CHR ''l'') ''6c'' @ rx_alt (CHR ''e'') ''65'' @
     rx_alt (CHR ''x'') ''78''"

definition REGEX_PROXY_ENV_VAR :: string where
  "REGEX_PROXY_ENV_VAR =
     ''(?i:'' @ rx_alt (CHR ''p'') ''70'' @ rx_alt (CHR ''r'') ''72'' @ rx_alt (CHR ''o'') ''6f'' @
     rx_alt (CHR ''x'') ''78'' @ rx_alt (CHR ''y'') ''79'' @ '')'' @ [CHR 0x5C] @ ''s*:.*('' @
     [CHR 0x5C] @ ''{'' @ [CHR 0x5C] @ ''{|'' @ [CHR 0x5C] @ ''$'' @ [CHR 0x5C] @ ''{'' @
     rx_alt (CHR ''n'') ''6e'' @ rx_alt (CHR ''r'') ''72'' @
     ''('' @ [CHR 0x5C] @ ''-|'' @ [CHR 0x5C, CHR 0x5C] @ ''x2d)'' @
     rx_alt (CHR ''e'') ''65'' @ rx_alt (CHR ''n'') ''6e'' @ rx_alt (CHR ''v'') ''76'' @ '':)''"

definition AGENT_TYPE_NAME_INFRA_AGENT :: string where
  "AGENT_TYPE_NAME_INFRA_AGENT = ''com.newrelic.infrastructure''"

type_synonym regex_validator = "(string \<times> (string \<times> string) list) list"

definition regex_rules :: regex_validator where
  "regex_rules =
     [(AGENT_TYPE_NAME_INFRA_AGENT,
       [(''arbitrary command execution via '' @ sq ''command'' @ '' field'', REGEX_COMMAND_FIELD),
        (''arbitrary command execution via '' @ sq ''exec'' @ '' field'', REGEX_EXEC_FIELD),
        (''arbitrary command execution via '' @ sq ''binary_path'' @ '' field'',
         REGEX_BINARY_PATH_FIELD),
        (sq ''nri-flex'' @ '' integration usage'', REGEX_NRI_FLEX),
        (''setting environment variables '' @ sq ''${nr-env:HTTP_PROXY}'' @ '' or ''
         @ sq ''{{PROXY_HOST}}'' @ '' in proxy configuration'', REGEX_PROXY_ENV_VAR)])]"

datatype regex_validator_error = RegexInvalidConfig string

text \<open>\<open>is_match pattern text\<close> is the regular-expression library.\<close>

definition validate_regex_rules ::
  "(string \<Rightarrow> string \<Rightarrow> bool) \<Rightarrow> regex_validator \<Rightarrow> 'v agent_type_id \<Rightarrow> string
   \<Rightarrow> regex_validator_error + unit" where
  "validate_regex_rules is_match rules agent_type raw_config =
     (case map_of rules (ati_name agent_type) of
        None \<Rightarrow> Inr ()
      | Some rs \<Rightarrow>
          try_fold (\<lambda>_ (rule_name, regex).
            if is_match regex raw_config then Inl (RegexInvalidConfig rule_name) else Inr ()) () rs)"

definition regex_validate ::
  "(string \<Rightarrow> string \<Rightarrow> bool) \<Rightarrow> regex_validator \<Rightarrow> 'v agent_identity \<Rightarrow> 's opamp_remote_config
   \<Rightarrow> regex_validator_error + unit" where
  "regex_validate is_match rules ident c =
     try_fold (\<lambda>_ (_, raw_config).
         validate_regex_rules is_match rules (ai_agent_type_id ident) raw_config)
       () (agent_configs_iter c)"

section \<open>Public keys and the signature validator\<close>

record key_data =
  kd_kty :: string
  kd_use :: string
  kd_kid :: string
  kd_x :: string
  kd_crv :: string

record public_key =
  pk_public_key :: string
  pk_key_id :: string

definition public_key_try_from ::
  "(string \<Rightarrow> string + string) \<Rightarrow> key_data \<Rightarrow> pub_key_error + public_key" where
  "public_key_try_from url_decode data =
     (if kd_use data \<noteq> ''sig'' then Inl (ParsePubKey (''Key use is not '' @ sq ''sig''))
      else if kd_kty data \<noteq> ''OKP'' then Inl (ParsePubKey ''The only supported algorithm is OKP'')
      else if \<not> eq_ignore_ascii_case (kd_crv data) ''ED25519''
        then Inl (ParsePubKey ''The only supported crv is Ed25519'')
      else rbind (map_err ParsePubKey (url_decode (kd_x data)))
             (\<lambda>k. Inr \<lparr>pk_public_key = k, pk_key_id = kd_kid data\<rparr>))"

definition fetch_latest_key ::
  "(string \<Rightarrow> string + string) \<Rightarrow> (string + key_data list) \<Rightarrow> string + public_key" where
  "fetch_latest_key url_decode jwks =
     rbind jwks (\<lambda>keys. case keys of
         [] \<Rightarrow> Inl ''missing key data''
       | latest # _ \<Rightarrow>
           map_err (\<lambda>e. ''building verifier: '' @ pub_key_error_fmt e)
             (public_key_try_from url_decode latest))"

fun fetch_keys_loop ::
  "(string \<Rightarrow> string + string) \<Rightarrow> key_data list \<Rightarrow> public_key list \<Rightarrow> string list
   \<Rightarrow> public_key list \<times> string list" where
  "fetch_keys_loop url_decode [] keys errors = (keys, errors)"
| "fetch_keys_loop url_decode (kd # kds) keys errors =
     (case public_key_try_from url_decode kd of
        Inr key \<Rightarrow> fetch_keys_loop url_decode kds (keys @ [key]) errors
      | Inl e \<Rightarrow> fetch_keys_loop url_decode kds keys
                  (errors @ [''invalid key '' @ kd_kid kd @ '': '' @ pub_key_error_fmt e]))"

definition fetch_keys ::
  "(string \<Rightarrow> string + string) \<Rightarrow> (string + key_data list) \<Rightarrow> string + public_key list" where
  "fetch_keys url_decode jwks =
     rbind jwks (\<lambda>kds.
       let (keys, errors) = fetch_keys_loop url_decode kds [] []
       in if keys = [] then
            Inl (if errors = [] then ''no keys found''
                 else ''no valid keys found ('' @ show_nat (length errors) @ '' invalid keys: ''
                      @ join '', '' errors @ '')'')
          else Inr keys)"

text \<open>The cryptographic libraries; \<open>cl_jwks n\<close> is the answer of the key server to the \<open>n\<close>-th
  request.\<close>

record crypto_libs =
  cl_b64_decode :: "string \<Rightarrow> string + string"
  cl_digest_b64 :: "string \<Rightarrow> string"
  cl_verify :: "string \<Rightarrow> string \<Rightarrow> string \<Rightarrow> bool"
  cl_url_decode :: "string \<Rightarrow> string + string"
  cl_jwks :: "nat \<Rightarrow> string + key_data list"

record verifier_store =
  vs_verifier :: public_key
  vs_fetches :: nat

datatype verifier_store_error =
    VsFetch string
  | VsKeyMismatch string string
  | VsVerifySignature string
  | VsDecodingSignature string

definition pk_verify_signature ::
  "crypto_libs \<Rightarrow> public_key \<Rightarrow> string \<Rightarrow> string \<Rightarrow> pub_key_error + unit" where
  "pk_verify_signature L pk msg sig =
     (if cl_verify L (pk_public_key pk) msg sig then Inr ()
      else Inl (ValidatingSignature (''with key id '' @ pk_key_id pk)))"

definition check_with_key ::
  "crypto_libs \<Rightarrow> public_key \<Rightarrow> string \<Rightarrow> string \<Rightarrow> verifier_store_error + unit" where
  "check_with_key L pk msg decoded =
     map_err (\<lambda>e. VsVerifySignature (pub_key_error_fmt e))
       (pk_verify_signature L pk (cl_digest_b64 L msg) decoded)"

definition vs_verify_signature ::
  "crypto_libs \<Rightarrow> string \<Rightarrow> string \<Rightarrow> string \<Rightarrow> verifier_store
   \<Rightarrow> (verifier_store_error + unit) \<times> verifier_store" where
  "vs_verify_signature L key_id msg signature vs =
     (case cl_b64_decode L signature of
        Inl e \<Rightarrow> (Inl (VsDecodingSignature e), vs)
      | Inr decoded \<Rightarrow>
          if eq_ignore_ascii_case (pk_key_id (vs_verifier vs)) key_id
          then (check_with_key L (vs_verifier vs) msg decoded, vs)
          else
            (case fetch_latest_key (cl_url_decode L) (cl_jwks L (vs_fetches vs)) of
               Inl e \<Rightarrow> (Inl (VsFetch e), vs\<lparr>vs_fetches := Suc (vs_fetches vs)\<rparr>)
             | Inr key \<Rightarrow>
                 let vs' = \<lparr>vs_verifier = key, vs_fetches = Suc (vs_fetches vs)\<rparr>
                 in if eq_ignore_ascii_case (pk_key_id key) key_id
                    then (check_with_key L key msg decoded, vs')
                    else (Inl (VsKeyMismatch key_id (pk_key_id key)), vs')))"

type_synonym signed_config = "signing_algorithm signature_fields opamp_remote_config"

datatype signature_validator_error =
    SvGettingSignature string opamp_remote_config_error
  | SvVerifying string verifier_store_error

fun signature_validate_loop ::
  "crypto_libs \<Rightarrow> signed_config \<Rightarrow> (string \<times> string) list \<Rightarrow> verifier_store
   \<Rightarrow> (signature_validator_error + unit) \<times> verifier_store" where
  "signature_validate_loop L c [] vs = (Inr (), vs)"
| "signature_validate_loop L c ((name, content) # rest) vs =
     (case config_signature c name of
        Inl e \<Rightarrow> (Inl (SvGettingSignature name e), vs)
      | Inr sig \<Rightarrow>
          (case vs_verify_signature L (sf_key_id sig) content (sf_signature sig) vs of
             (Inl e, vs') \<Rightarrow> (Inl (SvVerifying name e), vs')
           | (Inr _, vs') \<Rightarrow> signature_validate_loop L c rest vs'))"

text \<open>The store is absent when the validation is disabled.\<close>

definition signature_validate ::
  "crypto_libs \<Rightarrow> signed_config \<Rightarrow> verifier_store option
   \<Rightarrow> (signature_validator_error + unit) \<times> verifier_store option" where
  "signature_validate L c store =
     (case store of
        None \<Rightarrow> (Inr (), None)
      | Some vs \<Rightarrow> map_prod id Some (signature_validate_loop L c (configs_iter c) vs))"

section \<open>Properties of the intake\<close>

lemma configuration_map_fold_ok:
  "(\<exists>cm. try_fold (insert_body sh) acc m = Inr cm) \<longleftrightarrow>
   list_all (\<lambda>(k, b). utf8_valid (map of_char b)) m"
proof (induction m arbitrary: acc)
  case (Cons e m)
  obtain k b where e: "e = (k, b)" by (cases e)
  show ?case
  proof (cases "utf8_valid (map of_char b)")
    case True
    then have "from_utf8 sh b = Inr b" by (simp add: from_utf8_def)
    then show ?thesis using True Cons.IH by (simp add: e rbind_def)
  next
    case False
    then have "from_utf8 sh b = Inl (sh b)" by (simp add: from_utf8_def)
    then show ?thesis using False by (simp add: e rbind_def)
  qed
qed simp

lemma configuration_map_try_from_ok:
  "(\<exists>cm. configuration_map_try_from sh m = Inr cm) \<longleftrightarrow>
     list_all (\<lambda>(k, b). utf8_valid (map of_char b)) m"
  unfolding configuration_map_try_from_def by (rule configuration_map_fold_ok)

lemma configuration_map_try_from_amap:
  assumes "configuration_map_try_from sh m = Inr cm"
  shows "amap_ok cm"
proof -
  have "amap_ok acc \<Longrightarrow> try_fold (insert_body sh) acc m = Inr cm \<Longrightarrow> amap_ok cm" for acc
  proof (induction m arbitrary: acc)
    case (Cons e m)
    from Cons.prems(2) obtain k b where "try_fold (insert_body sh) (AList.update k b acc) m = Inr cm"
      by (cases e) (auto simp: rbind_eq_Inr)
    then show ?case using Cons.IH amap_ok_update[OF Cons.prems(1)] by blast
  qed simp
  from this[of "[]"] assms show ?thesis
    by (simp add: configuration_map_try_from_def amap_ok_def)
qed

definition bad_signature_data :: "intake_libs \<Rightarrow> custom_message option \<Rightarrow> bool" where
  "bad_signature_data L custom \<longleftrightarrow>
     (case custom of
        None \<Rightarrow> False
      | Some m \<Rightarrow>
          (case signatures_try_from (il_from_slice L) m of
             Inl (SigInvalidData _) \<Rightarrow> True | _ \<Rightarrow> False))"

definition well_formed_message :: "intake_libs \<Rightarrow> agent_remote_config \<Rightarrow> custom_message option \<Rightarrow> bool" where
  "well_formed_message L msg custom \<longleftrightarrow>
     utf8_valid (map of_char (arc_config_hash msg)) \<and>
     (case arc_config msg of
        None \<Rightarrow> False
      | Some m \<Rightarrow> list_all (\<lambda>(k, b). utf8_valid (map of_char b)) m) \<and>
     \<not> bad_signature_data L custom"

lemma intake_hash_state:
  "fst (intake_hash L msg) =
     (if utf8_valid (map of_char (arc_config_hash msg)) then Applying
      else Failed (''Invalid hash: '' @ il_show_utf8 L (arc_config_hash msg)))"
  by (simp add: intake_hash_def from_utf8_def)

lemma intake_config_map_state:
  "(fst (intake_config_map L msg st) = Applying) =
   (st = Applying \<and> (case arc_config msg of
        None \<Rightarrow> False
      | Some m \<Rightarrow> list_all (\<lambda>(k, b). utf8_valid (map of_char b)) m))"
  by (auto simp: intake_config_map_def configuration_map_try_from_ok[of "il_show_utf8 L", symmetric]
    split: option.splits sum.splits)

lemma intake_signatures_state:
  "(fst (intake_signatures L custom st) = Applying) =
   (st = Applying \<and> \<not> bad_signature_data L custom)"
  by (auto simp: intake_signatures_def bad_signature_data_def
    split: option.splits sum.splits signature_error.splits)

lemma process_remote_config_state:
  "orc_state (process_remote_config L aid msg custom) =
     fst (intake_signatures L custom (fst (intake_config_map L msg (fst (intake_hash L msg)))))"
  by (simp add: process_remote_config_def opamp_remote_config_new_def with_signature_def Let_def
    split: prod.splits option.splits)

lemma process_remote_config_Applying_iff:
  "orc_state (process_remote_config L aid msg custom) = Applying \<longleftrightarrow> well_formed_message L msg custom"
  by (simp add: process_remote_config_state intake_signatures_state intake_config_map_state
    intake_hash_state well_formed_message_def conj_ac)

lemma process_remote_config_not_applied:
  "orc_state (process_remote_config L aid msg custom) \<noteq> Applied"
  by (auto simp: process_remote_config_state intake_signatures_def intake_config_map_def
    intake_hash_def split: option.splits sum.splits signature_error.splits)

lemma run_validators_ok_iff:
  "run_validators vs ident c = Inr () \<longleftrightarrow> list_all (\<lambda>v. is_ok (v ident c)) vs"
  by (induction vs) (auto simp: is_ok_def split: sum.splits)

lemma remote_config_parse_Inr:
  "remote_config_parse f vs ident c = Inr r \<longleftrightarrow>
     \<not> is_failed (orc_state c) \<and> list_all (\<lambda>v. is_ok (v ident c)) vs \<and>
     extract_remote_config_values f c = Inr r"
  by (cases "orc_state c")
    (auto simp: remote_config_parse_def rbind_eq_Inr run_validators_ok_iff)

text \<open>C28. Only well-formed messages are turned into a configuration: when the parser accepts the
  remote configuration that the OpAMP callback published for a message, the hash and every
  configuration body of the message were valid UTF-8, the message did carry a configuration, its
  signature message (if any) was readable, every validator accepted it, and the result carries the
  state \<open>Applying\<close>.\<close>

theorem parsed_message_well_formed:
  assumes "remote_config_parse f vs ident (process_remote_config L aid msg custom) = Inr (Some rc)"
  shows "well_formed_message L msg custom \<and> rc_state rc = Applying \<and>
    list_all (\<lambda>v. is_ok (v ident (process_remote_config L aid msg custom))) vs"
proof -
  let ?c = "process_remote_config L aid msg custom"
  from assms have nf: "\<not> is_failed (orc_state ?c)"
    and vs: "list_all (\<lambda>v. is_ok (v ident ?c)) vs"
    and ex: "extract_remote_config_values f ?c = Inr (Some rc)"
    by (simp_all add: remote_config_parse_Inr)
  have app: "orc_state ?c = Applying"
    using nf process_remote_config_not_applied[of L aid msg custom] by (cases "orc_state ?c") simp_all
  then have "well_formed_message L msg custom"
    by (simp only: process_remote_config_Applying_iff)
  moreover have "rc_state rc = Applying"
    using ex app unfolding extract_remote_config_values_iff by (auto split: if_splits)
  ultimately show ?thesis using vs by simp
qed

theorem parsed_message_well_formed_witness:
  "let L = \<lparr>il_show_utf8 = id, il_from_slice = (\<lambda>_. Inl [])\<rparr>;
       msg = \<lparr>arc_config_hash = ''h1'', arc_config = Some [(''agentConfig'', ''x'')]\<rparr>;
       ident = \<lparr>ai_id = AgentControl,
                ai_agent_type_id = \<lparr>ati_name = ''n'', ati_namespace = ''ns'', ati_version = ()\<rparr>\<rparr>;
       c = process_remote_config L AgentControl msg None
   in remote_config_parse (\<lambda>s. Inr [(s, True)]) [\<lambda>_ _. Inr ()] ident c =
        Inr (Some \<lparr>rc_config = [(''x'', True)], rc_hash = ''h1'', rc_state = Applying\<rparr>) \<and>
      well_formed_message L msg None"
proof -
  let ?L = "\<lparr>il_show_utf8 = id, il_from_slice = (\<lambda>_. Inl [])\<rparr>"
  let ?msg = "\<lparr>arc_config_hash = ''h1'', arc_config = Some [(''agentConfig'', ''x'')]\<rparr>"
  let ?ident = "\<lparr>ai_id = AgentControl,
                ai_agent_type_id = \<lparr>ati_name = ''n'', ati_namespace = ''ns'', ati_version = ()\<rparr>\<rparr>"
  have p: "remote_config_parse (\<lambda>s. Inr [(s, True)]) [\<lambda>_ _. Inr ()] ?ident
      (process_remote_config ?L AgentControl ?msg None) =
        Inr (Some \<lparr>rc_config = [(''x'', True)], rc_hash = ''h1'', rc_state = Applying\<rparr>)"
    by code_simp
  from parsed_message_well_formed[OF p] p show ?thesis by (simp add: Let_def)
qed


text \<open>The rules that apply to an agent type.\<close>

definition rules_for :: "regex_validator \<Rightarrow> 'v agent_identity \<Rightarrow> (string \<times> string) list" where
  "rules_for rules ident =
     (case map_of rules (ati_name (ai_agent_type_id ident)) of None \<Rightarrow> [] | Some rs \<Rightarrow> rs)"

lemma try_fold_unit_iff:
  "try_fold (\<lambda>_ x. g x) () xs = Inr () \<longleftrightarrow> list_all (\<lambda>x. is_ok (g x)) xs"
  by (induction xs) (auto simp: rbind_def is_ok_def split: sum.splits)

lemma validate_regex_rules_iff:
  "is_ok (validate_regex_rules is_match rules (ai_agent_type_id ident) raw) \<longleftrightarrow>
     \<not> list_ex (\<lambda>(_, p). is_match p raw) (rules_for rules ident)"
proof -
  have "is_ok (try_fold (\<lambda>_ (rule_name, regex).
      if is_match regex raw then Inl (RegexInvalidConfig rule_name) else Inr ()) () rs) \<longleftrightarrow>
      \<not> list_ex (\<lambda>(_, p). is_match p raw) rs" for rs
    by (induction rs) (auto simp: rbind_def is_ok_def split: if_splits)
  then show ?thesis
    by (simp add: validate_regex_rules_def rules_for_def is_ok_def split: option.splits)
qed

text \<open>The regular-expression validator accepts a message exactly when no \<open>agentConfig*\<close> entry
  of it matches a rule of the agent type of the sub-agent (agent types without rules accept
  everything).\<close>

theorem regex_validate_iff:
  "regex_validate is_match rules ident c = Inr () \<longleftrightarrow>
     \<not> list_ex (\<lambda>(_, raw). list_ex (\<lambda>(_, p). is_match p raw) (rules_for rules ident))
         (agent_configs_iter c)"
proof -
  have "regex_validate is_match rules ident c = Inr () \<longleftrightarrow>
      list_all (\<lambda>(_, raw). is_ok (validate_regex_rules is_match rules (ai_agent_type_id ident) raw))
        (agent_configs_iter c)"
    unfolding regex_validate_def by (subst try_fold_unit_iff) (simp add: case_prod_unfold)
  then show ?thesis
    by (simp add: validate_regex_rules_iff case_prod_unfold list_all_iff list_ex_iff)
qed

text \<open>C36. The validator does not look at the \<open>override.agentConfig\<close> entry, although the parser merges it
  over everything else: whatever the rules, a message that only carries an override passes the
  validator and its document becomes the configuration of the agent.\<close>

theorem regex_validator_skips_override:
  assumes "orc_config_map c = [(''override.agentConfig'', raw)]" and "orc_state c = Applying"
    and "f raw = Inr doc" and "doc \<noteq> []" and "amap_ok doc"
  shows "regex_validate is_match rules ident c = Inr () \<and>
    (\<exists>rc. remote_config_parse f
        [\<lambda>i c. map_err (\<lambda>_. ''restricted values detected'') (regex_validate is_match rules i c)]
        ident c = Inr (Some rc) \<and> map_of (rc_config rc) = map_of doc)"
proof -
  have none: "agent_configs_iter c = []"
    using assms(1) by (simp add: agent_configs_iter_def configs_iter_def AGENT_CONFIG_PREFIX_def
      starts_with_def)
  have ov: "override_configs c = [raw]"
    using assms(1) by (simp add: override_configs_def configs_iter_def
      AGENT_CONFIG_OVERRIDE_PREFIX_def starts_with_def)
  have ok: "regex_validate is_match rules ident c = Inr ()"
    by (simp add: regex_validate_def none)
  have "map_of (merge_override [] doc) = map_of doc"
    using assms(5) by (simp add: map_of_merge_override amap_ok_def)
  moreover have "merge_override [] doc \<noteq> []"
    using assms(4) by (simp add: merge_override_eq_Nil)
  then have "extract_remote_config_values f c = Inr (Some \<lparr>rc_config = merge_override [] doc,
      rc_hash = orc_hash c, rc_state = orc_state c\<rparr>)"
    unfolding extract_remote_config_values_iff none override_doc_def ov using assms(3)
    by (intro exI[of _ "[]"] exI[of _ doc]) simp
  ultimately show ?thesis
    using ok assms(2) by (auto simp: remote_config_parse_Inr is_ok_def)
qed

theorem regex_validator_skips_override_witness:
  "\<exists>rc. remote_config_parse (\<lambda>s. Inr [(''k'', s)])
     [\<lambda>i c. map_err (\<lambda>_. ''restricted values detected'') (regex_validate (\<lambda>_ _. True) regex_rules i c)]
     (agent_identity_from AgentControl \<lparr>ati_name = ''n'', ati_namespace = ''ns'', ati_version = ()\<rparr>)
     \<lparr>orc_agent_id = AgentControl, orc_hash = ''h'', orc_state = Applying,
      orc_signatures = (None :: (string \<times> unit) list option),
      orc_config_map = [(''override.agentConfig'', ''x'')]\<rparr> = Inr (Some rc) \<and> map_of (rc_config rc) = [''k'' \<mapsto> ''x'']"
proof -
  let ?c = "\<lparr>orc_agent_id = AgentControl, orc_hash = ''h'', orc_state = Applying,
      orc_signatures = (None :: (string \<times> unit) list option),
      orc_config_map = [(''override.agentConfig'', ''x'')]\<rparr>"
  have c: "orc_config_map ?c = [(''override.agentConfig'', ''x'')]" "orc_state ?c = Applying"
    by (simp_all only: opamp_remote_config.simps)
  have doc: "[(''k'', ''x'')] \<noteq> []" "amap_ok [(''k'', ''x'')]" by (simp_all add: amap_ok_def)
  show ?thesis
    using regex_validator_skips_override[OF c, of "\<lambda>s. Inr [(''k'', s)]", OF refl doc]
    unfolding map_of.simps fst_conv snd_conv by (rule conjunct2)
qed

text \<open>The keys a store can end up with: the one it holds and those the server hands out.\<close>

definition trusted_keys :: "crypto_libs \<Rightarrow> verifier_store \<Rightarrow> public_key set" where
  "trusted_keys L vs =
     insert (vs_verifier vs) {k. \<exists>n. fetch_latest_key (cl_url_decode L) (cl_jwks L n) = Inr k}"

definition signed_by :: "crypto_libs \<Rightarrow> public_key \<Rightarrow> signing_algorithm signature_fields \<Rightarrow> string \<Rightarrow> bool" where
  "signed_by L k sig content \<longleftrightarrow>
     eq_ignore_ascii_case (pk_key_id k) (sf_key_id sig) \<and>
     (case cl_b64_decode L (sf_signature sig) of
        Inl _ \<Rightarrow> False
      | Inr raw \<Rightarrow> cl_verify L (pk_public_key k) (cl_digest_b64 L content) raw)"

lemma check_with_key_ok:
  "check_with_key L k msg raw = Inr () \<longleftrightarrow> cl_verify L (pk_public_key k) (cl_digest_b64 L msg) raw"
  by (simp add: check_with_key_def pk_verify_signature_def)

lemma vs_verify_signature_ok:
  assumes "vs_verify_signature L (sf_key_id sig) msg (sf_signature sig) vs = (Inr u, vs')"
  shows "signed_by L (vs_verifier vs') sig msg \<and> vs_verifier vs' \<in> trusted_keys L vs \<and>
    trusted_keys L vs' \<subseteq> trusted_keys L vs"
  using assms
  by (auto simp: vs_verify_signature_def signed_by_def trusted_keys_def Let_def check_with_key_ok
    split: sum.splits if_splits)

definition entry_signed ::
  "crypto_libs \<Rightarrow> signed_config \<Rightarrow> public_key set \<Rightarrow> string \<times> string \<Rightarrow> bool" where
  "entry_signed L c keys entry \<longleftrightarrow>
     (\<exists>sig k. config_signature c (fst entry) = Inr sig \<and> k \<in> keys \<and> signed_by L k sig (snd entry))"

lemma entry_signed_mono: "entry_signed L c keys e \<Longrightarrow> keys \<subseteq> keys' \<Longrightarrow> entry_signed L c keys' e"
  unfolding entry_signed_def by blast

lemma signature_validate_loop_ok:
  assumes "signature_validate_loop L c es vs = (Inr u, vs')"
  shows "list_all (entry_signed L c (trusted_keys L vs)) es"
  using assms
proof (induction es arbitrary: vs)
  case (Cons e es)
  obtain name content where e: "e = (name, content)" by (cases e)
  from Cons.prems obtain sig vs1 where sig: "config_signature c name = Inr sig"
    and v: "vs_verify_signature L (sf_key_id sig) content (sf_signature sig) vs = (Inr (), vs1)"
    and rest: "signature_validate_loop L c es vs1 = (Inr u, vs')"
    by (auto simp: e split: sum.splits prod.splits)
  note ok = vs_verify_signature_ok[OF v]
  have "entry_signed L c (trusted_keys L vs) e"
    unfolding entry_signed_def e fst_conv snd_conv using sig ok by blast
  moreover have "list_all (entry_signed L c (trusted_keys L vs)) es"
    using Cons.IH[OF rest] ok by (blast intro: list.pred_mono_strong entry_signed_mono)
  ultimately show ?case by simp
qed simp

text \<open>C4. Signature validation is sound: when it accepts a message, every entry of the message,
  override entries included, carries a signature that verifies, over the SHA-256 digest of its
  content, under a key whose id is the one named by the signature and which is the key the store held
  or one published by the key server, also when the store rotated its key on the way.\<close>

theorem signature_validate_sound:
  assumes "signature_validate L c (Some vs) = (Inr (), store')"
  shows "list_all (entry_signed L c (trusted_keys L vs)) (orc_config_map c)"
proof -
  from assms obtain vs' where "signature_validate_loop L c (configs_iter c) vs = (Inr (), vs')"
    by (cases "signature_validate_loop L c (configs_iter c) vs") (simp add: signature_validate_def)
  from signature_validate_loop_ok[OF this] show ?thesis by (simp add: configs_iter_def)
qed

theorem signature_validate_sound_witness:
  "let L = \<lparr>cl_b64_decode = Inr, cl_digest_b64 = id, cl_verify = (\<lambda>k m s. s = k @ m),
            cl_url_decode = Inr,
            cl_jwks = (\<lambda>_. Inr [\<lparr>kd_kty = ''OKP'', kd_use = ''sig'', kd_kid = ''k2'',
                                 kd_x = ''B'', kd_crv = ''Ed25519''\<rparr>])\<rparr>;
       c = \<lparr>orc_agent_id = AgentControl, orc_hash = ''h'', orc_state = Applying,
            orc_signatures = Some [(''agentConfig'', \<lparr>sf_signature = ''Bx'', sf_key_id = ''K2'',
              sf_signing_algorithm = ED25519\<rparr>)],
            orc_config_map = [(''agentConfig'', ''x'')]\<rparr>;
       vs = \<lparr>vs_verifier = \<lparr>pk_public_key = ''A'', pk_key_id = ''k1''\<rparr>, vs_fetches = 0\<rparr>;
       vs' = \<lparr>vs_verifier = \<lparr>pk_public_key = ''B'', pk_key_id = ''k2''\<rparr>, vs_fetches = 1\<rparr>
   in signature_validate L c (Some vs) = (Inr (), Some vs') \<and>
      (\<exists>k. k \<in> trusted_keys L vs \<and> eq_ignore_ascii_case (pk_key_id k) ''K2'')"
proof -
  let ?L = "\<lparr>cl_b64_decode = Inr, cl_digest_b64 = id, cl_verify = (\<lambda>k m s. s = k @ m),
            cl_url_decode = Inr,
            cl_jwks = (\<lambda>_. Inr [\<lparr>kd_kty = ''OKP'', kd_use = ''sig'', kd_kid = ''k2'',
                                 kd_x = ''B'', kd_crv = ''Ed25519''\<rparr>])\<rparr>"
  let ?sig = "\<lparr>sf_signature = ''Bx'', sf_key_id = ''K2'', sf_signing_algorithm = ED25519\<rparr>"
  let ?c = "\<lparr>orc_agent_id = AgentControl, orc_hash = ''h'', orc_state = Applying,
            orc_signatures = Some [(''agentConfig'', ?sig)],
            orc_config_map = [(''agentConfig'', ''x'')]\<rparr>"
  let ?vs = "\<lparr>vs_verifier = \<lparr>pk_public_key = ''A'', pk_key_id = ''k1''\<rparr>, vs_fetches = 0\<rparr>"
  have v: "signature_validate ?L ?c (Some ?vs) =
      (Inr (), Some \<lparr>vs_verifier = \<lparr>pk_public_key = ''B'', pk_key_id = ''k2''\<rparr>, vs_fetches = 1\<rparr>)"
    by code_simp
  have sig: "config_signature ?c ''agentConfig'' = Inr ?sig" by code_simp
  have entry: "list_all P (orc_config_map ?c) \<longleftrightarrow> P (''agentConfig'', ''x'')" for P
    by simp
  from signature_validate_sound[OF v] obtain k where "k \<in> trusted_keys ?L ?vs"
    and "signed_by ?L k ?sig ''x''"
    unfolding entry entry_signed_def fst_conv snd_conv sig sum.inject by blast
  then have "\<exists>k. k \<in> trusted_keys ?L ?vs \<and> eq_ignore_ascii_case (pk_key_id k) ''K2''"
    unfolding signed_by_def signature_fields.simps by blast
  with v show ?thesis unfolding Let_def by blast
qed

end
