(* ===== verification/File_System.thy ===== *)
theory File_System
  imports Remote_Config_Intake
begin

text \<open>
  The file system as the program uses it (\<open>src/fs\<close>). A path is the list of its components. The disk
  is a map from paths to the bytes of a file and a list of directories; every operation of the
  operating system can fail, as decided by the record \<open>os_faults\<close>, and a write that fails may leave
  any prefix of its content behind. Reading a file that exists fails for other reasons than the file
  being missing (no other process removes the files of the store between the two system calls).
\<close>

section \<open>Disk\<close>

type_synonym path = "string list"

datatype error_kind = NotFound | InvalidData | InvalidInput | OtherKind string

record io_error =
  ie_kind :: error_kind
  ie_msg :: string

abbreviation io_err :: "error_kind \<Rightarrow> string \<Rightarrow> io_error" where
  "io_err k m \<equiv> \<lparr>ie_kind = k, ie_msg = m\<rparr>"

abbreviation io_other :: "string \<Rightarrow> io_error" where
  "io_other m \<equiv> io_err (OtherKind ''other'') m"

record disk =
  dk_files :: "(path \<times> string) list"
  dk_dirs :: "path list"

record os_faults =
  os_read :: "disk \<Rightarrow> path \<Rightarrow> string option"
  os_open :: "disk \<Rightarrow> path \<Rightarrow> io_error option"
  os_write :: "disk \<Rightarrow> path \<Rightarrow> (nat \<times> io_error) option"
  os_sync :: "disk \<Rightarrow> path \<Rightarrow> io_error option"
  os_unlink :: "disk \<Rightarrow> path \<Rightarrow> io_error option"
  os_rename :: "disk \<Rightarrow> path \<Rightarrow> io_error option"
  os_mkdir :: "disk \<Rightarrow> path \<Rightarrow> io_error option"
  os_rmdir :: "disk \<Rightarrow> path \<Rightarrow> (path list \<times> io_error) option"
  os_readdir :: "disk \<Rightarrow> path \<Rightarrow> io_error option"

definition no_faults :: os_faults where
  "no_faults = \<lparr>os_read = \<lambda>_ _. None, os_open = \<lambda>_ _. None, os_write = \<lambda>_ _. None,
     os_sync = \<lambda>_ _. None, os_unlink = \<lambda>_ _. None, os_rename = \<lambda>_ _. None, os_mkdir = \<lambda>_ _. None,
     os_rmdir = \<lambda>_ _. None, os_readdir = \<lambda>_ _. None\<rparr>"

definition file_at :: "disk \<Rightarrow> path \<Rightarrow> string option" where
  "file_at d p = map_of (dk_files d) p"

definition is_dir :: "disk \<Rightarrow> path \<Rightarrow> bool" where
  "is_dir d p \<longleftrightarrow> p = [] \<or> p \<in> set (dk_dirs d)"

definition is_file :: "disk \<Rightarrow> path \<Rightarrow> bool" where
  "is_file d p \<longleftrightarrow> file_at d p \<noteq> None"

definition path_exists :: "disk \<Rightarrow> path \<Rightarrow> bool" where
  "path_exists d p \<longleftrightarrow> is_file d p \<or> is_dir d p"

definition put_file :: "path \<Rightarrow> string \<Rightarrow> disk \<Rightarrow> disk" where
  "put_file p content d = d\<lparr>dk_files := AList.update p content (dk_files d)\<rparr>"

definition drop_file :: "path \<Rightarrow> disk \<Rightarrow> disk" where
  "drop_file p d = d\<lparr>dk_files := AList.delete p (dk_files d)\<rparr>"

fun parent :: "path \<Rightarrow> path option" where
  "parent [] = None"
| "parent p = Some (butlast p)"

section \<open>Operations of the fs crate\<close>

definition show_path :: "path \<Rightarrow> string" where
  "show_path p = join ''/'' p"

definition validate_path :: "path \<Rightarrow> io_error + unit" where
  "validate_path p =
     (if list_ex (\<lambda>c. c = ''..'') p
      then Inl (io_err InvalidInput (''dots disallowed in path '' @ show_path p))
      else if \<not> list_all (\<lambda>c. utf8_valid (map of_char c)) p
      then Inl (io_err InvalidInput (show_path p @ '' is not valid unicode''))
      else Inr ())"

definition file_read :: "os_faults \<Rightarrow> path \<Rightarrow> disk \<Rightarrow> io_error + string" where
  "file_read os p d =
     (case file_at d p of
        None \<Rightarrow> Inl (io_err NotFound (''file not found or not a file: '' @ show_path p))
      | Some content \<Rightarrow>
          (case os_read os d p of
             Some m \<Rightarrow> Inl (io_other m)
           | None \<Rightarrow>
               if utf8_valid (map of_char content) then Inr content
               else Inl (io_err InvalidData ''UTF-8 decoding error'')))"

text \<open>Opening with \<open>create\<close> and \<open>truncate\<close> needs the parent directory; \<open>write_all\<close> and \<open>sync_all\<close>
  may fail after the file has been truncated.\<close>

definition file_write :: "os_faults \<Rightarrow> path \<Rightarrow> string \<Rightarrow> disk \<Rightarrow> (io_error + unit) \<times> disk" where
  "file_write os p content d =
     (case validate_path p of
        Inl e \<Rightarrow> (Inl e, d)
      | Inr _ \<Rightarrow>
          (case os_open os d p of
             Some e \<Rightarrow> (Inl e, d)
           | None \<Rightarrow>
               if is_dir d p then (Inl (io_other ''is a directory''), d)
               else if \<not> is_dir d (butlast p)
                 then (Inl (io_err NotFound ''no such file or directory''), d)
               else
                 (case os_write os d p of
                    Some (n, e) \<Rightarrow> (Inl e, put_file p (take n content) d)
                  | None \<Rightarrow>
                      (case os_sync os d p of
                         Some e \<Rightarrow> (Inl e, put_file p content d)
                       | None \<Rightarrow> (Inr (), put_file p content d)))))"

definition remove_file :: "os_faults \<Rightarrow> path \<Rightarrow> disk \<Rightarrow> (io_error + unit) \<times> disk" where
  "remove_file os p d =
     (case os_unlink os d p of
        Some e \<Rightarrow> (Inl e, d)
      | None \<Rightarrow>
          if is_file d p then (Inr (), drop_file p d)
          else if is_dir d p then (Inl (io_other ''is a directory''), d)
          else (Inl (io_err NotFound ''no such file or directory''), d))"

definition file_delete :: "os_faults \<Rightarrow> path \<Rightarrow> disk \<Rightarrow> (io_error + unit) \<times> disk" where
  "file_delete os p d =
     (if \<not> path_exists d p then (Inl (io_err NotFound (show_path p)), d)
      else remove_file os p d)"

text \<open>Renaming a regular file; the destination is replaced.\<close>

definition file_rename :: "os_faults \<Rightarrow> path \<Rightarrow> path \<Rightarrow> disk \<Rightarrow> (io_error + unit) \<times> disk" where
  "file_rename os p q d =
     (if \<not> path_exists d p
      then (Inl (io_err NotFound (''file or dir not found: '' @ show_path p)), d)
      else
        (case os_rename os d p of
           Some e \<Rightarrow> (Inl e, d)
         | None \<Rightarrow>
             (case file_at d p of
                Some content \<Rightarrow>
                  if is_dir d q \<or> \<not> is_dir d (butlast q) then (Inl (io_other ''cannot rename''), d)
                  else (Inr (), put_file q content (drop_file p d))
              | None \<Rightarrow> (Inl (io_other ''renaming a directory''), d))))"

definition dir_create :: "os_faults \<Rightarrow> path \<Rightarrow> disk \<Rightarrow> (io_error + unit) \<times> disk" where
  "dir_create os p d =
     (case validate_path p of
        Inl e \<Rightarrow> (Inl e, d)
      | Inr _ \<Rightarrow>
          (case os_mkdir os d p of
             Some e \<Rightarrow> (Inl e, d)
           | None \<Rightarrow>
               let prefixes = map (\<lambda>n. take n p) [1..<Suc (length p)]
               in if list_ex (is_file d) prefixes then (Inl (io_other ''not a directory''), d)
                  else (Inr (), d\<lparr>dk_dirs := dk_dirs d @ filter (\<lambda>q. \<not> is_dir d q) prefixes\<rparr>)))"

definition under :: "path \<Rightarrow> path \<Rightarrow> bool" where
  "under root p \<longleftrightarrow> take (length root) p = root"

definition remove_tree :: "(path \<Rightarrow> bool) \<Rightarrow> disk \<Rightarrow> disk" where
  "remove_tree gone d =
     \<lparr>dk_files = filter (\<lambda>(p, _). \<not> gone p) (dk_files d),
      dk_dirs = filter (\<lambda>p. \<not> gone p) (dk_dirs d)\<rparr>"

definition dir_delete :: "os_faults \<Rightarrow> path \<Rightarrow> disk \<Rightarrow> (io_error + unit) \<times> disk" where
  "dir_delete os p d =
     (case validate_path p of
        Inl e \<Rightarrow> (Inl e, d)
      | Inr _ \<Rightarrow>
          if \<not> path_exists d p then (Inr (), d)
          else
            (case os_rmdir os d p of
               Some (removed, e) \<Rightarrow> (Inl e, remove_tree (\<lambda>q. under p q \<and> q \<in> set removed) d)
             | None \<Rightarrow>
                 if is_dir d p then (Inr (), remove_tree (under p) d)
                 else (Inl (io_other ''not a directory''), d)))"

definition child_of :: "path \<Rightarrow> path \<Rightarrow> bool" where
  "child_of p q \<longleftrightarrow> q \<noteq> [] \<and> butlast q = p"

definition dir_children :: "disk \<Rightarrow> path \<Rightarrow> path list" where
  "dir_children d p = filter (child_of p) (map fst (dk_files d) @ dk_dirs d)"

definition dir_list :: "os_faults \<Rightarrow> path \<Rightarrow> disk \<Rightarrow> io_error + path list" where
  "dir_list os p d =
     rbind (validate_path p) (\<lambda>_.
       if \<not> path_exists d p then Inr []
       else
         (case os_readdir os d p of
            Some e \<Rightarrow> if ie_kind e = NotFound then Inr [] else Inl e
          | None \<Rightarrow>
              if is_dir d p then Inr (dir_children d p) else Inl (io_other ''not a directory'')))"

definition dir_entries :: "os_faults \<Rightarrow> path \<Rightarrow> disk \<Rightarrow> io_error + path list" where
  "dir_entries os p d =
     (if \<not> is_dir d p
      then Inl (io_err NotFound (''directory not found or not a directory: '' @ show_path p))
      else (case os_readdir os d p of Some e \<Rightarrow> Inl e | None \<Rightarrow> Inr (dir_children d p)))"

section \<open>Paths as strings\<close>

text \<open>\<open>Path::components\<close> on Unix: repeated and trailing separators are skipped, as is a dot that is not at the
  beginning.\<close>

datatype path_component = RootDir | CurDir | ParentDir | Normal string

definition path_components :: "string \<Rightarrow> path_component list" where
  "path_components s =
     (let parts = split_on (CHR ''/'') s
      in (if starts_with_char (\<lambda>c. c = CHR ''/'') s then [RootDir] else if hd parts = ''.'' then [CurDir] else [])
         @ map (\<lambda>c. if c = ''..'' then ParentDir else Normal c) (filter (\<lambda>c. c \<noteq> [] \<and> c \<noteq> ''.'') parts))"

definition is_absolute :: "string \<Rightarrow> bool" where
  "is_absolute s \<longleftrightarrow> starts_with_char (\<lambda>c. c = CHR ''/'') s"

text \<open>The path a string names, and joining a string to a path: an absolute one replaces it.\<close>

fun component_names :: "path_component \<Rightarrow> string list" where
  "component_names (Normal c) = [c]"
| "component_names ParentDir = [''..'']"
| "component_names _ = []"

definition path_of :: "string \<Rightarrow> path" where
  "path_of s = concat (map component_names (path_components s))"

definition path_join :: "path \<Rightarrow> string \<Rightarrow> path" where
  "path_join p s = (if is_absolute s then path_of s else p @ path_of s)"

definition path_string :: "path \<Rightarrow> string" where
  "path_string p = CHR ''/'' # join ''/'' p"

section \<open>What the operations do to the disk\<close>

lemma file_at_put [simp]: "file_at (put_file p c d) q = (if q = p then Some c else file_at d q)"
  by (simp add: file_at_def put_file_def)

lemma file_at_drop [simp]: "file_at (drop_file p d) q = (if q = p then None else file_at d q)"
  by (simp add: file_at_def drop_file_def)

lemma dirs_put [simp]: "dk_dirs (put_file p c d) = dk_dirs d" "dk_dirs (drop_file p d) = dk_dirs d"
  by (simp_all add: put_file_def drop_file_def)

lemma file_at_new_dirs [simp]: "file_at (d\<lparr>dk_dirs := ds\<rparr>) q = file_at d q"
  by (simp add: file_at_def)

lemma is_dir_put [simp]: "is_dir (put_file p c d) q = is_dir d q" "is_dir (drop_file p d) q = is_dir d q"
  by (simp_all add: is_dir_def)

lemma file_write_ok:
  "file_write os p content d = (Inr u, d') \<Longrightarrow> d' = put_file p content d"
  by (auto simp: file_write_def split: sum.splits option.splits if_splits prod.splits)

lemma file_write_err:
  "file_write os p content d = (Inl e, d') \<Longrightarrow> d' = d \<or> (\<exists>n. d' = put_file p (take n content) d)"
  by (auto simp: file_write_def split: sum.splits option.splits if_splits prod.splits)
    (metis take_all_iff order_refl)

lemma file_write_other:
  "file_write os p content d = (r, d') \<Longrightarrow> q \<noteq> p \<Longrightarrow> file_at d' q = file_at d q"
  using file_write_ok[of os p content d] file_write_err[of os p content d]
  by (cases r) fastforce+

lemma dir_create_files: "dir_create os p d = (r, d') \<Longrightarrow> file_at d' q = file_at d q"
  by (auto simp: dir_create_def Let_def split: sum.splits option.splits if_splits)

lemma file_write_creates:
  assumes "validate_path p = Inr ()" and "is_dir d (butlast p)" and "\<not> is_dir d p"
  shows "file_write no_faults p content d = (Inr (), put_file p content d)"
  using assms by (simp add: file_write_def no_faults_def)

lemma dir_create_is_dir:
  assumes "dir_create os p d = (Inr u, d')"
  shows "is_dir d' p"
proof (cases "p = []")
  case False
  then have "take (length p) p \<in> set (map (\<lambda>n. take n p) [1..<Suc (length p)])"
    by (auto simp: image_iff Suc_le_eq intro!: bexI[of _ "length p"])
  then show ?thesis using assms
    by (auto simp: dir_create_def Let_def is_dir_def split: sum.splits option.splits if_splits)
qed (simp add: is_dir_def)

lemma map_of_filter_key:
  "map_of (filter (\<lambda>(p, _). \<not> gone p) m) q = (if gone q then None else map_of m q)"
  by (induction m) auto

lemma remove_tree_file_at [simp]:
  "file_at (remove_tree gone d) q = (if gone q then None else file_at d q)"
  by (simp add: file_at_def remove_tree_def map_of_filter_key)

section \<open>Directories\<close>

text \<open>Every directory is in a directory, and what creating and deleting one does to the others.\<close>

lemma under_append [simp]: "under p (p @ q)"
  by (simp add: under_def)

lemma under_refl [simp]: "under p p"
  by (simp add: under_def)

lemma under_iff: "under p q \<longleftrightarrow> (\<exists>r. q = p @ r)"
  unfolding under_def by (metis append_eq_conv_conj append_take_drop_id)

lemma is_dir_remove_tree: "is_dir (remove_tree gone d) q \<longleftrightarrow> q = [] \<or> (\<not> gone q \<and> is_dir d q)"
  by (auto simp: is_dir_def remove_tree_def)

lemma dir_delete_keeps:
  assumes "dir_delete os p d = (r, d')" and "\<not> under p q"
  shows "is_dir d' q = is_dir d q" "file_at d' q = file_at d q"
  using assms
  by (auto simp: dir_delete_def is_dir_remove_tree is_dir_def[of _ "[]"] split: sum.splits option.splits prod.splits if_splits)

lemma dir_delete_only_removes:
  "dir_delete os p d = (r, d') \<Longrightarrow> is_dir d' q \<Longrightarrow> is_dir d q"
  by (auto simp: dir_delete_def is_dir_remove_tree is_dir_def[of _ "[]"] split: sum.splits option.splits prod.splits if_splits)

lemma dir_delete_gone:
  "dir_delete os p d = (Inr u, d') \<Longrightarrow> p \<noteq> [] \<Longrightarrow> \<not> is_dir d' p"
  by (auto simp: dir_delete_def is_dir_remove_tree path_exists_def split: sum.splits option.splits prod.splits if_splits)

definition dirs_closed :: "disk \<Rightarrow> bool" where
  "dirs_closed d \<longleftrightarrow> list_all (\<lambda>p. is_dir d (butlast p)) (dk_dirs d)"

lemma dirs_closed_parent: "dirs_closed d \<Longrightarrow> is_dir d (p @ [x]) \<Longrightarrow> is_dir d p"
  by (auto simp: dirs_closed_def list_all_iff is_dir_def[of d "p @ [x]"] dest!: bspec)

lemma dirs_closed_delete:
  assumes "dirs_closed d" and "dir_delete os p d = (Inr u, d')"
  shows "dirs_closed d'"
proof -
  have "d' = d \<or> d' = remove_tree (under p) d"
    using assms(2) by (auto simp: dir_delete_def split: sum.splits option.splits prod.splits if_splits)
  moreover have "dirs_closed (remove_tree (under p) d)"
  proof -
    have "is_dir (remove_tree (under p) d) (butlast q)" if "q \<in> set (dk_dirs d)" "\<not> under p q" for q
    proof -
      have "\<not> under p (butlast q)" if "q \<noteq> []"
        using \<open>\<not> under p q\<close> that by (metis append_butlast_last_id append_assoc under_iff)
      then show ?thesis using assms(1) that
        by (cases "q = []") (auto simp: dirs_closed_def list_all_iff is_dir_remove_tree)
    qed
    then show ?thesis by (auto simp: dirs_closed_def list_all_iff remove_tree_def[of "under p" d])
  qed
  ultimately show ?thesis using assms(1) by blast
qed

lemma dirs_closed_create:
  assumes "dirs_closed d" and "dir_create os p d = (r, d')"
  shows "dirs_closed d'"
proof -
  define ps where "ps = map (\<lambda>n. take n p) [1..<Suc (length p)]"
  define e where "e = d\<lparr>dk_dirs := dk_dirs d @ filter (\<lambda>q. \<not> is_dir d q) ps\<rparr>"
  have e: "is_dir e q \<longleftrightarrow> is_dir d q \<or> q \<in> set ps" for q by (auto simp: is_dir_def e_def)
  have ps: "q \<in> set ps \<longleftrightarrow> (\<exists>n. 1 \<le> n \<and> n \<le> length p \<and> q = take n p)" for q
    unfolding ps_def by (auto simp: less_Suc_eq_le simp del: upt_Suc)
  have "d' = d \<or> d' = e"
    using assms(2) by (auto simp: dir_create_def Let_def ps_def e_def split: sum.splits option.splits if_splits)
  moreover have "is_dir e (butlast q)" if "q \<in> set ps" for q
  proof -
    have "\<exists>n. 1 \<le> n \<and> n \<le> length p \<and> q = take n p" using that unfolding ps .
    then obtain n where n: "1 \<le> n" "n \<le> length p" "q = take n p" by (elim exE conjE)
    then have "butlast q = take (n - 1) p" by (simp add: butlast_take)
    moreover have "take (n - 1) p = [] \<or> take (n - 1) p \<in> set ps"
    proof (cases "n = 1")
      case False
      then have "1 \<le> n - 1 \<and> n - 1 \<le> length p" using n(1,2) by linarith
      then show ?thesis unfolding ps by blast
    qed simp
    moreover have "is_dir e []" by (simp add: is_dir_def)
    ultimately show ?thesis using e[of "butlast q"] by metis
  qed
  moreover have "is_dir e (butlast q)" if "q \<in> set (dk_dirs d)" for q
    using assms(1) that unfolding dirs_closed_def list_all_iff e by blast
  moreover have "set (dk_dirs e) \<subseteq> set (dk_dirs d) \<union> set ps" unfolding e_def by auto
  ultimately have "d' = d \<or> d' = e" and "dirs_closed e" unfolding dirs_closed_def list_all_iff by blast+
  then show ?thesis using assms(1) by blast
qed

lemma dir_entries_dirs:
  "dir_entries os p d = Inr qs \<Longrightarrow> is_dir d (p @ [c]) \<Longrightarrow> p @ [c] \<in> set qs"
  by (auto simp: dir_entries_def dir_children_def child_of_def is_dir_def[of d "p @ [c]"] split: if_splits option.splits)

section \<open>Names\<close>

text \<open>A name that is one component of a path.\<close>

definition segment_name :: "string \<Rightarrow> bool" where
  "segment_name c \<longleftrightarrow> c \<noteq> [] \<and> c \<noteq> ''.'' \<and> c \<noteq> ''..'' \<and> CHR ''/'' \<notin> set c"

lemma path_components_segment: "segment_name c \<Longrightarrow> path_components c = [Normal c]"
  by (cases c) (auto simp: path_components_def segment_name_def split_on_no_sep starts_with_char_def)

lemma path_join_segment: "segment_name c \<Longrightarrow> path_join p c = p @ [c]"
  by (cases c) (auto simp: path_join_def path_of_def path_components_segment is_absolute_def starts_with_char_def segment_name_def)

lemma split_on_join:
  "list_all (\<lambda>c. d \<notin> set c) p \<Longrightarrow> split_on d (join [d] p) = (if p = [] then [[]] else p)"
  by (induction "[d]" p rule: join.induct) (simp_all add: split_on_no_sep split_on_append)

lemma path_components_string:
  assumes "list_all segment_name p"
  shows "path_components (path_string p) = RootDir # map Normal p"
proof -
  have "split_on (CHR ''/'') (join ''/'' p) = (if p = [] then [[]] else p)"
    using assms by (intro split_on_join) (auto simp: list_all_iff segment_name_def)
  moreover have "filter (\<lambda>c. c \<noteq> [] \<and> c \<noteq> ''.'') p = p"
    using assms by (intro filter_True) (auto simp: list_all_iff segment_name_def)
  moreover have "map (\<lambda>c. if c = ''..'' then ParentDir else Normal c) p = map Normal p"
    using assms by (auto simp: list_all_iff segment_name_def)
  ultimately show ?thesis by (simp add: path_components_def path_string_def starts_with_char_def)
qed

lemma path_of_string: "list_all segment_name p \<Longrightarrow> path_of (path_string p) = p"
  by (simp add: path_of_def path_components_string) (induction p; simp)

lemma is_absolute_string [simp]: "is_absolute (path_string p)"
  by (simp add: is_absolute_def path_string_def starts_with_char_def)

end
