(* ===== verification/Data_Store.thy ===== *)
theory Data_Store
  imports File_System
begin

text \<open>
  Persistent storage of what the agents need across restarts.

  \<^item> the trait \<open>DataStore\<close> (\<open>data_store.rs\<close>) as the record \<open>data_store_ops\<close> of its methods and the
    locale \<open>data_store\<close> of what its users rely on;
  \<^item> \<open>FileStore\<close> (\<open>on_host/file_store.rs\<close>), which interprets the locale;
  \<^item> the storage of instance ids (\<open>opamp/instance_id/storer.rs\<close>, \<open>opamp/instance_id/getter.rs\<close>).

  Laws are stated through a view of the store: what is held under an agent and a key is absent,
  stored, or unreadable (a partial write, a file edited by hand). A failing operation says nothing
  about its own key and leaves the others alone.
\<close>

section \<open>The trait\<close>

datatype 'v resource_ownership = OwnedByAgentControl | OwnedBySubAgent "'v agent_type_id"

type_synonym store_key = string

record ('d, 'e, 'a, 'b, 'v) data_store_ops =
  ds_get_remote_data :: "agent_id \<Rightarrow> store_key \<Rightarrow> 'd \<Rightarrow> 'e + 'a option"
  ds_get_local_data :: "agent_id \<Rightarrow> store_key \<Rightarrow> 'd \<Rightarrow> 'e + 'b option"
  ds_set_remote_data ::
    "agent_id \<Rightarrow> 'v resource_ownership \<Rightarrow> store_key \<Rightarrow> 'a \<Rightarrow> 'd \<Rightarrow> ('e + unit) \<times> 'd"
  ds_delete_remote_data :: "agent_id \<Rightarrow> store_key \<Rightarrow> 'd \<Rightarrow> ('e + unit) \<times> 'd"
  ds_show_error :: "'e \<Rightarrow> string"

datatype 'a stored = Absent | Stored 'a | Unreadable

fun stored_of :: "'a option \<Rightarrow> 'a stored" where
  "stored_of None = Absent"
| "stored_of (Some v) = Stored v"

lemma stored_of_eq [simp]:
  "stored_of x = Absent \<longleftrightarrow> x = None" "Absent = stored_of x \<longleftrightarrow> x = None"
  "stored_of x = Stored v \<longleftrightarrow> x = Some v" "Stored v = stored_of x \<longleftrightarrow> x = Some v"
  by (cases x; auto)+

locale data_store =
  fixes ds :: "('d, 'e, 'a, 'b, 'v) data_store_ops"
    and view :: "'d \<Rightarrow> agent_id \<Rightarrow> store_key \<Rightarrow> 'a stored"
    and local_view :: "'d \<Rightarrow> agent_id \<Rightarrow> store_key \<Rightarrow> 'b stored"
    and storable :: "'a \<Rightarrow> bool"
  assumes get_remote_view:
      "ds_get_remote_data ds i k d = Inr r \<Longrightarrow> view d i k = stored_of r"
    and get_local_view:
      "ds_get_local_data ds i k d = Inr l \<Longrightarrow> local_view d i k = stored_of l"
    and set_stores:
      "ds_set_remote_data ds i ow k v d = (Inr u, d') \<Longrightarrow> storable v \<Longrightarrow> view d' i k = Stored v"
    and set_keeps_others:
      "ds_set_remote_data ds i ow k v d = (w, d') \<Longrightarrow> agent_id_wf i \<Longrightarrow> agent_id_wf j \<Longrightarrow>
       (j, k') \<noteq> (i, k) \<Longrightarrow> view d' j k' = view d j k'"
    and set_keeps_local:
      "ds_set_remote_data ds i ow k v d = (w, d') \<Longrightarrow> local_view d' j k' = local_view d j k'"
    and delete_removes:
      "ds_delete_remote_data ds i k d = (Inr u, d') \<Longrightarrow> view d' i k = Absent"
    and delete_fails_unchanged:
      "ds_delete_remote_data ds i k d = (Inl e, d') \<Longrightarrow> view d' j k' = view d j k'"
    and delete_keeps_others:
      "ds_delete_remote_data ds i k d = (w, d') \<Longrightarrow> agent_id_wf i \<Longrightarrow> agent_id_wf j \<Longrightarrow>
       (j, k') \<noteq> (i, k) \<Longrightarrow> view d' j k' = view d j k'"
    and delete_keeps_local:
      "ds_delete_remote_data ds i k d = (w, d') \<Longrightarrow> local_view d' j k' = local_view d j k'"
begin

lemma get_after_set:
  "ds_set_remote_data ds i ow k v d = (Inr u, d') \<Longrightarrow> storable v \<Longrightarrow>
   ds_get_remote_data ds i k d' = Inr r \<Longrightarrow> r = Some v"
  using set_stores get_remote_view by (cases r) fastforce+

lemma get_after_delete:
  "ds_delete_remote_data ds i k d = (Inr u, d') \<Longrightarrow> ds_get_remote_data ds i k d' = Inr r \<Longrightarrow> r = None"
  using delete_removes get_remote_view by (cases r) fastforce+

end

section \<open>FileStore\<close>

definition FOLDER_NAME_LOCAL_DATA :: string where
  "FOLDER_NAME_LOCAL_DATA = ''local-data''"

definition FOLDER_NAME_FLEET_DATA :: string where
  "FOLDER_NAME_FLEET_DATA = ''fleet-data''"

record file_store =
  fst_local_dir :: path
  fst_remote_dir :: path

definition build_config_name :: "string \<Rightarrow> string" where
  "build_config_name name = name @ ''.yaml''"

definition local_file_path :: "file_store \<Rightarrow> agent_id \<Rightarrow> store_key \<Rightarrow> path" where
  "local_file_path st i k =
     fst_local_dir st @ [FOLDER_NAME_LOCAL_DATA, agent_id_as_str i, build_config_name k]"

definition remote_file_path :: "file_store \<Rightarrow> agent_id \<Rightarrow> store_key \<Rightarrow> path" where
  "remote_file_path st i k =
     fst_remote_dir st @ [FOLDER_NAME_FLEET_DATA, agent_id_as_str i, build_config_name k]"

text \<open>The YAML library for one type of data: a reader and a writer.\<close>

record 'a yaml_codec =
  yc_from_str :: "string \<Rightarrow> string + 'a"
  yc_to_string :: "'a \<Rightarrow> string + string"

definition load_file_if_present :: "os_faults \<Rightarrow> path \<Rightarrow> disk \<Rightarrow> io_error + string option" where
  "load_file_if_present os p d =
     (case file_read os p d of
        Inr res \<Rightarrow> Inr (Some res)
      | Inl e \<Rightarrow> if ie_kind e = NotFound then Inr None else Inl e)"

definition ensure_directory_existence :: "os_faults \<Rightarrow> path \<Rightarrow> disk \<Rightarrow> (io_error + unit) \<times> disk" where
  "ensure_directory_existence os p d =
     (case parent p of
        None \<Rightarrow> (Inl (io_other (''cannot determine parent directory of path '' @ show_path p)), d)
      | Some dir \<Rightarrow>
          if \<not> path_exists d dir
          then map_prod (map_err (\<lambda>e. io_other (ie_msg e))) id (dir_create os dir d)
          else (Inr (), d))"

definition file_store_get :: "os_faults \<Rightarrow> 'a yaml_codec \<Rightarrow> path \<Rightarrow> disk \<Rightarrow> io_error + 'a option" where
  "file_store_get os codec p d =
     rbind (load_file_if_present os p d) (\<lambda>maybe.
       case maybe of
         None \<Rightarrow> Inr None
       | Some s \<Rightarrow> map_ok Some (map_err (io_err InvalidData) (yc_from_str codec s)))"

definition file_store_get_remote_data ::
  "os_faults \<Rightarrow> 'a yaml_codec \<Rightarrow> file_store \<Rightarrow> agent_id \<Rightarrow> store_key \<Rightarrow> disk
   \<Rightarrow> io_error + 'a option" where
  "file_store_get_remote_data os codec st i k d = file_store_get os codec (remote_file_path st i k) d"

definition file_store_get_local_data ::
  "os_faults \<Rightarrow> 'b yaml_codec \<Rightarrow> file_store \<Rightarrow> agent_id \<Rightarrow> store_key \<Rightarrow> disk
   \<Rightarrow> io_error + 'b option" where
  "file_store_get_local_data os codec st i k d = file_store_get os codec (local_file_path st i k) d"

definition file_store_set_remote_data ::
  "os_faults \<Rightarrow> 'a yaml_codec \<Rightarrow> file_store \<Rightarrow> agent_id \<Rightarrow> 'v resource_ownership \<Rightarrow> store_key \<Rightarrow> 'a
   \<Rightarrow> disk \<Rightarrow> (io_error + unit) \<times> disk" where
  "file_store_set_remote_data os codec st i _ k data d =
     (let p = remote_file_path st i k in
      case ensure_directory_existence os p d of
        (Inl e, d1) \<Rightarrow>
          (Inl (io_other (''error ensuring directory existence for path '' @ sq (show_path p)
             @ '': '' @ ie_msg e)), d1)
      | (Inr _, d1) \<Rightarrow>
          (case yc_to_string codec data of
             Inl e \<Rightarrow> (Inl (io_err InvalidData e), d1)
           | Inr content \<Rightarrow>
               map_prod (map_err (\<lambda>e. io_other (''error writing file '' @ show_path p @ '': ''
                   @ ie_msg e))) id
                 (file_write os p content d1)))"

definition file_store_delete_remote_data ::
  "os_faults \<Rightarrow> file_store \<Rightarrow> agent_id \<Rightarrow> store_key \<Rightarrow> disk \<Rightarrow> (io_error + unit) \<times> disk" where
  "file_store_delete_remote_data os st i k d =
     (let p = remote_file_path st i k
      in if path_exists d p then remove_file os p d else (Inr (), d))"

definition file_store_ops ::
  "os_faults \<Rightarrow> 'a yaml_codec \<Rightarrow> 'b yaml_codec \<Rightarrow> file_store
   \<Rightarrow> (disk, io_error, 'a, 'b, 'v) data_store_ops" where
  "file_store_ops os rc lc st =
     \<lparr>ds_get_remote_data = file_store_get_remote_data os rc st,
      ds_get_local_data = file_store_get_local_data os lc st,
      ds_set_remote_data = file_store_set_remote_data os rc st,
      ds_delete_remote_data = file_store_delete_remote_data os st,
      ds_show_error = ie_msg\<rparr>"

subsection \<open>FileStore is a data store\<close>

definition file_view :: "'a yaml_codec \<Rightarrow> disk \<Rightarrow> path \<Rightarrow> 'a stored" where
  "file_view codec d p =
     (case file_at d p of
        None \<Rightarrow> Absent
      | Some s \<Rightarrow>
          if utf8_valid (map of_char s)
          then (case yc_from_str codec s of Inl _ \<Rightarrow> Unreadable | Inr v \<Rightarrow> Stored v)
          else Unreadable)"

definition remote_view :: "'a yaml_codec \<Rightarrow> file_store \<Rightarrow> disk \<Rightarrow> agent_id \<Rightarrow> store_key \<Rightarrow> 'a stored" where
  "remote_view codec st d i k = file_view codec d (remote_file_path st i k)"

definition local_file_view ::
  "'b yaml_codec \<Rightarrow> file_store \<Rightarrow> disk \<Rightarrow> agent_id \<Rightarrow> store_key \<Rightarrow> 'b stored" where
  "local_file_view codec st d i k = file_view codec d (local_file_path st i k)"

text \<open>Data the YAML library reads back as it wrote it.\<close>

definition yaml_storable :: "'a yaml_codec \<Rightarrow> 'a \<Rightarrow> bool" where
  "yaml_storable codec v \<longleftrightarrow>
     (\<forall>s. yc_to_string codec v = Inr s \<longrightarrow>
        utf8_valid (map of_char s) \<and> yc_from_str codec s = Inr v)"

lemma file_store_get_view:
  assumes "file_store_get os codec p d = Inr r"
  shows "file_view codec d p = stored_of r"
  using assms
  by (auto simp: file_store_get_def load_file_if_present_def file_read_def file_view_def
      rbind_def map_ok_def map_err_def split: option.splits sum.splits if_splits)

lemma file_view_cong: "file_at d' p = file_at d p \<Longrightarrow> file_view codec d' p = file_view codec d p"
  by (simp add: file_view_def)

lemma remote_file_path_inj:
  "agent_id_wf i \<Longrightarrow> agent_id_wf j \<Longrightarrow>
   remote_file_path st i k = remote_file_path st j k' \<longleftrightarrow> i = j \<and> k = k'"
  using agent_id_as_str_inj_iff[of i j] by (auto simp: remote_file_path_def build_config_name_def)

lemma local_remote_paths_differ: "local_file_path st i k \<noteq> remote_file_path st j k'"
proof
  assume "local_file_path st i k = remote_file_path st j k'"
  then have "drop (length (fst_local_dir st)) (local_file_path st i k) = drop (length (fst_local_dir st)) (remote_file_path st j k')"
    and len: "length (local_file_path st i k) = length (remote_file_path st j k')" by simp_all
  moreover have "length (fst_local_dir st) = length (fst_remote_dir st)"
    using len by (simp add: local_file_path_def remote_file_path_def)
  ultimately show False
    by (simp add: local_file_path_def remote_file_path_def FOLDER_NAME_LOCAL_DATA_def
      FOLDER_NAME_FLEET_DATA_def)
qed

lemma ensure_directory_files:
  "ensure_directory_existence os p d = (r, d') \<Longrightarrow> file_at d' q = file_at d q"
  by (auto simp: ensure_directory_existence_def map_prod_def split: option.splits if_splits prod.splits
    dest: dir_create_files)

lemma file_store_set_other:
  assumes "file_store_set_remote_data os codec st i ow k v d = (r, d')"
    and "q \<noteq> remote_file_path st i k"
  shows "file_at d' q = file_at d q"
proof -
  obtain r1 d1 where e: "ensure_directory_existence os (remote_file_path st i k) d = (r1, d1)"
    by fastforce
  then have d1: "file_at d1 q = file_at d q" by (rule ensure_directory_files)
  have "file_at d' q = file_at d1 q"
    using assms e
    by (auto simp: file_store_set_remote_data_def Let_def map_prod_def
      dest!: file_write_other[where q = q] split: sum.splits prod.splits)
  with d1 show ?thesis by simp
qed

lemma file_store_set_ok:
  assumes "file_store_set_remote_data os codec st i ow k v d = (Inr u, d')"
  shows "\<exists>s. yc_to_string codec v = Inr s \<and> file_at d' (remote_file_path st i k) = Some s"
proof -
  from assms obtain d1 s where "yc_to_string codec v = Inr s"
    and "file_write os (remote_file_path st i k) s d1 = (Inr (), d')"
    by (auto simp: file_store_set_remote_data_def Let_def map_prod_def
      split: sum.splits prod.splits)
  with file_write_ok[OF this(2)] show ?thesis by simp
qed

lemma file_store_delete_ok:
  "file_store_delete_remote_data os st i k d = (Inr u, d') \<Longrightarrow>
   file_at d' (remote_file_path st i k) = None"
  by (auto simp: file_store_delete_remote_data_def Let_def remove_file_def path_exists_def is_file_def
    split: if_splits option.splits)

lemma file_store_delete_err:
  "file_store_delete_remote_data os st i k d = (Inl e, d') \<Longrightarrow> d' = d"
  by (auto simp: file_store_delete_remote_data_def Let_def remove_file_def
    split: if_splits option.splits)

lemma file_store_delete_other:
  "file_store_delete_remote_data os st i k d = (r, d') \<Longrightarrow> q \<noteq> remote_file_path st i k \<Longrightarrow>
   file_at d' q = file_at d q"
  by (auto simp: file_store_delete_remote_data_def Let_def remove_file_def
    split: if_splits option.splits)

interpretation file_store: data_store "file_store_ops os rc lc st" "remote_view rc st"
  "local_file_view lc st" "yaml_storable rc" for os rc lc st
proof (unfold_locales, unfold file_store_ops_def data_store_ops.simps)
  fix i k d r
  show "file_store_get_remote_data os rc st i k d = Inr r \<Longrightarrow> remote_view rc st d i k = stored_of r"
    unfolding file_store_get_remote_data_def remote_view_def by (rule file_store_get_view)
next
  fix i k d l
  show "file_store_get_local_data os lc st i k d = Inr l \<Longrightarrow> local_file_view lc st d i k = stored_of l"
    unfolding file_store_get_local_data_def local_file_view_def by (rule file_store_get_view)
next
  fix i ow k v d u d'
  show "file_store_set_remote_data os rc st i ow k v d = (Inr u, d') \<Longrightarrow> yaml_storable rc v \<Longrightarrow>
      remote_view rc st d' i k = Stored v"
    by (auto simp: remote_view_def file_view_def yaml_storable_def dest!: file_store_set_ok)
next
  fix i ow k v d w d' j k'
  show "file_store_set_remote_data os rc st i ow k v d = (w, d') \<Longrightarrow> agent_id_wf i \<Longrightarrow>
      agent_id_wf j \<Longrightarrow> (j, k') \<noteq> (i, k) \<Longrightarrow> remote_view rc st d' j k' = remote_view rc st d j k'"
    unfolding remote_view_def
    by (rule file_view_cong, rule file_store_set_other) (auto simp: remote_file_path_inj)
next
  fix i ow k v d w d' j k'
  show "file_store_set_remote_data os rc st i ow k v d = (w, d') \<Longrightarrow>
      local_file_view lc st d' j k' = local_file_view lc st d j k'"
    unfolding local_file_view_def
    by (rule file_view_cong, rule file_store_set_other) (assumption, rule local_remote_paths_differ)
next
  fix i k d u d'
  show "file_store_delete_remote_data os st i k d = (Inr u, d') \<Longrightarrow> remote_view rc st d' i k = Absent"
    by (auto simp: remote_view_def file_view_def dest!: file_store_delete_ok)
next
  fix i k d e d' j k'
  show "file_store_delete_remote_data os st i k d = (Inl e, d') \<Longrightarrow>
      remote_view rc st d' j k' = remote_view rc st d j k'"
    by (auto dest!: file_store_delete_err)
next
  fix i k d w d' j k'
  show "file_store_delete_remote_data os st i k d = (w, d') \<Longrightarrow> agent_id_wf i \<Longrightarrow> agent_id_wf j \<Longrightarrow>
      (j, k') \<noteq> (i, k) \<Longrightarrow> remote_view rc st d' j k' = remote_view rc st d j k'"
    unfolding remote_view_def
    by (rule file_view_cong, rule file_store_delete_other) (auto simp: remote_file_path_inj)
next
  fix i k d w d' j k'
  show "file_store_delete_remote_data os st i k d = (w, d') \<Longrightarrow>
      local_file_view lc st d' j k' = local_file_view lc st d j k'"
    unfolding local_file_view_def
    by (rule file_view_cong, rule file_store_delete_other) (assumption, rule local_remote_paths_differ)
qed

end
