(* ===== verification/Config_Repo.thy ===== *)
theory Config_Repo
  imports Data_Store
begin

text \<open>
  The repository of configurations.

  \<^item> the trait \<open>ConfigRepository\<close> (\<open>values/config_repository.rs\<close>) as the record
    \<open>config_repository_ops\<close> and the locale \<open>config_repository\<close> of its contract;
  \<^item> \<open>ConfigRepo\<close> (\<open>values.rs\<close>) over any data store: a sublocale of \<open>data_store\<close>, and its
    interpretation on \<open>FileStore\<close>;
  \<^item> the effective configuration reported to the server (\<open>opamp/effective_config\<close>).
\<close>

section \<open>The trait\<close>

datatype config_repository_error =
    LoadError string
  | StoreError string
  | DeleteError string
  | UpdateHashStateError string

fun config_repository_error_fmt :: "config_repository_error \<Rightarrow> string" where
  "config_repository_error_fmt (LoadError m) = ''error loading values: '' @ m"
| "config_repository_error_fmt (StoreError m) = ''error storing values: '' @ m"
| "config_repository_error_fmt (DeleteError m) = ''error deleting values: '' @ m"
| "config_repository_error_fmt (UpdateHashStateError m) =
     ''error updating hash, no remote config to update: '' @ m"

record ('r, 'j, 'c, 'v) config_repository_ops =
  cr_load_local :: "agent_id \<Rightarrow> 'r \<Rightarrow> config_repository_error + 'j config option"
  cr_load_remote :: "agent_id \<Rightarrow> 'c \<Rightarrow> 'r \<Rightarrow> config_repository_error + 'j config option"
  cr_store_remote ::
    "agent_id \<Rightarrow> 'v resource_ownership \<Rightarrow> 'j remote_config \<Rightarrow> 'r
     \<Rightarrow> (config_repository_error + unit) \<times> 'r"
  cr_get_remote_config :: "agent_id \<Rightarrow> 'r \<Rightarrow> config_repository_error + 'j remote_config option"
  cr_update_state ::
    "agent_id \<Rightarrow> 'v resource_ownership \<Rightarrow> config_state \<Rightarrow> 'r
     \<Rightarrow> (config_repository_error + unit) \<times> 'r"
  cr_delete_remote :: "agent_id \<Rightarrow> 'r \<Rightarrow> (config_repository_error + unit) \<times> 'r"

definition load_remote_fallback_local ::
  "('r, 'j, 'c, 'v) config_repository_ops \<Rightarrow> agent_id \<Rightarrow> 'c \<Rightarrow> 'r
   \<Rightarrow> config_repository_error + 'j config option" where
  "load_remote_fallback_local repo i caps r =
     rbind (cr_load_remote repo i caps r) (\<lambda>remote.
       case remote of
         Some c \<Rightarrow> Inr (Some c)
       | None \<Rightarrow> cr_load_local repo i r)"

locale config_repository =
  fixes repo :: "('r, 'j, 'c, 'v) config_repository_ops"
    and rview :: "'r \<Rightarrow> agent_id \<Rightarrow> 'j remote_config stored"
    and lview :: "'r \<Rightarrow> agent_id \<Rightarrow> 'j yaml_config stored"
    and storable :: "'j remote_config \<Rightarrow> bool"
    and remote_on :: "'c \<Rightarrow> bool"
  assumes load_local_view:
      "cr_load_local repo i r = Inr x \<Longrightarrow>
       \<exists>y. x = map_option LocalConfig y \<and> lview r i = stored_of y"
    and load_remote_off: "\<not> remote_on caps \<Longrightarrow> cr_load_remote repo i caps r = Inr None"
    and load_remote_view:
      "remote_on caps \<Longrightarrow> cr_load_remote repo i caps r = Inr x \<Longrightarrow>
       \<exists>y. x = map_option RemoteConfig y \<and> rview r i = stored_of y"
    and get_remote_config_view:
      "cr_get_remote_config repo i r = Inr y \<Longrightarrow> rview r i = stored_of y"
    and store_remote_stores:
      "cr_store_remote repo i ow rc r = (Inr u, r') \<Longrightarrow> storable rc \<Longrightarrow> rview r' i = Stored rc"
    and update_state_updates:
      "cr_update_state repo i ow st r = (Inr u, r') \<Longrightarrow>
       \<exists>rc. rview r i = Stored rc \<and>
         (storable (with_state rc st) \<longrightarrow> rview r' i = Stored (with_state rc st))"
    and delete_remote_deletes:
      "cr_delete_remote repo i r = (Inr u, r') \<Longrightarrow> rview r' i = Absent"
    and delete_remote_fails: "cr_delete_remote repo i r = (Inl e, r') \<Longrightarrow> rview r' j = rview r j"
    and writes_keep_others:
      "cr_store_remote repo i ow rc r = (w, r') \<or> cr_update_state repo i ow st r = (w, r') \<or>
       cr_delete_remote repo i r = (w, r') \<Longrightarrow> agent_id_wf i \<Longrightarrow> agent_id_wf j \<Longrightarrow> j \<noteq> i \<Longrightarrow>
       rview r' j = rview r j"
    and writes_keep_local:
      "cr_store_remote repo i ow rc r = (w, r') \<or> cr_update_state repo i ow st r = (w, r') \<or>
       cr_delete_remote repo i r = (w, r') \<Longrightarrow> lview r' j = lview r j"
begin

text \<open>The remote configuration takes precedence over the local one.\<close>

lemma fallback_stored:
  assumes "remote_on caps" and "rview r i = Stored rc"
    and "load_remote_fallback_local repo i caps r = Inr x"
  shows "x = Some (RemoteConfig rc)"
proof -
  from assms(3) obtain y where y: "cr_load_remote repo i caps r = Inr y"
    by (auto simp: load_remote_fallback_local_def rbind_eq_Inr)
  with load_remote_view[OF assms(1) y] assms(2) have "y = Some (RemoteConfig rc)"
    by auto
  with y assms(3) show ?thesis by (simp add: load_remote_fallback_local_def rbind_def)
qed

lemma fallback_absent:
  assumes "rview r i = Absent" and "load_remote_fallback_local repo i caps r = Inr x"
  shows "cr_load_local repo i r = Inr x"
proof -
  from assms(2) obtain y where y: "cr_load_remote repo i caps r = Inr y"
    by (auto simp: load_remote_fallback_local_def rbind_eq_Inr)
  have "y = None"
  proof (cases "remote_on caps")
    case True
    from load_remote_view[OF this y] assms(1) show ?thesis
      by auto
  qed (use y load_remote_off in simp)
  with y assms(2) show ?thesis by (simp add: load_remote_fallback_local_def rbind_def)
qed

lemma fallback_after_store:
  "cr_store_remote repo i ow rc r = (Inr u, r') \<Longrightarrow> storable rc \<Longrightarrow> remote_on caps \<Longrightarrow>
   load_remote_fallback_local repo i caps r' = Inr x \<Longrightarrow> x = Some (RemoteConfig rc)"
  using store_remote_stores fallback_stored by blast

lemma fallback_after_delete:
  assumes "cr_delete_remote repo i r = (Inr u, r')"
    and "load_remote_fallback_local repo i caps r' = Inr x"
  shows "\<exists>y. x = map_option LocalConfig y \<and> lview r i = stored_of y"
proof -
  have "cr_load_local repo i r' = Inr x"
    using fallback_absent[OF delete_remote_deletes[OF assms(1)] assms(2)] .
  from load_local_view[OF this] writes_keep_local assms(1) show ?thesis by metis
qed

lemma update_state_needs_config:
  "rview r i = Absent \<Longrightarrow> cr_update_state repo i ow st r = (w, r') \<Longrightarrow> \<exists>e. w = Inl e"
  using update_state_updates by (cases w) fastforce+

text \<open>After the stored configuration has been deleted, updating its state is an error.\<close>

lemma update_state_after_delete:
  "cr_delete_remote repo i r = (Inr u, r') \<Longrightarrow> cr_update_state repo i ow st r' = (w, r'') \<Longrightarrow>
   \<exists>e. w = Inl e"
  using delete_remote_deletes update_state_needs_config by blast

end

section \<open>ConfigRepo\<close>

definition STORE_KEY_LOCAL_DATA_CONFIG :: store_key where
  "STORE_KEY_LOCAL_DATA_CONFIG = ''local_config''"

definition STORE_KEY_OPAMP_DATA_CONFIG :: store_key where
  "STORE_KEY_OPAMP_DATA_CONFIG = ''remote_config''"

type_synonym ('d, 'e, 'j, 'v) config_data_store =
  "('d, 'e, 'j remote_config, 'j yaml_config, 'v) data_store_ops"

definition config_repo_load_local ::
  "('d, 'e, 'j, 'v) config_data_store \<Rightarrow> agent_id \<Rightarrow> 'd
   \<Rightarrow> config_repository_error + 'j config option" where
  "config_repo_load_local ds i d =
     map_ok (map_option LocalConfig)
       (map_err (\<lambda>e. LoadError (''loading local config: '' @ ds_show_error ds e))
          (ds_get_local_data ds i STORE_KEY_LOCAL_DATA_CONFIG d))"

definition config_repo_load_remote ::
  "('d, 'e, 'j, 'v) config_data_store \<Rightarrow> ('c \<Rightarrow> agent_capability \<Rightarrow> bool) \<Rightarrow> bool \<Rightarrow> agent_id \<Rightarrow> 'c \<Rightarrow> 'd
   \<Rightarrow> config_repository_error + 'j config option" where
  "config_repo_load_remote ds has_capability remote_enabled i caps d =
     (if \<not> remote_enabled \<or> \<not> has_remote_management has_capability caps then Inr None
      else
        map_ok (map_option RemoteConfig)
          (map_err (\<lambda>e. LoadError (''loading remote config: '' @ ds_show_error ds e))
             (ds_get_remote_data ds i STORE_KEY_OPAMP_DATA_CONFIG d)))"

definition config_repo_store_remote ::
  "('d, 'e, 'j, 'v) config_data_store \<Rightarrow> agent_id \<Rightarrow> 'v resource_ownership \<Rightarrow> 'j remote_config \<Rightarrow> 'd
   \<Rightarrow> (config_repository_error + unit) \<times> 'd" where
  "config_repo_store_remote ds i ow rc d =
     map_prod (map_err (\<lambda>e. StoreError (''storing remote config: '' @ ds_show_error ds e))) id
       (ds_set_remote_data ds i ow STORE_KEY_OPAMP_DATA_CONFIG rc d)"

definition config_repo_get_remote_config ::
  "('d, 'e, 'j, 'v) config_data_store \<Rightarrow> agent_id \<Rightarrow> 'd
   \<Rightarrow> config_repository_error + 'j remote_config option" where
  "config_repo_get_remote_config ds i d =
     map_err (\<lambda>e. LoadError (''getting remote config hash: '' @ ds_show_error ds e))
       (ds_get_remote_data ds i STORE_KEY_OPAMP_DATA_CONFIG d)"

definition config_repo_update_state ::
  "('d, 'e, 'j, 'v) config_data_store \<Rightarrow> agent_id \<Rightarrow> 'v resource_ownership \<Rightarrow> config_state \<Rightarrow> 'd
   \<Rightarrow> (config_repository_error + unit) \<times> 'd" where
  "config_repo_update_state ds i ow st d =
     (case ds_get_remote_data ds i STORE_KEY_OPAMP_DATA_CONFIG d of
        Inl e \<Rightarrow> (Inl (LoadError (''updating remote config state: '' @ ds_show_error ds e)), d)
      | Inr (Some rc) \<Rightarrow>
          map_prod
            (map_err (\<lambda>e. StoreError (''updating remote config state: '' @ ds_show_error ds e))) id
            (ds_set_remote_data ds i ow STORE_KEY_OPAMP_DATA_CONFIG (with_state rc st) d)
      | Inr None \<Rightarrow> (Inl (UpdateHashStateError ''No remote config found''), d))"

definition config_repo_delete_remote ::
  "('d, 'e, 'j, 'v) config_data_store \<Rightarrow> agent_id \<Rightarrow> 'd
   \<Rightarrow> (config_repository_error + unit) \<times> 'd" where
  "config_repo_delete_remote ds i d =
     map_prod (map_err (\<lambda>e. DeleteError (''deleting remote config: '' @ ds_show_error ds e))) id
       (ds_delete_remote_data ds i STORE_KEY_OPAMP_DATA_CONFIG d)"

definition config_repo_ops ::
  "('d, 'e, 'j, 'v) config_data_store \<Rightarrow> ('c \<Rightarrow> agent_capability \<Rightarrow> bool) \<Rightarrow> bool
   \<Rightarrow> ('d, 'j, 'c, 'v) config_repository_ops" where
  "config_repo_ops ds has_capability remote_enabled =
     \<lparr>cr_load_local = config_repo_load_local ds,
      cr_load_remote = config_repo_load_remote ds has_capability remote_enabled,
      cr_store_remote = config_repo_store_remote ds,
      cr_get_remote_config = config_repo_get_remote_config ds,
      cr_update_state = config_repo_update_state ds,
      cr_delete_remote = config_repo_delete_remote ds\<rparr>"

definition remote_on :: "('c \<Rightarrow> agent_capability \<Rightarrow> bool) \<Rightarrow> bool \<Rightarrow> 'c \<Rightarrow> bool" where
  "remote_on has_capability remote_enabled caps \<longleftrightarrow>
     remote_enabled \<and> has_remote_management has_capability caps"

lemmas config_repo_defs = config_repo_ops_def config_repo_load_local_def config_repo_load_remote_def
  config_repo_store_remote_def config_repo_get_remote_config_def config_repo_update_state_def
  config_repo_delete_remote_def remote_on_def

text \<open>Over any data store, \<open>ConfigRepo\<close> is a configuration repository.\<close>

locale config_data_store =
  data_store ds view local_view storable
  for ds :: "('d, 'e, 'j remote_config, 'j yaml_config, 'v) data_store_ops"
    and view :: "'d \<Rightarrow> agent_id \<Rightarrow> store_key \<Rightarrow> 'j remote_config stored"
    and local_view :: "'d \<Rightarrow> agent_id \<Rightarrow> store_key \<Rightarrow> 'j yaml_config stored"
    and storable :: "'j remote_config \<Rightarrow> bool"
begin

abbreviation stored_config :: "'d \<Rightarrow> agent_id \<Rightarrow> 'j remote_config stored" where
  "stored_config d i \<equiv> view d i STORE_KEY_OPAMP_DATA_CONFIG"

lemma repo_update_state_set:
  assumes "config_repo_update_state ds i ow st d = (w, d')"
  shows "(\<exists>e. w = Inl e \<and> d' = d) \<or>
    (\<exists>rc h w'. stored_config d i = Stored rc \<and> w = map_err h w' \<and>
       ds_set_remote_data ds i ow STORE_KEY_OPAMP_DATA_CONFIG (with_state rc st) d = (w', d'))"
proof (cases "ds_get_remote_data ds i STORE_KEY_OPAMP_DATA_CONFIG d")
  case (Inl e)
  then show ?thesis using assms by (auto simp: config_repo_update_state_def)
next
  case (Inr y)
  show ?thesis
  proof (cases y)
    case None
    then show ?thesis using assms Inr by (auto simp: config_repo_update_state_def)
  next
    case (Some rc)
    with get_remote_view[OF Inr] have "stored_config d i = Stored rc" by simp
    moreover obtain w' d'' where
      "ds_set_remote_data ds i ow STORE_KEY_OPAMP_DATA_CONFIG (with_state rc st) d = (w', d'')"
      by fastforce
    ultimately show ?thesis using assms Inr Some
      by (auto simp: config_repo_update_state_def)
  qed
qed

lemma repo_writes:
  assumes "config_repo_store_remote ds i ow rc d = (w, d') \<or>
    config_repo_update_state ds i ow st d = (w, d') \<or> config_repo_delete_remote ds i d = (w, d')"
  shows "d' = d \<or> (\<exists>rc w'. ds_set_remote_data ds i ow STORE_KEY_OPAMP_DATA_CONFIG rc d = (w', d')) \<or>
    (\<exists>w'. ds_delete_remote_data ds i STORE_KEY_OPAMP_DATA_CONFIG d = (w', d'))"
  using assms repo_update_state_set[of i ow st d w d']
  by (auto simp: config_repo_store_remote_def config_repo_delete_remote_def map_prod_def
    split: prod.splits)

end

sublocale config_data_store \<subseteq> config_repo: config_repository
  "config_repo_ops ds has_capability remote_enabled"
  "\<lambda>d i. view d i STORE_KEY_OPAMP_DATA_CONFIG"
  "\<lambda>d i. local_view d i STORE_KEY_LOCAL_DATA_CONFIG"
  storable "remote_on has_capability remote_enabled"
  for has_capability remote_enabled
proof (unfold_locales, unfold config_repo_ops_def config_repository_ops.simps, goal_cases)
  case (1 i r x)
  then show ?case using get_local_view by (auto simp: config_repo_load_local_def map_ok_def map_err_def split: sum.splits)
next
  case (2 caps i r)
  then show ?case by (simp add: config_repo_load_remote_def remote_on_def)
next
  case (3 caps i r x)
  then show ?case using get_remote_view
    by (auto simp: config_repo_load_remote_def remote_on_def map_ok_def map_err_def split: sum.splits)
next
  case (4 i r y)
  then show ?case using get_remote_view
    by (auto simp: config_repo_get_remote_config_def map_err_def split: sum.splits)
next
  case (5 i ow rc r u r')
  then show ?case using set_stores
    by (auto simp: config_repo_store_remote_def map_prod_def split: prod.splits)
next
  case (6 i ow st r u r')
  from repo_update_state_set[OF 6] obtain rc where "view r i STORE_KEY_OPAMP_DATA_CONFIG = Stored rc"
    and "ds_set_remote_data ds i ow STORE_KEY_OPAMP_DATA_CONFIG (with_state rc st) r = (Inr u, r')"
    by auto
  then show ?case using set_stores by blast
next
  case (7 i r u r')
  then show ?case using delete_removes
    by (auto simp: config_repo_delete_remote_def map_prod_def split: prod.splits)
next
  case (8 i r e r' j)
  then obtain e' where "ds_delete_remote_data ds i STORE_KEY_OPAMP_DATA_CONFIG r = (Inl e', r')"
    by (auto simp: config_repo_delete_remote_def map_prod_def map_err_def split: prod.splits sum.splits)
  then show ?case by (rule delete_fails_unchanged)
next
  case (9 i ow rc r w r' st j)
  from repo_writes[OF 9(1)] show ?case using set_keeps_others delete_keeps_others 9(2-4) by blast
next
  case (10 i ow rc r w r' st j)
  from repo_writes[OF 10(1)] show ?case using set_keeps_local delete_keeps_local by blast
qed

interpretation file_config: config_data_store "file_store_ops os rcodec lcodec dirs"
  "remote_view rcodec dirs" "local_file_view lcodec dirs" "yaml_storable rcodec"
  for os :: os_faults and rcodec :: "'j remote_config yaml_codec"
    and lcodec :: "'j yaml_config yaml_codec" and dirs :: file_store
  by unfold_locales

section \<open>Effective configuration\<close>

text \<open>\<open>load\<close> of the sub-agent loader; the map with the empty key is what OpAMP expects of an agent
  with one configuration. \<open>default_caps\<close> is \<open>default_capabilities()\<close>.\<close>

definition sub_agent_effective_config_load ::
  "('r, 'j, 'c, 'v) config_repository_ops \<Rightarrow> ('j yaml_config \<Rightarrow> string + string) \<Rightarrow> 'c \<Rightarrow> agent_id \<Rightarrow> 'r
   \<Rightarrow> string + configuration_map" where
  "sub_agent_effective_config_load repo to_str default_caps i r =
     rbind (map_err (\<lambda>e. ''could not load '' @ agent_id_as_str i @ '' config values: ''
                        @ config_repository_error_fmt e)
              (load_remote_fallback_local repo i default_caps r)) (\<lambda>maybe_values.
     rbind (map_err (\<lambda>e. ''could not load '' @ agent_id_as_str i @ '' config values: '' @ e)
              (yaml_into_string to_str
                 (get_yaml_config (case maybe_values of None \<Rightarrow> config_default | Some c \<Rightarrow> c))))
       (\<lambda>values_string. Inr [([], values_string)]))"

text \<open>The loader of Agent Control keeps the fields of its dynamic configuration only: reading the
  stored document as an effective configuration and printing it are the YAML library.\<close>

record 'f effective_codec =
  ec_from_str :: "string \<Rightarrow> string + 'f"
  ec_to_string :: "'f \<Rightarrow> string + string"

definition agent_control_effective_config_try_from ::
  "('j yaml_config \<Rightarrow> string + string) \<Rightarrow> 'f effective_codec \<Rightarrow> 'j yaml_config \<Rightarrow> string + 'f" where
  "agent_control_effective_config_try_from to_str ec c =
     rbind (map_err (\<lambda>e. ''converting effective config from stored values: '' @ e)
              (yaml_into_string to_str c))
       (\<lambda>s. map_err (\<lambda>e. ''converting effective config: '' @ e) (ec_from_str ec s))"

definition agent_control_effective_config_load ::
  "('r, 'j, 'c, 'v) config_repository_ops \<Rightarrow> ('j yaml_config \<Rightarrow> string + string) \<Rightarrow> 'f effective_codec
   \<Rightarrow> 'c \<Rightarrow> 'r \<Rightarrow> string + configuration_map" where
  "agent_control_effective_config_load repo to_str ec default_caps r =
     rbind (map_err (\<lambda>e. ''could not load agent-control config values: ''
                        @ config_repository_error_fmt e)
              (load_remote_fallback_local repo AgentControl default_caps r)) (\<lambda>maybe_config.
     rbind (map_err (\<lambda>e. ''building agent-control effective config: '' @ e)
              (agent_control_effective_config_try_from to_str ec
                 (get_yaml_config (case maybe_config of None \<Rightarrow> config_default | Some c \<Rightarrow> c))))
       (\<lambda>dynamic_config.
     rbind (map_err (\<lambda>e. ''serializing agent-control effective config: '' @ e)
              (ec_to_string ec dynamic_config))
       (\<lambda>s. Inr [([], s)])))"

definition effective_config_load ::
  "('r, 'j, 'c, 'v) config_repository_ops \<Rightarrow> ('j yaml_config \<Rightarrow> string + string) \<Rightarrow> 'f effective_codec
   \<Rightarrow> 'c \<Rightarrow> agent_id \<Rightarrow> 'r \<Rightarrow> string + configuration_map" where
  "effective_config_load repo to_str ec default_caps i r =
     (if i = AgentControl then agent_control_effective_config_load repo to_str ec default_caps r
      else sub_agent_effective_config_load repo to_str default_caps i r)"

section \<open>The repository of the host\<close>

definition host_repo ::
  "os_faults \<Rightarrow> 'j remote_config yaml_codec \<Rightarrow> 'j yaml_config yaml_codec \<Rightarrow> file_store
   \<Rightarrow> ('c \<Rightarrow> agent_capability \<Rightarrow> bool) \<Rightarrow> (disk, 'j, 'c, 'v) config_repository_ops" where
  "host_repo os rcodec lcodec dirs has_capability =
     config_repo_ops (file_store_ops os rcodec lcodec dirs) has_capability True"

definition host_stored_config ::
  "'j remote_config yaml_codec \<Rightarrow> file_store \<Rightarrow> disk \<Rightarrow> agent_id \<Rightarrow> 'j remote_config stored" where
  "host_stored_config rcodec dirs d i = remote_view rcodec dirs d i STORE_KEY_OPAMP_DATA_CONFIG"

definition host_local_config ::
  "'j yaml_config yaml_codec \<Rightarrow> file_store \<Rightarrow> disk \<Rightarrow> agent_id \<Rightarrow> 'j yaml_config stored" where
  "host_local_config lcodec dirs d i = local_file_view lcodec dirs d i STORE_KEY_LOCAL_DATA_CONFIG"

definition host_remote_on :: "('c \<Rightarrow> agent_capability \<Rightarrow> bool) \<Rightarrow> 'c \<Rightarrow> bool" where
  "host_remote_on has_capability = remote_on has_capability True"

interpretation host: config_repository "host_repo os rcodec lcodec dirs has_capability"
  "host_stored_config rcodec dirs" "host_local_config lcodec dirs" "yaml_storable rcodec"
  "host_remote_on has_capability"
  for os :: os_faults and rcodec :: "'j remote_config yaml_codec"
    and lcodec :: "'j yaml_config yaml_codec" and dirs :: file_store
    and has_capability :: "'c \<Rightarrow> agent_capability \<Rightarrow> bool"
  unfolding host_repo_def host_remote_on_def host_stored_config_def[abs_def]
    host_local_config_def[abs_def]
  by (rule file_config.config_repo.config_repository_axioms)

text \<open>A concrete repository: configurations without values, printed as their hash.\<close>

definition hash_codec :: "unit remote_config yaml_codec" where
  "hash_codec =
     \<lparr>yc_from_str = \<lambda>s. Inr \<lparr>rc_config = [], rc_hash = s, rc_state = Applied\<rparr>,
      yc_to_string = \<lambda>rc. Inr (rc_hash rc)\<rparr>"

definition empty_codec :: "unit yaml_config yaml_codec" where
  "empty_codec = \<lparr>yc_from_str = \<lambda>_. Inr [], yc_to_string = \<lambda>_. Inr []\<rparr>"

definition sample_repo :: "(disk, unit, unit, unit) config_repository_ops" where
  "sample_repo =
     host_repo no_faults hash_codec empty_codec \<lparr>fst_local_dir = [''l''], fst_remote_dir = [''r'']\<rparr>
       (\<lambda>_ _. True)"

definition sample_config :: "unit remote_config" where
  "sample_config = \<lparr>rc_config = [], rc_hash = ''h'', rc_state = Applied\<rparr>"

lemma sample_config_storable: "yaml_storable hash_codec sample_config"
  by (simp add: yaml_storable_def hash_codec_def sample_config_def)

lemma fst_pairI: "fst p = x \<Longrightarrow> p = (x, snd p)"
  by (metis prod.collapse)

text \<open>C27. On the host, what is loaded is what was stored last: after a remote configuration has been
  stored for an agent, loading its configuration (when it does not fail) returns that remote
  configuration with its hash and state, whatever the local configuration is; and storing for one
  agent leaves the stored configuration of every other agent as it was.\<close>

theorem host_store_then_load:
  fixes repo :: "(disk, 'j, 'c, 'v) config_repository_ops"
  assumes "repo = host_repo os rcodec lcodec dirs has_capability"
    and "cr_store_remote repo i ow rc d = (Inr (), d')"
    and "yaml_storable rcodec rc" and "host_remote_on has_capability caps"
    and "load_remote_fallback_local repo i caps d' = Inr x"
    and "agent_id_wf i" and "agent_id_wf j" and "j \<noteq> i"
  shows "x = Some (RemoteConfig rc) \<and>
    host_stored_config rcodec dirs d' j = host_stored_config rcodec dirs d j"
proof
  note a = assms(2-)[unfolded assms(1)]
  show "x = Some (RemoteConfig rc)"
    by (rule host.fallback_after_store[OF a(1-4)])
  show "host_stored_config rcodec dirs d' j = host_stored_config rcodec dirs d j"
    using host.writes_keep_others[OF disjI1[OF a(1)] a(5-7)] .
qed

theorem host_store_then_load_witness:
  "let d = \<lparr>dk_files = [], dk_dirs = []\<rparr>;
       d' = snd (cr_store_remote sample_repo AgentControl OwnedByAgentControl sample_config d)
   in fst (cr_store_remote sample_repo AgentControl OwnedByAgentControl sample_config d) = Inr () \<and>
      load_remote_fallback_local sample_repo AgentControl () d' =
        Inr (Some (RemoteConfig sample_config))"
proof -
  let ?d = "\<lparr>dk_files = [], dk_dirs = []\<rparr> :: disk"
  let ?step = "cr_store_remote sample_repo AgentControl OwnedByAgentControl sample_config ?d"
  let ?load = "load_remote_fallback_local sample_repo AgentControl () (snd ?step)"
  have ok: "fst ?step = Inr ()" by code_simp
  have "is_ok ?load" by code_simp
  then obtain x where x: "?load = Inr x" unfolding is_ok_iff by blast
  have on: "host_remote_on (\<lambda>_ _. True) ()"
    by (simp add: host_remote_on_def remote_on_def has_remote_management_def)
  have wf: "agent_id_wf AgentControl" "agent_id_wf (SubAgent (SubAgentID ''a''))" by code_simp+
  have "x = Some (RemoteConfig sample_config)"
    using host_store_then_load[OF sample_repo_def fst_pairI[OF ok] sample_config_storable on x wf]
    by simp
  then show ?thesis unfolding Let_def using ok x by blast
qed

text \<open>Deleting the remote configuration of an agent on the host goes back to its local one: what
  is loaded afterwards is the local configuration as it was before (or nothing when there is none),
  and until a configuration is stored again, updating the state of the remote configuration is an
  error.\<close>

theorem host_delete_then_load:
  fixes repo :: "(disk, 'j, 'c, 'v) config_repository_ops"
  assumes "repo = host_repo os rcodec lcodec dirs has_capability"
    and "cr_delete_remote repo i d = (Inr (), d')"
    and "load_remote_fallback_local repo i caps d' = Inr x"
  shows "(\<exists>y. x = map_option LocalConfig y \<and> host_local_config lcodec dirs d i = stored_of y) \<and>
    \<not> is_ok (fst (cr_update_state repo i ow st d'))"
proof
  note a = assms(2-)[unfolded assms(1)]
  show "\<exists>y. x = map_option LocalConfig y \<and> host_local_config lcodec dirs d i = stored_of y"
    by (rule host.fallback_after_delete[OF a])
  obtain w d'' where w: "cr_update_state repo i ow st d' = (w, d'')" by fastforce
  with host.update_state_after_delete[OF a(1)] obtain e where "w = Inl e"
    unfolding assms(1) by blast
  with w show "\<not> is_ok (fst (cr_update_state repo i ow st d'))" by (simp add: is_ok_def)
qed

theorem host_delete_then_load_witness:
  "let d = snd (cr_store_remote sample_repo AgentControl OwnedByAgentControl sample_config
                 \<lparr>dk_files = [], dk_dirs = []\<rparr>);
       d' = snd (cr_delete_remote sample_repo AgentControl d)
   in fst (cr_delete_remote sample_repo AgentControl d) = Inr () \<and>
      is_ok (load_remote_fallback_local sample_repo AgentControl () d') \<and>
      \<not> is_ok (fst (cr_update_state sample_repo AgentControl OwnedByAgentControl Applied d'))"
proof -
  let ?d = "snd (cr_store_remote sample_repo AgentControl OwnedByAgentControl sample_config
                 \<lparr>dk_files = [], dk_dirs = []\<rparr>)"
  let ?step = "cr_delete_remote sample_repo AgentControl ?d"
  let ?load = "load_remote_fallback_local sample_repo AgentControl () (snd ?step)"
  have ok: "fst ?step = Inr ()" by code_simp
  have l: "is_ok ?load" by code_simp
  then obtain x where x: "?load = Inr x" unfolding is_ok_iff by blast
  from host_delete_then_load[OF sample_repo_def fst_pairI[OF ok] x] show ?thesis
    unfolding Let_def using ok l by blast
qed

end
