(* ===== verification/Ac_Config.thy ===== *)
theory Ac_Config
  imports Config_Repo
begin

text \<open>
  The configuration of Agent Control.

  \<^item> the dynamic configuration, i.e. the sub-agents to run and the versions to update to, and how it
    is merged from the entries of a remote configuration (\<open>agent_control/config.rs\<close>);
  \<^item> the store that loads the local configuration and lets a stored remote configuration replace its
    dynamic part (\<open>agent_control/config_repository/store.rs\<close>), with its trait as the record
    \<open>dynamic_config_repository\<close>.

  The conversions between the structures and YAML or JSON are the record \<open>dyn_codec\<close> of the
  serialization library; the static part of the configuration, and the library that merges the local
  file with environment variables, are parameters.
\<close>

section \<open>Dynamic configuration\<close>

record 'v sub_agent_config =
  sac_agent_type :: "'v agent_type_id"

type_synonym 'v sub_agents_map = "(agent_id \<times> 'v sub_agent_config) list"

record 'v ac_dynamic_config =
  adc_agents :: "'v sub_agents_map"
  adc_version :: "'v option"
  adc_chart_version :: "string option"
  adc_cd_chart_version :: "string option"

definition ac_dynamic_config_default :: "'v ac_dynamic_config" where
  "ac_dynamic_config_default =
     \<lparr>adc_agents = [], adc_version = None, adc_chart_version = None, adc_cd_chart_version = None\<rparr>"

definition AGENTS_KEY :: string where
  "AGENTS_KEY = ''agents''"

record ('j, 'v) dyn_codec =
  dyn_to_value :: "'v ac_dynamic_config \<Rightarrow> string + 'j"
  dyn_yaml_from_value :: "'j \<Rightarrow> string + 'j yaml_config"
  dyn_agents_from_value :: "'j \<Rightarrow> string + 'v sub_agents_map"
  dyn_yaml_to_string :: "'j yaml_config \<Rightarrow> string + string"
  dyn_from_str :: "string \<Rightarrow> string + 'v ac_dynamic_config"
  dyn_yaml_from_str :: "string \<Rightarrow> string + 'j yaml_config"

definition yaml_config_from_dynamic ::
  "('j, 'v) dyn_codec \<Rightarrow> 'v ac_dynamic_config \<Rightarrow> string + 'j yaml_config" where
  "yaml_config_from_dynamic codec dc =
     rbind (map_err (\<lambda>e. ''serializing dynamic config: '' @ e) (dyn_to_value codec dc))
       (\<lambda>v. map_err (\<lambda>e. ''decoding config: '' @ e) (dyn_yaml_from_value codec v))"

definition dynamic_from_yaml_config ::
  "('j, 'v) dyn_codec \<Rightarrow> 'j yaml_config \<Rightarrow> string + 'v ac_dynamic_config" where
  "dynamic_from_yaml_config codec c =
     rbind (map_err (\<lambda>e. ''deserializing: '' @ e) (dyn_yaml_to_string codec c))
       (\<lambda>s. map_err (\<lambda>e. ''serializing: '' @ e) (dyn_from_str codec s))"

fun deserialize_chart_version :: "string option \<Rightarrow> string option" where
  "deserialize_chart_version None = None"
| "deserialize_chart_version (Some v) = (if v = [] then None else Some v)"

fun deserialize_version :: "(string \<Rightarrow> string + 'v) \<Rightarrow> string option \<Rightarrow> string + 'v option" where
  "deserialize_version from_str None = Inr None"
| "deserialize_version from_str (Some v) = (if v = [] then Inr None else map_ok Some (from_str v))"

fun insert_agent ::
  "'v sub_agents_map \<Rightarrow> agent_id \<times> 'v sub_agent_config \<Rightarrow> string + 'v sub_agents_map" where
  "insert_agent merged (aid, cfg) =
     (if ahas merged aid then Inl (''duplicated agent: '' @ agent_id_as_str aid)
      else Inr (AList.update aid cfg merged))"

definition try_append_agents ::
  "('j, 'v) dyn_codec \<Rightarrow> 'v sub_agents_map \<Rightarrow> 'j \<Rightarrow> string + 'v sub_agents_map" where
  "try_append_agents codec merged agents_value =
     rbind (map_err (\<lambda>e. ''invalid agents: '' @ e) (dyn_agents_from_value codec agents_value))
       (\<lambda>sub_agents. try_fold insert_agent merged sub_agents)"

fun merge_config_entry ::
  "('j, 'v) dyn_codec \<Rightarrow> 'v sub_agents_map \<times> 'j yaml_config \<Rightarrow> string \<times> string
   \<Rightarrow> string + 'v sub_agents_map \<times> 'j yaml_config" where
  "merge_config_entry codec (merged, remaining) (name, content) =
     rbind (map_err (\<lambda>e. ''invalid config '' @ sq name @ '': '' @ e)
              (yaml_try_from (dyn_yaml_from_str codec) content)) (\<lambda>yaml.
     (let (agents_value, yaml') = remove_key AGENTS_KEY yaml in
     rbind (case agents_value of
              None \<Rightarrow> Inr merged
            | Some v \<Rightarrow>
                map_err (\<lambda>e. ''appending agents from config '' @ sq name @ '': '' @ e)
                  (try_append_agents codec merged v)) (\<lambda>merged'.
     rbind (map_err (\<lambda>e. ''appending config: '' @ e) (try_append remaining yaml'))
       (\<lambda>remaining'. Inr (merged', remaining')))))"

definition dynamic_from_remote_config ::
  "('j, 'v) dyn_codec \<Rightarrow> 's opamp_remote_config \<Rightarrow> string + 'v ac_dynamic_config" where
  "dynamic_from_remote_config codec c =
     rbind (map_err (\<lambda>e. ''initializing default config: '' @ e)
              (yaml_config_from_dynamic codec ac_dynamic_config_default)) (\<lambda>init.
     rbind (try_fold (merge_config_entry codec) ([], init) (agent_configs_iter c))
       (\<lambda>(merged, remaining).
     rbind (map_err (\<lambda>e. ''encoding config: '' @ e) (dynamic_from_yaml_config codec remaining))
       (\<lambda>dc. Inr (dc\<lparr>adc_agents := merged\<rparr>))))"

definition sub_agents_difference :: "'v sub_agents_map \<Rightarrow> 'v sub_agents_map \<Rightarrow> 'v sub_agents_map" where
  "sub_agents_difference old new = filter (\<lambda>(aid, _). \<not> ahas new aid) old"

section \<open>Store of the configuration of Agent Control\<close>

text \<open>\<open>AgentControlDynamicConfigRepository\<close>; the error is its text.\<close>

record ('r, 'j, 'v) dynamic_config_repository =
  dcr_load :: "'r \<Rightarrow> string + 'v ac_dynamic_config"
  dcr_store :: "'j remote_config \<Rightarrow> 'r \<Rightarrow> (string + unit) \<times> 'r"
  dcr_update_state :: "config_state \<Rightarrow> 'r \<Rightarrow> (string + unit) \<times> 'r"
  dcr_get_remote_config :: "'r \<Rightarrow> string + 'j remote_config option"
  dcr_delete :: "'r \<Rightarrow> (string + unit) \<times> 'r"

record ('v, 'o) agent_control_config =
  acc_dynamic :: "'v ac_dynamic_config"
  acc_static :: 'o

text \<open>What the store is built with: the repository of values, the capabilities of Agent Control, the
  codecs, and \<open>acs_build\<close>, the configuration library reading the local YAML text together with the
  environment.\<close>

record ('r, 'j, 'c, 'v, 'o) ac_config_store =
  acs_repo :: "('r, 'j, 'c, 'v) config_repository_ops"
  acs_capabilities :: 'c
  acs_codec :: "('j, 'v) dyn_codec"
  acs_build :: "string \<Rightarrow> string + ('v, 'o) agent_control_config"

definition sanitize_local_dynamic_config :: "'v ac_dynamic_config \<Rightarrow> 'v ac_dynamic_config" where
  "sanitize_local_dynamic_config dc = dc\<lparr>adc_chart_version := None\<rparr>"

definition acs_load_config ::
  "('r, 'j, 'c, 'v, 'o) ac_config_store \<Rightarrow> 'r \<Rightarrow> string + ('v, 'o) agent_control_config" where
  "acs_load_config S r =
     rbind (map_err (\<lambda>e. ''loading Agent Control local config: '' @ config_repository_error_fmt e)
              (cr_load_local (acs_repo S) AgentControl r)) (\<lambda>maybe_local.
     rbind (ok_or ''missing local agent control config'' maybe_local) (\<lambda>local_config.
     rbind (yaml_into_string (dyn_yaml_to_string (acs_codec S)) (get_yaml_config local_config))
       (\<lambda>local_config_string.
     rbind (acs_build S local_config_string) (\<lambda>config.
     (let config = config\<lparr>acc_dynamic := sanitize_local_dynamic_config (acc_dynamic config)\<rparr> in
     rbind (map_err (\<lambda>e. ''loading Agent Control remote config: '' @ config_repository_error_fmt e)
              (cr_load_remote (acs_repo S) AgentControl (acs_capabilities S) r)) (\<lambda>maybe_remote.
     case maybe_remote of
       None \<Rightarrow> Inr config
     | Some remote_config \<Rightarrow>
         rbind (dynamic_from_yaml_config (acs_codec S) (get_yaml_config remote_config))
           (\<lambda>dynamic. Inr (config\<lparr>acc_dynamic := dynamic\<rparr>))))))))"

definition acs_load :: "('r, 'j, 'c, 'v, 'o) ac_config_store \<Rightarrow> 'r \<Rightarrow> string + 'v ac_dynamic_config" where
  "acs_load S r = map_ok acc_dynamic (acs_load_config S r)"

definition acs_store ::
  "('r, 'j, 'c, 'v, 'o) ac_config_store \<Rightarrow> 'j remote_config \<Rightarrow> 'r \<Rightarrow> (string + unit) \<times> 'r" where
  "acs_store S rc r =
     map_prod (map_err (\<lambda>e. ''storing Agent Control config: '' @ config_repository_error_fmt e)) id
       (cr_store_remote (acs_repo S) AgentControl OwnedByAgentControl rc r)"

definition acs_update_state ::
  "('r, 'j, 'c, 'v, 'o) ac_config_store \<Rightarrow> config_state \<Rightarrow> 'r \<Rightarrow> (string + unit) \<times> 'r" where
  "acs_update_state S st r =
     map_prod (map_err (\<lambda>e. ''updating Agent Control config: '' @ config_repository_error_fmt e)) id
       (cr_update_state (acs_repo S) AgentControl OwnedByAgentControl st r)"

definition acs_delete :: "('r, 'j, 'c, 'v, 'o) ac_config_store \<Rightarrow> 'r \<Rightarrow> (string + unit) \<times> 'r" where
  "acs_delete S r =
     map_prod (map_err (\<lambda>e. ''deleting Agent Control config: '' @ config_repository_error_fmt e)) id
       (cr_delete_remote (acs_repo S) AgentControl r)"

definition acs_get_remote_config ::
  "('r, 'j, 'c, 'v, 'o) ac_config_store \<Rightarrow> 'r \<Rightarrow> string + 'j remote_config option" where
  "acs_get_remote_config S r =
     map_err (\<lambda>e. ''loading Agent Control config: '' @ config_repository_error_fmt e)
       (cr_get_remote_config (acs_repo S) AgentControl r)"

definition ac_config_store_ops ::
  "('r, 'j, 'c, 'v, 'o) ac_config_store \<Rightarrow> ('r, 'j, 'v) dynamic_config_repository" where
  "ac_config_store_ops S =
     \<lparr>dcr_load = acs_load S, dcr_store = acs_store S, dcr_update_state = acs_update_state S,
      dcr_get_remote_config = acs_get_remote_config S, dcr_delete = acs_delete S\<rparr>"

section \<open>Merging the agents of a remote configuration\<close>

lemma insert_agents_iff:
  "try_fold insert_agent a b = Inr r \<longleftrightarrow>
     r = a @ b \<and> distinct (map fst b) \<and> fst ` set a \<inter> fst ` set b = {}"
proof (induction b arbitrary: a)
  case (Cons e b)
  obtain k v where e: "e = (k, v)" by (cases e)
  show ?case
  proof (cases "ahas a k")
    case True
    then show ?thesis by (auto simp: e rbind_def ahas_iff akeys_def)
  next
    case False
    then have "try_fold insert_agent a (e # b) = try_fold insert_agent (a @ [(k, v)]) b"
      by (simp add: e rbind_def update_absent)
    with Cons.IH[of "a @ [(k, v)]"] False show ?thesis
      by (auto simp: e ahas_iff akeys_def)
  qed
qed auto

text \<open>The agents one entry of the message contributes.\<close>

definition entry_agents ::
  "('j, 'v) dyn_codec \<Rightarrow> string \<times> string \<Rightarrow> string + 'v sub_agents_map" where
  "entry_agents codec entry =
     rbind (dyn_yaml_from_str codec (snd entry)) (\<lambda>yaml.
       case map_of yaml AGENTS_KEY of
         None \<Rightarrow> Inr []
       | Some v \<Rightarrow> dyn_agents_from_value codec v)"

lemma merge_config_entry_agents:
  assumes "merge_config_entry codec (merged, remaining) entry = Inr (merged', remaining')"
  shows "\<exists>as. entry_agents codec entry = Inr as \<and> merged' = merged @ as \<and>
    distinct (map fst as) \<and> fst ` set merged \<inter> fst ` set as = {}"
proof -
  obtain name content where entry: "entry = (name, content)" by (cases entry)
  from assms obtain yaml where yaml: "dyn_yaml_from_str codec content = Inr yaml"
    by (auto simp: entry rbind_eq_Inr yaml_try_from_def)
  show ?thesis
  proof (cases "map_of yaml AGENTS_KEY")
    case None
    then show ?thesis using assms yaml
      by (auto simp: entry rbind_eq_Inr yaml_try_from_def remove_key_def entry_agents_def)
  next
    case (Some v)
    then obtain as where "dyn_agents_from_value codec v = Inr as"
      and "try_fold insert_agent merged as = Inr merged'"
      using assms yaml
      by (auto simp: entry rbind_eq_Inr yaml_try_from_def remove_key_def try_append_agents_def)
    then show ?thesis using yaml Some insert_agents_iff[of merged as merged']
      by (auto simp: entry rbind_eq_Inr entry_agents_def)
  qed
qed

lemma merge_config_entries_agents:
  assumes "try_fold (merge_config_entry codec) (merged, remaining) es = Inr (merged', remaining')"
  shows "\<exists>parts. try_map (entry_agents codec) es = Inr parts \<and> merged' = merged @ concat parts \<and>
    distinct (map fst (concat parts)) \<and> fst ` set merged \<inter> fst ` set (concat parts) = {}"
  using assms
proof (induction es arbitrary: merged remaining)
  case (Cons e es)
  from Cons.prems obtain m1 r1 where
    step: "merge_config_entry codec (merged, remaining) e = Inr (m1, r1)"
    and rest: "try_fold (merge_config_entry codec) (m1, r1) es = Inr (merged', remaining')"
    by (auto simp: rbind_eq_Inr)
  obtain as where as: "entry_agents codec e = Inr as" "m1 = merged @ as" "distinct (map fst as)"
    "fst ` set merged \<inter> fst ` set as = {}"
    using merge_config_entry_agents[OF step] by blast
  obtain parts where parts: "try_map (entry_agents codec) es = Inr parts"
    "merged' = m1 @ concat parts" "distinct (map fst (concat parts))"
    "fst ` set m1 \<inter> fst ` set (concat parts) = {}"
    using Cons.IH[OF rest] by blast
  have "try_map (entry_agents codec) (e # es) = Inr (as # parts)"
    using as(1) parts(1) by (simp add: rbind_def)
  moreover have "fst ` set as \<inter> fst ` set (concat parts) = {}"
    and "fst ` set merged \<inter> fst ` set (concat parts) = {}"
    using parts(4) as(2) by (auto simp: image_Un)
  ultimately show ?case
    using as parts(2,3) by (intro exI[of _ "as # parts"]) (simp add: image_Un Int_Un_distrib)
qed simp

lemma dynamic_config_agents_union:
  assumes "dynamic_from_remote_config codec c = Inr dc"
  shows "\<exists>parts. try_map (entry_agents codec) (agent_configs_iter c) = Inr parts \<and>
    adc_agents dc = concat parts \<and> amap_ok (adc_agents dc)"
proof -
  from assms obtain init merged remaining dc' where
    "try_fold (merge_config_entry codec) ([], init) (agent_configs_iter c) = Inr (merged, remaining)"
    and dc: "dc = dc'\<lparr>adc_agents := merged\<rparr>"
    by (auto simp: dynamic_from_remote_config_def rbind_eq_Inr split: prod.splits)
  from merge_config_entries_agents[OF this(1)] show ?thesis
    unfolding dc amap_ok_def by (auto simp del: map_concat)
qed

text \<open>The sub-agents of a remote configuration are the union of the sub-agents of its
  \<open>agentConfig*\<close> entries: every entry was readable, no agent is defined twice (neither within an
  entry nor in two of them), and nothing else is added or lost.\<close>

theorem dynamic_config_agents:
  assumes "dynamic_from_remote_config codec c = Inr dc"
  shows "\<exists>parts. try_map (entry_agents codec) (agent_configs_iter c) = Inr parts \<and>
    adc_agents dc = concat parts \<and> amap_ok (adc_agents dc)"
  using assms by (rule dynamic_config_agents_union)

text \<open>A codec for documents whose only key is \<open>agents\<close>, listing one agent per text.\<close>

definition one_agent_codec :: "(string, unit) dyn_codec" where
  "one_agent_codec =
     \<lparr>dyn_to_value = \<lambda>_. Inr [], dyn_yaml_from_value = \<lambda>_. Inr [],
      dyn_agents_from_value = \<lambda>v. Inr [(SubAgent (SubAgentID v),
        \<lparr>sac_agent_type = \<lparr>ati_name = ''n'', ati_namespace = ''ns'', ati_version = ()\<rparr>\<rparr>)],
      dyn_yaml_to_string = \<lambda>_. Inr [], dyn_from_str = \<lambda>_. Inr ac_dynamic_config_default,
      dyn_yaml_from_str = \<lambda>s. Inr [(AGENTS_KEY, s)]\<rparr>"

theorem dynamic_config_agents_witness:
  "let c = \<lparr>orc_agent_id = AgentControl, orc_hash = ''h'', orc_state = Applying,
            orc_signatures = (None :: (string \<times> unit) list option),
            orc_config_map = [(''agentConfig-1'', ''a''), (''agentConfig-2'', ''b'')]\<rparr>
   in \<exists>dc. dynamic_from_remote_config one_agent_codec c = Inr dc \<and> amap_ok (adc_agents dc) \<and>
        map fst (adc_agents dc) = [SubAgent (SubAgentID ''a''), SubAgent (SubAgentID ''b'')]"
proof -
  let ?c = "\<lparr>orc_agent_id = AgentControl, orc_hash = ''h'', orc_state = Applying,
            orc_signatures = (None :: (string \<times> unit) list option),
            orc_config_map = [(''agentConfig-1'', ''a''), (''agentConfig-2'', ''b'')]\<rparr>"
  have "is_ok (dynamic_from_remote_config one_agent_codec ?c)" by code_simp
  then obtain dc where dc: "dynamic_from_remote_config one_agent_codec ?c = Inr dc"
    unfolding is_ok_iff by (elim exE)
  have "map fst (adc_agents (projr (dynamic_from_remote_config one_agent_codec ?c))) =
      [SubAgent (SubAgentID ''a''), SubAgent (SubAgentID ''b'')]"
    by code_simp
  then have names: "map fst (adc_agents dc) = [SubAgent (SubAgentID ''a''), SubAgent (SubAgentID ''b'')]"
    unfolding dc sum.sel .
  from dynamic_config_agents[OF dc] have "amap_ok (adc_agents dc)" by (elim exE conjE)
  with dc names show ?thesis unfolding Let_def by (intro exI conjI)
qed

section \<open>The contract of the dynamic configuration repository\<close>

locale dynamic_config_store =
  fixes D :: "('r, 'j, 'v) dynamic_config_repository"
    and stored :: "'r \<Rightarrow> 'j remote_config stored"
    and storable :: "'j remote_config \<Rightarrow> bool"
  assumes dcr_store_stores:
      "dcr_store D rc r = (Inr u, r') \<Longrightarrow> storable rc \<Longrightarrow> stored r' = Stored rc"
    and dcr_update_updates:
      "dcr_update_state D st r = (Inr u, r') \<Longrightarrow>
       \<exists>rc. stored r = Stored rc \<and>
         (storable (with_state rc st) \<longrightarrow> stored r' = Stored (with_state rc st))"
    and dcr_delete_deletes: "dcr_delete D r = (Inr u, r') \<Longrightarrow> stored r' = Absent"
    and dcr_delete_fails: "dcr_delete D r = (Inl e, r') \<Longrightarrow> stored r' = stored r"
    and dcr_get_view: "dcr_get_remote_config D r = Inr y \<Longrightarrow> stored r = stored_of y"
begin

lemma update_needs_stored: "stored r = Absent \<Longrightarrow> dcr_update_state D st r = (w, r') \<Longrightarrow> \<exists>e. w = Inl e"
  using dcr_update_updates by (cases w) fastforce+

lemma update_after_delete:
  "dcr_delete D r = (Inr u, r') \<Longrightarrow> dcr_update_state D st r' = (w, r'') \<Longrightarrow> \<exists>e. w = Inl e"
  using dcr_delete_deletes update_needs_stored by blast

end

locale ac_store =
  config_repository "acs_repo S" rview lview storable remote_on
  for S :: "('r, 'j, 'c, 'v, 'o) ac_config_store"
    and rview :: "'r \<Rightarrow> agent_id \<Rightarrow> 'j remote_config stored"
    and lview :: "'r \<Rightarrow> agent_id \<Rightarrow> 'j yaml_config stored"
    and storable :: "'j remote_config \<Rightarrow> bool"
    and remote_on :: "'c \<Rightarrow> bool"
begin

text \<open>The local configuration is read on every load; the dynamic part comes from the stored remote
  configuration when there is one.\<close>

lemma load_config_dynamic:
  assumes "acs_load_config S r = Inr cfg" and "remote_on (acs_capabilities S)"
  shows "\<exists>local base. lview r AgentControl = Stored local \<and>
    rbind (yaml_into_string (dyn_yaml_to_string (acs_codec S)) local) (acs_build S) = Inr base \<and>
    ((rview r AgentControl = Absent \<and> cfg = base\<lparr>acc_dynamic := sanitize_local_dynamic_config (acc_dynamic base)\<rparr>) \<or>
     (\<exists>rc dynamic. rview r AgentControl = Stored rc \<and>
        dynamic_from_yaml_config (acs_codec S) (rc_config rc) = Inr dynamic \<and>
        cfg = base\<lparr>acc_dynamic := dynamic\<rparr>))"
proof -
  from assms(1) obtain local_config s base maybe_remote where
    l: "cr_load_local (acs_repo S) AgentControl r = Inr (Some local_config)"
    and s: "yaml_into_string (dyn_yaml_to_string (acs_codec S)) (get_yaml_config local_config) = Inr s"
    and b: "acs_build S s = Inr base"
    and m: "cr_load_remote (acs_repo S) AgentControl (acs_capabilities S) r = Inr maybe_remote"
    and cfg: "(case maybe_remote of
       None \<Rightarrow> Inr (base\<lparr>acc_dynamic := sanitize_local_dynamic_config (acc_dynamic base)\<rparr>)
     | Some remote_config \<Rightarrow>
         rbind (dynamic_from_yaml_config (acs_codec S) (get_yaml_config remote_config))
           (\<lambda>dynamic. Inr (base\<lparr>acc_dynamic := dynamic\<rparr>))) = Inr cfg"
    by (auto simp: acs_load_config_def rbind_eq_Inr ok_or_def Let_def split: option.splits)
  from load_local_view[OF l] obtain x where x: "Some local_config = map_option LocalConfig x"
    "lview r AgentControl = stored_of x"
    by blast
  then obtain local where "local_config = LocalConfig local"
    and lv: "lview r AgentControl = Stored local"
    by (cases x) auto
  then have base: "rbind (yaml_into_string (dyn_yaml_to_string (acs_codec S)) local) (acs_build S) = Inr base"
    using s b by (simp add: rbind_def)
  from load_remote_view[OF assms(2) m] obtain y where y: "maybe_remote = map_option RemoteConfig y"
    "rview r AgentControl = stored_of y"
    by blast
  show ?thesis
    using lv base y cfg by (cases y) (auto simp: rbind_eq_Inr)
qed

end

sublocale ac_store \<subseteq> dynamic_config_store "ac_config_store_ops S" "\<lambda>r. rview r AgentControl" storable
proof (unfold_locales, unfold ac_config_store_ops_def dynamic_config_repository.simps, goal_cases)
  case (1 rc r u r')
  then show ?case using store_remote_stores by (auto simp: acs_store_def map_prod_def split: prod.splits)
next
  case (2 st r u r')
  then have "cr_update_state (acs_repo S) AgentControl OwnedByAgentControl st r = (Inr u, r')"
    by (auto simp: acs_update_state_def map_prod_def split: prod.splits)
  then show ?case by (rule update_state_updates)
next
  case (3 r u r')
  then show ?case using delete_remote_deletes
    by (auto simp: acs_delete_def map_prod_def split: prod.splits)
next
  case (4 r e r')
  then obtain e' where "cr_delete_remote (acs_repo S) AgentControl r = (Inl e', r')"
    by (auto simp: acs_delete_def map_prod_def map_err_eq_Inl split: prod.splits)
  then show ?case by (rule delete_remote_fails)
next
  case (5 r y)
  then show ?case using get_remote_config_view by (auto simp: acs_get_remote_config_def)
qed

text \<open>The store of the host: \<open>AgentControlConfigStore\<close> over \<open>ConfigRepo\<close> over \<open>FileStore\<close>.\<close>

definition host_ac_store ::
  "os_faults \<Rightarrow> 'j remote_config yaml_codec \<Rightarrow> 'j yaml_config yaml_codec \<Rightarrow> file_store
   \<Rightarrow> ('c \<Rightarrow> agent_capability \<Rightarrow> bool) \<Rightarrow> 'c \<Rightarrow> ('j, 'v) dyn_codec
   \<Rightarrow> (string \<Rightarrow> string + ('v, 'o) agent_control_config)
   \<Rightarrow> (disk, 'j, 'c, 'v, 'o) ac_config_store" where
  "host_ac_store os rcodec lcodec dirs has_capability caps codec build =
     \<lparr>acs_repo = host_repo os rcodec lcodec dirs has_capability, acs_capabilities = caps,
      acs_codec = codec, acs_build = build\<rparr>"

lemma host_ac_store_simps [simp]:
  "acs_repo (host_ac_store os rcodec lcodec dirs has_capability caps codec build) =
     host_repo os rcodec lcodec dirs has_capability"
  "acs_capabilities (host_ac_store os rcodec lcodec dirs has_capability caps codec build) = caps"
  "acs_codec (host_ac_store os rcodec lcodec dirs has_capability caps codec build) = codec"
  "acs_build (host_ac_store os rcodec lcodec dirs has_capability caps codec build) = build"
  by (simp_all add: host_ac_store_def)

interpretation host_ac: ac_store
  "host_ac_store os rcodec lcodec dirs has_capability caps codec build"
  "host_stored_config rcodec dirs" "host_local_config lcodec dirs" "yaml_storable rcodec"
  "host_remote_on has_capability"
  for os :: os_faults and rcodec :: "'j remote_config yaml_codec"
    and lcodec :: "'j yaml_config yaml_codec" and dirs :: file_store
    and has_capability :: "'c \<Rightarrow> agent_capability \<Rightarrow> bool" and caps :: 'c
    and codec :: "('j, 'v) dyn_codec"
    and build :: "string \<Rightarrow> string + ('v, 'o) agent_control_config"
  unfolding ac_store_def host_ac_store_simps by (rule host.config_repository_axioms)

text \<open>On the host, the configuration Agent Control runs with is the local one, whose dynamic part
  is replaced as a whole by the stored remote configuration when there is one. Without a stored
  configuration the local dynamic part is used with its chart version removed. A load never succeeds
  without a readable local configuration, nor with an unreadable stored one.\<close>

theorem host_load_config:
  assumes "acs_load_config (host_ac_store os rcodec lcodec dirs has_capability caps codec build) d = Inr cfg"
    and "host_remote_on has_capability caps"
  shows "\<exists>local base. host_local_config lcodec dirs d AgentControl = Stored local \<and>
    rbind (yaml_into_string (dyn_yaml_to_string codec) local) build = Inr base \<and>
    ((host_stored_config rcodec dirs d AgentControl = Absent \<and>
      cfg = base\<lparr>acc_dynamic := sanitize_local_dynamic_config (acc_dynamic base)\<rparr>) \<or>
     (\<exists>rc dynamic. host_stored_config rcodec dirs d AgentControl = Stored rc \<and>
        dynamic_from_yaml_config codec (rc_config rc) = Inr dynamic \<and>
        cfg = base\<lparr>acc_dynamic := dynamic\<rparr>))"
  using host_ac.load_config_dynamic[OF assms(1)] assms(2) by simp

definition sample_ac_store :: "(disk, unit, unit, unit, unit) ac_config_store" where
  "sample_ac_store =
     host_ac_store no_faults hash_codec empty_codec
       \<lparr>fst_local_dir = [''l''], fst_remote_dir = [''r'']\<rparr> (\<lambda>_ _. True) ()
       \<lparr>dyn_to_value = \<lambda>_. Inr (), dyn_yaml_from_value = \<lambda>_. Inr [],
        dyn_agents_from_value = \<lambda>_. Inr [], dyn_yaml_to_string = \<lambda>_. Inr [],
        dyn_from_str = \<lambda>_. Inr ac_dynamic_config_default, dyn_yaml_from_str = \<lambda>_. Inr []\<rparr>
       (\<lambda>_. Inr \<lparr>acc_dynamic = ac_dynamic_config_default, acc_static = ()\<rparr>)"

definition sample_disk :: disk where
  "sample_disk =
     \<lparr>dk_files = [([''l'', ''local-data'', ''agent-control'', ''local_config.yaml''], ''x'')],
      dk_dirs = []\<rparr>"

theorem host_load_config_witness:
  "is_ok (acs_load_config sample_ac_store sample_disk) \<and>
   (\<exists>local. host_local_config empty_codec \<lparr>fst_local_dir = [''l''], fst_remote_dir = [''r'']\<rparr>
      sample_disk AgentControl = Stored local)"
proof -
  have ok: "is_ok (acs_load_config sample_ac_store sample_disk)" by code_simp
  then obtain cfg where cfg: "acs_load_config sample_ac_store sample_disk = Inr cfg"
    unfolding is_ok_iff by (elim exE)
  have on: "host_remote_on (\<lambda>_ _. True) ()"
    by (simp add: host_remote_on_def remote_on_def has_remote_management_def)
  from host_load_config[OF cfg[unfolded sample_ac_store_def] on] ok show ?thesis by blast
qed

end
