(* ===== verification/Opamp_Client.thy ===== *)
theory Opamp_Client
  imports Ac_Config
begin

text \<open>
  The OpAMP client as the program uses it: the calls issued to it, in order, and how the attributes
  reported to the server are updated (\<open>opamp/attributes.rs\<close>, \<open>opamp/operations.rs\<close>). The client
  library is a parameter: it answers a call with success or with the text of an error.
\<close>

section \<open>Calls\<close>

text \<open>\<open>'h\<close> is the health reported, \<open>'a\<close> the value of an attribute.\<close>

record 'a agent_description =
  ad_identifying :: "(string \<times> 'a) list"
  ad_non_identifying :: "(string \<times> 'a) list"

datatype ('h, 'a) opamp_call =
    SetRemoteConfigStatus remote_config_status
  | UpdateEffectiveConfig
  | SetHealth 'h
  | GetAgentDescription
  | SetAgentDescription "'a agent_description"
  | StopClient

abbreviation report_call :: "config_state \<Rightarrow> hash \<Rightarrow> ('h, 'a) opamp_call" where
  "report_call st h \<equiv> SetRemoteConfigStatus (report_state_msg st h)"

section \<open>Attributes\<close>

fun merge_attribute :: "(string \<times> 'a) list \<Rightarrow> string \<times> 'a \<Rightarrow> (string \<times> 'a) list" where
  "merge_attribute [] (key, val) = [(key, val)]"
| "merge_attribute ((k, v) # kvs) (key, val) =
     (if k = key then (k, val) # kvs else (k, v) # merge_attribute kvs (key, val))"

definition merge_attributes :: "(string \<times> 'a) list \<Rightarrow> (string \<times> 'a) list \<Rightarrow> (string \<times> 'a) list" where
  "merge_attributes old new = foldl merge_attribute old new"

text \<open>The conversion of the new attributes to the wire type is the parameter \<open>into\<close>.\<close>

definition merge_agent_description ::
  "('b \<Rightarrow> 'a agent_description) \<Rightarrow> 'a agent_description \<Rightarrow> 'b \<Rightarrow> 'a agent_description" where
  "merge_agent_description into old new =
     \<lparr>ad_identifying = merge_attributes (ad_identifying old) (ad_identifying (into new)),
      ad_non_identifying = merge_attributes (ad_non_identifying old) (ad_non_identifying (into new))\<rparr>"

text \<open>Reading the description from the client and setting it are the actions \<open>get\<close> and \<open>set_description\<close>.\<close>

definition update_opamp_attributes ::
  "('s, 'e, 'a agent_description) action \<Rightarrow> ('a agent_description \<Rightarrow> ('s, 'e, unit) action)
   \<Rightarrow> ('b \<Rightarrow> 'a agent_description) \<Rightarrow> 'b \<Rightarrow> ('s, 'e, unit) action" where
  "update_opamp_attributes get set_description into attrs =
     sbind get (\<lambda>current. set_description (merge_agent_description into current attrs))"

definition OPAMP_SERVICE_NAME :: string where
  "OPAMP_SERVICE_NAME = ''service.name''"

definition OPAMP_SERVICE_NAMESPACE :: string where
  "OPAMP_SERVICE_NAMESPACE = ''service.namespace''"

definition OPAMP_SUPERVISOR_KEY :: string where
  "OPAMP_SUPERVISOR_KEY = ''supervisor.key''"

definition PARENT_AGENT_ID_ATTRIBUTE_KEY :: string where
  "PARENT_AGENT_ID_ATTRIBUTE_KEY = ''parent.agent.id''"

datatype description_value = DescString string | DescBytes string

definition agent_description_new ::
  "'v agent_identity \<Rightarrow> (string \<times> description_value) list \<Rightarrow> (string \<times> description_value) list
   \<Rightarrow> description_value agent_description" where
  "agent_description_new ident additional non_identifying =
     \<lparr>ad_identifying =
        fold (\<lambda>(k, v) m. AList.update k v m) additional
          [(OPAMP_SERVICE_NAME, DescString (ati_name (ai_agent_type_id ident))),
           (OPAMP_SERVICE_NAMESPACE, DescString (ati_namespace (ai_agent_type_id ident))),
           (OPAMP_SUPERVISOR_KEY, DescString (agent_id_as_str (ai_id ident)))],
      ad_non_identifying = non_identifying\<rparr>"

record 'u start_settings =
  ss_instance_uid :: 'u
  ss_agent_description :: "description_value agent_description"

text \<open>The instance ids come from the getter; the capabilities are constants of the client library
  and are left out of the settings.\<close>

definition sub_agent_start_settings ::
  "(agent_id \<Rightarrow> 'd \<Rightarrow> ('e + 'u) \<times> 'd) \<Rightarrow> ('u \<Rightarrow> string) \<Rightarrow> 'v agent_identity
   \<Rightarrow> (string \<times> description_value) list \<Rightarrow> (string \<times> description_value) list \<Rightarrow> 'd
   \<Rightarrow> ('e + 'u start_settings) \<times> 'd" where
  "sub_agent_start_settings getter to_bytes ident additional non_identifying d =
     (case getter AgentControl d of
        (Inl e, d') \<Rightarrow> (Inl e, d')
      | (Inr parent_id, d') \<Rightarrow>
          (let non_identifying' =
             AList.update PARENT_AGENT_ID_ATTRIBUTE_KEY (DescBytes (to_bytes parent_id)) non_identifying
           in case getter (ai_id ident) d' of
                (Inl e, d'') \<Rightarrow> (Inl e, d'')
              | (Inr uid, d'') \<Rightarrow>
                  (Inr \<lparr>ss_instance_uid = uid,
                        ss_agent_description =
                          agent_description_new ident additional non_identifying'\<rparr>, d'')))"

section \<open>What an update of the attributes keeps\<close>

lemma map_of_merge_attribute:
  "map_of (merge_attribute old kv) = (map_of old)(fst kv \<mapsto> snd kv)"
  by (induction old kv rule: merge_attribute.induct) (auto simp: fun_eq_iff)

lemma map_of_merge_attributes:
  "map_of (merge_attributes old new) = map_of old ++ map_of (rev new)"
proof (induction new arbitrary: old)
  case (Cons kv new)
  obtain k v where kv: "kv = (k, v)" by (cases kv)
  have "map_of (merge_attributes old (kv # new)) = map_of (merge_attribute old kv) ++ map_of (rev new)"
    using Cons.IH by (simp add: merge_attributes_def)
  also have "\<dots> = map_of old ++ ([k \<mapsto> v] ++ map_of (rev new))"
    unfolding map_of_merge_attribute kv by (auto simp: map_add_def fun_eq_iff split: option.splits)
  also have "[k \<mapsto> v] ++ map_of (rev new) = map_of (rev (kv # new))"
    by (simp add: kv)
  finally show ?case .
qed (simp add: merge_attributes_def)

lemma merge_attribute_keys:
  "map fst (merge_attribute old kv) =
     (if fst kv \<in> fst ` set old then map fst old else map fst old @ [fst kv])"
  by (induction old kv rule: merge_attribute.induct) auto

lemma merge_attributes_prefix:
  "\<exists>added. map fst (merge_attributes old new) = map fst old @ added \<and> set added \<subseteq> fst ` set new"
proof (induction new arbitrary: old)
  case (Cons kv new)
  obtain added where "map fst (merge_attributes (merge_attribute old kv) new) =
      map fst (merge_attribute old kv) @ added" and "set added \<subseteq> fst ` set new"
    using Cons.IH by blast
  then show ?case
    using merge_attribute_keys[of old kv]
    by (cases "fst kv \<in> fst ` set old") (auto simp: merge_attributes_def)
qed (simp add: merge_attributes_def)

text \<open>Updating the attributes of an agent removes none and reorders none: the attributes that
  were there stay where they were, new ones are appended, and each attribute has the value of the
  update if the update names it and its old value otherwise.\<close>

theorem merge_attributes_correct:
  "(\<exists>added. map fst (merge_attributes old new) = map fst old @ added \<and> set added \<subseteq> fst ` set new) \<and>
   map_of (merge_attributes old new) = map_of old ++ map_of (rev new)"
  using merge_attributes_prefix map_of_merge_attributes by blast

end
