(* ===== verification/Agent_Control.thy ===== *)
theory Agent_Control
  imports Opamp_Client
begin

text \<open>
  The supervisor (\<open>agent_control.rs\<close>, \<open>sub_agent/collection.rs\<close>, \<open>agent_control/error.rs\<close>): the
  collection of running sub-agents, how a remote configuration is validated, stored and applied to it,
  and the event loop.

  The state is the collection, the repository of the dynamic configuration and the effects so far: the
  calls to the OpAMP client, the events broadcast, the resources cleaned, the version updates requested,
  and every sub-agent that was started and never told to stop. Each start makes a new instance, so the
  state tells two sub-agents with the same identity apart. The collaborators of \<open>AgentControl\<close> (its
  type parameters) are the record \<open>ac_deps\<close>; those that may fail do so depending on the whole state.
\<close>

section \<open>State and collaborators\<close>

record 'v started_sub_agent =
  sa_instance :: nat
  sa_identity :: "'v agent_identity"

datatype ('h, 'a) agent_control_event =
    AcHealthUpdated 'h
  | SubAgentRemoved agent_id
  | AgentControlStopped
  | AgentDescriptionUpdated "'a agent_description"
  | OpAMPConnected
  | OpAMPConnectFailed "nat option" string

record ('r, 'h, 'a, 'v) ac_state =
  st_repo :: 'r
  st_running :: "(agent_id \<times> 'v started_sub_agent) list"
  st_live :: "'v started_sub_agent list"
  st_next :: nat
  st_opamp :: "('h, 'a) opamp_call list"
  st_broadcast :: "('h, 'a) agent_control_event list"
  st_cleaned :: "(agent_id \<times> 'v agent_type_id) list"
  st_updates :: "'v ac_dynamic_config list"

record ('r, 'j, 'h, 'a, 'v, 's) ac_deps =
  dep_opamp_enabled :: bool
  dep_client :: "('r, 'h, 'a, 'v) ac_state \<Rightarrow> ('h, 'a) opamp_call \<Rightarrow> string option"
  dep_description :: "('r, 'h, 'a, 'v) ac_state \<Rightarrow> string + 'a agent_description"
  dep_into :: "'a agent_description \<Rightarrow> 'a agent_description"
  dep_build :: "('r, 'h, 'a, 'v) ac_state \<Rightarrow> 'v agent_identity \<Rightarrow> string option"
  dep_store :: "('r, 'j, 'v) dynamic_config_repository"
  dep_codec :: "('j, 'v) dyn_codec"
  dep_ac_identity :: "'v agent_identity"
  dep_validate_remote :: "('v, 's) remote_config_validator"
  dep_validate_dynamic :: "'v ac_dynamic_config \<Rightarrow> string + unit"
  dep_clean :: "('r, 'h, 'a, 'v) ac_state \<Rightarrow> agent_id \<Rightarrow> 'v agent_type_id \<Rightarrow> string option"
  dep_update :: "('r, 'h, 'a, 'v) ac_state \<Rightarrow> 'v ac_dynamic_config \<Rightarrow> string option"

section \<open>Errors\<close>

datatype agent_control_error =
    ConfigResolve string
  | OpAMPClient string
  | SubAgentBuilderErr string
  | SubAgentNotFound string
  | RemoteConfigErr opamp_remote_config_error
  | YAMLConfigErr string
  | RemoteConfigValidatorErr string
  | ResourceCleanerErr string
  | UpdaterErr string
  | BuildingSubagents "(agent_id \<times> agent_control_error) list"
  | UnreachablePanic string

fun agent_control_error_fmt :: "agent_control_error \<Rightarrow> string" where
  "agent_control_error_fmt (ConfigResolve e) = ''could not resolve config: '' @ e"
| "agent_control_error_fmt (OpAMPClient e) = e"
| "agent_control_error_fmt (SubAgentBuilderErr e) = e"
| "agent_control_error_fmt (SubAgentNotFound i) =
     ''sub agent '' @ i @ '' not found in the collection''"
| "agent_control_error_fmt (RemoteConfigErr e) =
     ''remote config error: '' @ opamp_remote_config_error_fmt e"
| "agent_control_error_fmt (YAMLConfigErr e) = ''parsing remote config into YAMLConfig: '' @ e"
| "agent_control_error_fmt (RemoteConfigValidatorErr e) =
     ''agent control remote config validation error: '' @ e"
| "agent_control_error_fmt (ResourceCleanerErr e) = ''resource cleaner error: '' @ e"
| "agent_control_error_fmt (UpdaterErr e) = ''updater error: '' @ e"
| "agent_control_error_fmt (BuildingSubagents errs) =
     ''failed to build agents: ['' @
       join '', '' (map (\<lambda>(i, e). ''agent_id: '' @ agent_id_as_str i @ '', error: ''
                                    @ agent_control_error_fmt e) errs) @ '']''"
| "agent_control_error_fmt (UnreachablePanic e) = e"

definition building_subagent_errors_fmt :: "(agent_id \<times> agent_control_error) list \<Rightarrow> string" where
  "building_subagent_errors_fmt errs =
     ''['' @ join '', '' (map (\<lambda>(i, e). ''agent_id: '' @ agent_id_as_str i @ '', error: ''
                                    @ agent_control_error_fmt e) errs) @ '']''"

section \<open>Collection of started sub-agents\<close>

definition stop_sub_agent :: "'v started_sub_agent \<Rightarrow> ('r, 'h, 'a, 'v) ac_state \<Rightarrow> ('r, 'h, 'a, 'v) ac_state" where
  "stop_sub_agent sub s = s\<lparr>st_live := remove1 sub (st_live s)\<rparr>"

definition stop_and_remove ::
  "agent_id \<Rightarrow> (('r, 'h, 'a, 'v) ac_state, agent_control_error, unit) action" where
  "stop_and_remove i s =
     (case map_of (st_running s) i of
        None \<Rightarrow> (Inl (SubAgentNotFound (agent_id_as_str i)), s)
      | Some sub \<Rightarrow>
          (Inr (), stop_sub_agent sub (s\<lparr>st_running := AList.delete i (st_running s)\<rparr>)))"

text \<open>\<open>insert\<close> replaces, and drops, a sub-agent that was there; dropping its handle does not stop it.\<close>

definition insert_sub_agent ::
  "agent_id \<Rightarrow> 'v started_sub_agent \<Rightarrow> ('r, 'h, 'a, 'v) ac_state \<Rightarrow> ('r, 'h, 'a, 'v) ac_state" where
  "insert_sub_agent i sub s = s\<lparr>st_running := AList.update i sub (st_running s)\<rparr>"

definition stop_sub_agents :: "('r, 'h, 'a, 'v) ac_state \<Rightarrow> ('r, 'h, 'a, 'v) ac_state" where
  "stop_sub_agents s =
     (fold (\<lambda>(_, sub) s. stop_sub_agent sub s) (st_running s) s)\<lparr>st_running := []\<rparr>"

section \<open>Calls to the collaborators\<close>

definition client_call ::
  "('r, 'j, 'h, 'a, 'v, 's) ac_deps \<Rightarrow> ('h, 'a) opamp_call
   \<Rightarrow> (('r, 'h, 'a, 'v) ac_state, agent_control_error, unit) action" where
  "client_call D c s =
     (case dep_client D s c of None \<Rightarrow> Inr () | Some e \<Rightarrow> Inl (OpAMPClient e),
      s\<lparr>st_opamp := st_opamp s @ [c]\<rparr>)"

definition ac_report_state ::
  "('r, 'j, 'h, 'a, 'v, 's) ac_deps \<Rightarrow> config_state \<Rightarrow> hash
   \<Rightarrow> (('r, 'h, 'a, 'v) ac_state, agent_control_error, unit) action" where
  "ac_report_state D st h = client_call D (report_call st h)"

definition on_repo ::
  "('r \<Rightarrow> (string + unit) \<times> 'r) \<Rightarrow> (('r, 'h, 'a, 'v) ac_state, agent_control_error, unit) action" where
  "on_repo f s =
     (case f (st_repo s) of (r, repo') \<Rightarrow> (map_err ConfigResolve r, s\<lparr>st_repo := repo'\<rparr>))"

definition version_update ::
  "('r, 'j, 'h, 'a, 'v, 's) ac_deps \<Rightarrow> 'v ac_dynamic_config
   \<Rightarrow> (('r, 'h, 'a, 'v) ac_state, agent_control_error, unit) action" where
  "version_update D dc s =
     (case dep_update D s dc of None \<Rightarrow> Inr () | Some e \<Rightarrow> Inl (UpdaterErr e),
      s\<lparr>st_updates := st_updates s @ [dc]\<rparr>)"

definition clean_resources ::
  "('r, 'j, 'h, 'a, 'v, 's) ac_deps \<Rightarrow> agent_id \<Rightarrow> 'v agent_type_id
   \<Rightarrow> (('r, 'h, 'a, 'v) ac_state, agent_control_error, unit) action" where
  "clean_resources D i ty s =
     (case dep_clean D s i ty of None \<Rightarrow> Inr () | Some e \<Rightarrow> Inl (ResourceCleanerErr e),
      s\<lparr>st_cleaned := st_cleaned s @ [(i, ty)]\<rparr>)"

definition broadcast ::
  "('h, 'a) agent_control_event \<Rightarrow> ('r, 'h, 'a, 'v) ac_state \<Rightarrow> ('r, 'h, 'a, 'v) ac_state" where
  "broadcast ev s = s\<lparr>st_broadcast := st_broadcast s @ [ev]\<rparr>"

section \<open>Building and applying\<close>

text \<open>\<open>build(..)?.run()\<close> followed by the insertion into the collection.\<close>

definition build_and_run_sub_agent ::
  "('r, 'j, 'h, 'a, 'v, 's) ac_deps \<Rightarrow> 'v agent_identity
   \<Rightarrow> (('r, 'h, 'a, 'v) ac_state, agent_control_error, unit) action" where
  "build_and_run_sub_agent D ident s =
     (case dep_build D s ident of
        Some e \<Rightarrow> (Inl (SubAgentBuilderErr e), s)
      | None \<Rightarrow>
          (let sub = \<lparr>sa_instance = st_next s, sa_identity = ident\<rparr>;
               s' = s\<lparr>st_live := st_live s @ [sub], st_next := Suc (st_next s)\<rparr>
           in (Inr (), insert_sub_agent (ai_id ident) sub s')))"

definition recreate_sub_agent ::
  "('r, 'j, 'h, 'a, 'v, 's) ac_deps \<Rightarrow> 'v agent_identity
   \<Rightarrow> (('r, 'h, 'a, 'v) ac_state, agent_control_error, unit) action" where
  "recreate_sub_agent D ident =
     sbind (stop_and_remove (ai_id ident)) (\<lambda>_. build_and_run_sub_agent D ident)"

definition push_error ::
  "agent_id \<Rightarrow> agent_control_error + unit \<Rightarrow> (agent_id \<times> agent_control_error) list
   \<Rightarrow> (agent_id \<times> agent_control_error) list" where
  "push_error i r errs = (case r of Inl e \<Rightarrow> errs @ [(i, e)] | Inr _ \<Rightarrow> errs)"

fun build_and_run_loop ::
  "('r, 'j, 'h, 'a, 'v, 's) ac_deps \<Rightarrow> 'v sub_agents_map \<Rightarrow> (agent_id \<times> agent_control_error) list
   \<Rightarrow> ('r, 'h, 'a, 'v) ac_state \<Rightarrow> (agent_id \<times> agent_control_error) list \<times> ('r, 'h, 'a, 'v) ac_state" where
  "build_and_run_loop D [] errs s = (errs, s)"
| "build_and_run_loop D ((i, cfg) # rest) errs s =
     (case build_and_run_sub_agent D (agent_identity_from i (sac_agent_type cfg)) s of
        (r, s') \<Rightarrow> build_and_run_loop D rest (push_error i r errs) s')"

definition building_result ::
  "(agent_id \<times> agent_control_error) list \<Rightarrow> agent_control_error + unit" where
  "building_result errs = (if errs = [] then Inr () else Inl (BuildingSubagents errs))"

definition build_and_run_sub_agents ::
  "('r, 'j, 'h, 'a, 'v, 's) ac_deps \<Rightarrow> 'v sub_agents_map
   \<Rightarrow> (('r, 'h, 'a, 'v) ac_state, agent_control_error, unit) action" where
  "build_and_run_sub_agents D agents s =
     (case build_and_run_loop D agents [] (s\<lparr>st_running := []\<rparr>) of
        (errs, s') \<Rightarrow> (building_result errs, s'))"

fun apply_agents_loop ::
  "('r, 'j, 'h, 'a, 'v, 's) ac_deps \<Rightarrow> 'v sub_agents_map \<Rightarrow> 'v sub_agents_map
   \<Rightarrow> (agent_id \<times> agent_control_error) list \<Rightarrow> ('r, 'h, 'a, 'v) ac_state
   \<Rightarrow> (agent_id \<times> agent_control_error) list \<times> ('r, 'h, 'a, 'v) ac_state" where
  "apply_agents_loop D current [] errs s = (errs, s)"
| "apply_agents_loop D current ((i, cfg) # rest) errs s =
     (let ident = agent_identity_from i (sac_agent_type cfg);
          (r, s') =
            (case map_of current i of
               Some old \<Rightarrow>
                 if old = cfg then (Inr (), s) else recreate_sub_agent D ident s
             | None \<Rightarrow> build_and_run_sub_agent D ident s)
      in apply_agents_loop D current rest (push_error i r errs) s')"

fun remove_agents_loop ::
  "('r, 'j, 'h, 'a, 'v, 's) ac_deps \<Rightarrow> 'v sub_agents_map
   \<Rightarrow> (agent_id \<times> agent_control_error) list \<Rightarrow> ('r, 'h, 'a, 'v) ac_state
   \<Rightarrow> (agent_id \<times> agent_control_error) list \<times> ('r, 'h, 'a, 'v) ac_state" where
  "remove_agents_loop D [] errs s = (errs, s)"
| "remove_agents_loop D ((i, cfg) # rest) errs s =
     (let (r1, s1) = stop_and_remove i s;
          (r2, s2) = clean_resources D i (sac_agent_type cfg) s1;
          s3 = broadcast (SubAgentRemoved i) s2
      in remove_agents_loop D rest (push_error i r2 (push_error i r1 errs)) s3)"

definition apply_remote_config_agents ::
  "('r, 'j, 'h, 'a, 'v, 's) ac_deps \<Rightarrow> 'v ac_dynamic_config \<Rightarrow> 'v ac_dynamic_config
   \<Rightarrow> (('r, 'h, 'a, 'v) ac_state, agent_control_error, unit) action" where
  "apply_remote_config_agents D current new s =
     (let (errs1, s1) = apply_agents_loop D (adc_agents current) (adc_agents new) [] s;
          (errs2, s2) =
            remove_agents_loop D (sub_agents_difference (adc_agents current) (adc_agents new)) errs1 s1
      in (building_result errs2, s2))"

definition validate_apply_store_remote_config ::
  "('r, 'j, 'h, 'a, 'v, 's) ac_deps \<Rightarrow> 's opamp_remote_config \<Rightarrow> 'v ac_dynamic_config
   \<Rightarrow> (('r, 'h, 'a, 'v) ac_state, agent_control_error, 'v ac_dynamic_config) action" where
  "validate_apply_store_remote_config D c current =
     sbind (slift (case error_message (orc_state c) of
              Some err \<Rightarrow> Inl (RemoteConfigErr (OrcInvalidConfig (orc_hash c) err))
            | None \<Rightarrow> Inr ())) (\<lambda>_.
     sbind (slift (map_err RemoteConfigValidatorErr (dep_validate_remote D (dep_ac_identity D) c)))
       (\<lambda>_.
     sbind (if is_agent_configs_empty c
            then sbind (on_repo (dcr_delete (dep_store D)))
                   (\<lambda>_ s. (map_err ConfigResolve (dcr_load (dep_store D) (st_repo s)), s))
            else slift (map_err ConfigResolve (dynamic_from_remote_config (dep_codec D) c))) (\<lambda>new.
     sbind (slift (map_err RemoteConfigValidatorErr (dep_validate_dynamic D new))) (\<lambda>_.
     sbind (version_update D new) (\<lambda>_.
     sbind (if is_agent_configs_empty c then slift (Inr ())
            else sbind (slift (map_err YAMLConfigErr (yaml_config_from_dynamic (dep_codec D) new)))
                   (\<lambda>yaml. on_repo (dcr_store (dep_store D)
                      \<lparr>rc_config = yaml, rc_hash = orc_hash c, rc_state = orc_state c\<rparr>))) (\<lambda>_.
     sbind (apply_remote_config_agents D current new) (\<lambda>_.
     slift (Inr new))))))))"

text \<open>The arms of the match on the outcome of \<open>validate_apply_store_remote_config\<close>.\<close>

definition finish_ok ::
  "('r, 'j, 'h, 'a, 'v, 's) ac_deps \<Rightarrow> hash \<Rightarrow> 'v ac_dynamic_config
   \<Rightarrow> (('r, 'h, 'a, 'v) ac_state, agent_control_error, 'v ac_dynamic_config) action" where
  "finish_ok D h new =
     sbind (on_repo (dcr_update_state (dep_store D) Applied)) (\<lambda>_.
     sbind (ac_report_state D Applied h) (\<lambda>_.
     sbind (client_call D UpdateEffectiveConfig) (\<lambda>_.
     slift (Inr new))))"

definition finish_partial ::
  "('r, 'j, 'h, 'a, 'v, 's) ac_deps \<Rightarrow> hash \<Rightarrow> (agent_id \<times> agent_control_error) list
   \<Rightarrow> (('r, 'h, 'a, 'v) ac_state, agent_control_error, 'v ac_dynamic_config) action" where
  "finish_partial D h errs =
     (let st = Failed (''Error applying Agent Control remote config for some agents: ''
                 @ building_subagent_errors_fmt errs) in
      sbind (on_repo (dcr_update_state (dep_store D) st)) (\<lambda>_.
      sbind (ac_report_state D st h) (\<lambda>_.
      sbind (client_call D UpdateEffectiveConfig) (\<lambda>_.
      slift (Inl (BuildingSubagents errs))))))"

definition finish_rejected ::
  "('r, 'j, 'h, 'a, 'v, 's) ac_deps \<Rightarrow> hash \<Rightarrow> agent_control_error
   \<Rightarrow> (('r, 'h, 'a, 'v) ac_state, agent_control_error, 'v ac_dynamic_config) action" where
  "finish_rejected D h err =
     (let st = Failed (''Error applying Agent Control remote config: '' @ agent_control_error_fmt err) in
      sbind (ac_report_state D st h) (\<lambda>_. slift (Inl err)))"

definition handle_remote_config ::
  "('r, 'j, 'h, 'a, 'v, 's) ac_deps \<Rightarrow> 's opamp_remote_config \<Rightarrow> 'v ac_dynamic_config
   \<Rightarrow> (('r, 'h, 'a, 'v) ac_state, agent_control_error, 'v ac_dynamic_config) action" where
  "handle_remote_config D c current =
     (if \<not> dep_opamp_enabled D
      then slift (Inl (UnreachablePanic ''got remote config without OpAMP being enabled''))
      else
        sbind (ac_report_state D Applying (orc_hash c)) (\<lambda>_ s.
          case validate_apply_store_remote_config D c current s of
            (Inl (BuildingSubagents errs), s') \<Rightarrow> finish_partial D (orc_hash c) errs s'
          | (Inl err, s') \<Rightarrow> finish_rejected D (orc_hash c) err s'
          | (Inr new, s') \<Rightarrow> finish_ok D (orc_hash c) new s'))"

section \<open>Event loop\<close>

definition report_health ::
  "('r, 'j, 'h, 'a, 'v, 's) ac_deps \<Rightarrow> 'h \<Rightarrow> ('r, 'h, 'a, 'v) ac_state \<Rightarrow> ('r, 'h, 'a, 'v) ac_state" where
  "report_health D health s =
     broadcast (AcHealthUpdated health)
       (if dep_opamp_enabled D then snd (client_call D (SetHealth health) s) else s)"

definition get_description ::
  "('r, 'j, 'h, 'a, 'v, 's) ac_deps
   \<Rightarrow> (('r, 'h, 'a, 'v) ac_state, agent_control_error, 'a agent_description) action" where
  "get_description D s =
     (map_err OpAMPClient (dep_description D s), s\<lparr>st_opamp := st_opamp s @ [GetAgentDescription]\<rparr>)"

definition ac_update_attributes ::
  "('r, 'j, 'h, 'a, 'v, 's) ac_deps \<Rightarrow> 'a agent_description
   \<Rightarrow> (('r, 'h, 'a, 'v) ac_state, agent_control_error, unit) action" where
  "ac_update_attributes D attrs =
     update_opamp_attributes (get_description D) (\<lambda>d. client_call D (SetAgentDescription d)) (dep_into D) attrs"

datatype graceful_shutdown_reason = ExternalRequested | SelfUpdate

datatype ('h, 'a, 's) ac_input =
    OpampInput "'s opamp_event"
  | OpampChannelClosed
  | HealthInput 'h
  | AttributesInput "'a agent_description"
  | SelfUpdateRestartRequested
  | InternalChannelClosed
  | ApplicationStop
  | UptimeTick
  | SelfUpdateRetryTick

text \<open>One turn of the loop: the current configuration and the state, and the reason to leave the loop
  if it ends. The retry of the updater does not touch this state.\<close>

fun ac_step ::
  "('r, 'j, 'h, 'a, 'v, 's) ac_deps \<Rightarrow> ('h, 'a, 's) ac_input
   \<Rightarrow> 'v ac_dynamic_config \<times> ('r, 'h, 'a, 'v) ac_state
   \<Rightarrow> graceful_shutdown_reason option \<times> 'v ac_dynamic_config \<times> ('r, 'h, 'a, 'v) ac_state" where
  "ac_step D (OpampInput (RemoteConfigReceived c)) (current, s) =
     (case handle_remote_config D c current s of
        (Inr new, s') \<Rightarrow> (None, new, s')
      | (Inl _, s') \<Rightarrow> (None, current, s'))"
| "ac_step D (OpampInput Connected) (current, s) = (None, current, broadcast OpAMPConnected s)"
| "ac_step D (OpampInput (ConnectFailed code msg)) (current, s) =
     (None, current, broadcast (OpAMPConnectFailed code msg) s)"
| "ac_step D OpampChannelClosed (current, s) = (None, current, s)"
| "ac_step D (HealthInput health) (current, s) = (None, current, report_health D health s)"
| "ac_step D (AttributesInput attrs) (current, s) =
     (None, current,
      broadcast (AgentDescriptionUpdated attrs)
        (if dep_opamp_enabled D then snd (ac_update_attributes D attrs s) else s))"
| "ac_step D SelfUpdateRestartRequested (current, s) =
     (Some SelfUpdate, current, stop_sub_agents (broadcast AgentControlStopped s))"
| "ac_step D InternalChannelClosed (current, s) = (None, current, s)"
| "ac_step D ApplicationStop (current, s) =
     (Some ExternalRequested, current, stop_sub_agents (broadcast AgentControlStopped s))"
| "ac_step D UptimeTick (current, s) = (None, current, s)"
| "ac_step D SelfUpdateRetryTick (current, s) = (None, current, s)"

text \<open>The loop over the events received so far; \<open>None\<close> while it is still running.\<close>

fun process_events ::
  "('r, 'j, 'h, 'a, 'v, 's) ac_deps \<Rightarrow> ('h, 'a, 's) ac_input list
   \<Rightarrow> 'v ac_dynamic_config \<times> ('r, 'h, 'a, 'v) ac_state
   \<Rightarrow> graceful_shutdown_reason option \<times> 'v ac_dynamic_config \<times> ('r, 'h, 'a, 'v) ac_state" where
  "process_events D [] (current, s) = (None, current, s)"
| "process_events D (ev # evs) (current, s) =
     (case ac_step D ev (current, s) of
        (Some reason, current', s') \<Rightarrow> (Some reason, current', s')
      | (None, current', s') \<Rightarrow> process_events D evs (current', s'))"

text \<open>\<open>run\<close> up to the event loop.\<close>

definition startup_state :: "agent_control_error + unit \<Rightarrow> config_state" where
  "startup_state r =
     (case r of
        Inl e \<Rightarrow> Failed (''Failed to build and start agents: '' @ agent_control_error_fmt e)
      | Inr _ \<Rightarrow> Applied)"

definition ac_start ::
  "('r, 'j, 'h, 'a, 'v, 's) ac_deps \<Rightarrow> 'v ac_dynamic_config
   \<Rightarrow> (('r, 'h, 'a, 'v) ac_state, agent_control_error, unit) action" where
  "ac_start D initial s =
     (case build_and_run_sub_agents D (adc_agents initial) s of
        (r, s1) \<Rightarrow>
          (let st = startup_state r in
           sbind
             (if \<not> dep_opamp_enabled D then slift (Inr ())
              else
                (\<lambda>s. case dcr_get_remote_config (dep_store D) (st_repo s) of
                  Inr (Some rc) \<Rightarrow>
                    if rc_state rc \<noteq> st
                    then sbind (ac_report_state D st (rc_hash rc))
                           (\<lambda>_. sbind (on_repo (dcr_update_state (dep_store D) st))
                              (\<lambda>_. client_call D UpdateEffectiveConfig)) s
                    else client_call D UpdateEffectiveConfig s
                | _ \<Rightarrow> client_call D UpdateEffectiveConfig s))
             (\<lambda>_ s. (Inr (), snd (version_update D initial s))) s1))"

text \<open>\<open>run\<close>: start, process the events, stop the client.\<close>

definition ac_run ::
  "('r, 'j, 'h, 'a, 'v, 's) ac_deps \<Rightarrow> 'v ac_dynamic_config \<Rightarrow> ('h, 'a, 's) ac_input list
   \<Rightarrow> (('r, 'h, 'a, 'v) ac_state, agent_control_error, graceful_shutdown_reason option) action" where
  "ac_run D initial inputs =
     sbind (ac_start D initial) (\<lambda>_ s.
       case process_events D inputs (initial, s) of
         (None, _, s') \<Rightarrow> (Inr None, s')
       | (Some reason, _, s') \<Rightarrow>
           if dep_opamp_enabled D
           then sbind (client_call D StopClient) (\<lambda>_. slift (Inr (Some reason))) s'
           else (Inr (Some reason), s'))"

end
