(* ===== verification/Agent_Control_Sync.thy ===== *)
theory Agent_Control_Sync
  imports Agent_Control
begin

text \<open>
  What Agent Control does to its sub-agents: the collection holds every sub-agent that was started and
  not told to stop (nothing leaks), and the sub-agents it holds are those of the configuration. The
  lemmas follow the two loops of \<open>apply_remote_config_agents\<close>.
\<close>

section \<open>The collection\<close>

definition rmap :: "('r, 'h, 'a, 'v) ac_state \<Rightarrow> agent_id \<Rightarrow> 'v started_sub_agent option" where
  "rmap s = map_of (st_running s)"

definition running_type :: "('r, 'h, 'a, 'v) ac_state \<Rightarrow> agent_id \<Rightarrow> 'v agent_type_id option" where
  "running_type s i = map_option (\<lambda>sub. ai_agent_type_id (sa_identity sub)) (rmap s i)"

definition configured_type :: "'v sub_agents_map \<Rightarrow> agent_id \<Rightarrow> 'v agent_type_id option" where
  "configured_type agents i = map_option sac_agent_type (map_of agents i)"

text \<open>The invariant of the collection: one sub-agent per id, held under its own id, and nothing alive
  outside of the collection; instance numbers in use are below the next one.\<close>

definition coll_ok :: "('r, 'h, 'a, 'v) ac_state \<Rightarrow> bool" where
  "coll_ok s \<longleftrightarrow>
     amap_ok (st_running s) \<and>
     list_all (\<lambda>(i, sub). ai_id (sa_identity sub) = i) (st_running s) \<and>
     mset (st_live s) = mset (map snd (st_running s)) \<and>
     list_all (\<lambda>sub. sa_instance sub < st_next s) (st_live s)"

lemma delete_mset:
  "amap_ok m \<Longrightarrow> map_of m i = Some x \<Longrightarrow> mset m = add_mset (i, x) (mset (AList.delete i m))"
proof (induction m)
  case (Cons kv m)
  obtain k v where kv: "kv = (k, v)" by (cases kv)
  show ?case
  proof (cases "k = i")
    case True
    then have "i \<notin> fst ` set m" using Cons.prems(1) by (simp add: kv amap_ok_def)
    then have "AList.delete i m = m" by (simp add: delete_id)
    then show ?thesis using True Cons.prems(2) by (simp add: kv)
  next
    case False
    then show ?thesis using Cons by (simp add: kv amap_ok_def)
  qed
qed simp

lemma set_delete_subset: "set (AList.delete i m) \<subseteq> set m"
  by (auto simp: AList.delete_eq)

lemma stop_and_remove_ok:
  assumes "stop_and_remove i s = (Inr u, s')" and "coll_ok s"
  shows "coll_ok s' \<and> rmap s' = (rmap s)(i := None) \<and> st_next s' = st_next s"
proof -
  from assms(1) obtain sub where sub: "map_of (st_running s) i = Some sub"
    and s': "s' = stop_sub_agent sub (s\<lparr>st_running := AList.delete i (st_running s)\<rparr>)"
    by (auto simp: stop_and_remove_def split: option.splits)
  have m: "mset (st_running s) = add_mset (i, sub) (mset (AList.delete i (st_running s)))"
    using assms(2) sub by (intro delete_mset) (simp_all add: coll_ok_def)
  have "mset (st_live s) = add_mset sub (mset (map snd (AList.delete i (st_running s))))"
    using assms(2) m by (simp add: coll_ok_def)
  then have "mset (remove1 sub (st_live s)) = mset (map snd (AList.delete i (st_running s)))"
    by simp
  then show ?thesis
    using assms(2) set_delete_subset[of i "st_running s"]
    by (auto simp: s' coll_ok_def stop_sub_agent_def rmap_def list_all_iff dest: notin_set_remove1)
qed

lemma stop_and_remove_err:
  "stop_and_remove i s = (Inl e, s') \<Longrightarrow> s' = s \<and> rmap s i = None"
  by (auto simp: stop_and_remove_def rmap_def split: option.splits)

lemma build_and_run_ok:
  assumes "build_and_run_sub_agent D ident s = (Inr u, s')" and "coll_ok s"
    and "rmap s (ai_id ident) = None"
  shows "coll_ok s' \<and>
    rmap s' = (rmap s)(ai_id ident \<mapsto> \<lparr>sa_instance = st_next s, sa_identity = ident\<rparr>) \<and>
    st_next s' = Suc (st_next s)"
proof -
  have "\<not> ahas (st_running s) (ai_id ident)"
    using assms(3) by (simp add: rmap_def ahas_iff map_of_None_akeys[symmetric])
  then have upd: "AList.update (ai_id ident) sub (st_running s) = st_running s @ [(ai_id ident, sub)]" for sub
    by (rule update_absent)
  let ?sub = "\<lparr>sa_instance = st_next s, sa_identity = ident\<rparr>"
  have s': "s' = insert_sub_agent (ai_id ident) ?sub
      (s\<lparr>st_live := st_live s @ [?sub], st_next := Suc (st_next s)\<rparr>)"
    using assms(1) by (simp add: build_and_run_sub_agent_def Let_def split: option.splits)
  have "rmap s' = (rmap s)(ai_id ident \<mapsto> ?sub)"
    by (simp add: s' rmap_def insert_sub_agent_def)
  moreover have "coll_ok s'"
    using assms(2) \<open>\<not> ahas (st_running s) (ai_id ident)\<close>
    by (auto simp: s' insert_sub_agent_def coll_ok_def amap_ok_def upd list_all_iff ahas_iff
      akeys_def less_Suc_eq)
  ultimately show ?thesis by (simp add: s' insert_sub_agent_def)
qed

lemma build_and_run_err: "build_and_run_sub_agent D ident s = (Inl e, s') \<Longrightarrow> s' = s"
  by (auto simp: build_and_run_sub_agent_def Let_def split: option.splits)

section \<open>Applying a configuration\<close>

text \<open>One agent of the new configuration. \<open>before\<close> is what the collection holds for it according to the
  current configuration.\<close>

definition apply_one ::
  "('r, 'j, 'h, 'a, 'v, 's) ac_deps \<Rightarrow> 'v sub_agents_map \<Rightarrow> agent_id \<Rightarrow> 'v sub_agent_config
   \<Rightarrow> (('r, 'h, 'a, 'v) ac_state, agent_control_error, unit) action" where
  "apply_one D current i cfg s =
     (case map_of current i of
        Some old \<Rightarrow>
          if old = cfg then (Inr (), s)
          else recreate_sub_agent D (agent_identity_from i (sac_agent_type cfg)) s
      | None \<Rightarrow> build_and_run_sub_agent D (agent_identity_from i (sac_agent_type cfg)) s)"

lemma apply_agents_loop_Cons:
  "apply_agents_loop D current ((i, cfg) # rest) errs s =
     (case apply_one D current i cfg s of
        (r, s') \<Rightarrow> apply_agents_loop D current rest (push_error i r errs) s')"
  by (simp add: apply_one_def Let_def)

lemma apply_one_step:
  assumes step: "apply_one D current i cfg s = (r, s')" and ok: "coll_ok s"
    and sync: "running_type s i = configured_type current i"
  shows "coll_ok s' \<and> (\<forall>j. j \<noteq> i \<longrightarrow> rmap s' j = rmap s j) \<and>
    (is_ok r \<longrightarrow> running_type s' i = Some (sac_agent_type cfg)) \<and>
    (map_of current i = Some cfg \<longrightarrow> is_ok r \<and> rmap s' i = rmap s i)"
proof -
  let ?ident = "agent_identity_from i (sac_agent_type cfg)"
  have id: "ai_id ?ident = i" "ai_agent_type_id ?ident = sac_agent_type cfg"
    by (simp_all add: agent_identity_from_def)
  have build: "coll_ok t' \<and> (\<forall>j. j \<noteq> i \<longrightarrow> rmap t' j = rmap t j) \<and>
      (is_ok r \<longrightarrow> running_type t' i = Some (sac_agent_type cfg))"
    if "build_and_run_sub_agent D ?ident t = (r, t')" and "coll_ok t" and "rmap t i = None" for t t'
  proof (cases r)
    case (Inl e)
    then show ?thesis using build_and_run_err[of D ?ident t e t'] that by (simp add: is_ok_def)
  next
    case (Inr u)
    then show ?thesis using build_and_run_ok[of D ?ident t u t'] that id
      by (simp add: running_type_def)
  qed
  show ?thesis
  proof (cases "map_of current i")
    case None
    then have "rmap s i = None" using sync by (simp add: running_type_def configured_type_def)
    then show ?thesis using build[of s s'] step ok None by (simp add: apply_one_def)
  next
    case (Some old)
    show ?thesis
    proof (cases "old = cfg")
      case True
      then show ?thesis using step ok sync Some
        by (auto simp: apply_one_def is_ok_def configured_type_def)
    next
      case False
      then have rec: "recreate_sub_agent D ?ident s = (r, s')"
        using step Some by (simp add: apply_one_def)
      have "rmap s i \<noteq> None" using sync Some by (auto simp: running_type_def configured_type_def)
      then obtain t where t: "stop_and_remove i s = (Inr (), t)"
        using stop_and_remove_err[of i s] by (cases "stop_and_remove i s"; cases "fst (stop_and_remove i s)") auto
      then have b: "build_and_run_sub_agent D ?ident t = (r, s')"
        using rec by (simp add: recreate_sub_agent_def sbind_def id)
      from stop_and_remove_ok[OF t ok] have "coll_ok t" "rmap t = (rmap s)(i := None)" by simp_all
      with build[OF b] False Some show ?thesis by simp
    qed
  qed
qed

lemma apply_loop_step:
  assumes "apply_agents_loop D current rest errs s = (errs', s')" and "coll_ok s"
    and "distinct (map fst rest)"
    and "\<And>i. i \<in> fst ` set rest \<Longrightarrow> running_type s i = configured_type current i"
  shows "coll_ok s' \<and> (\<forall>j. j \<notin> fst ` set rest \<longrightarrow> rmap s' j = rmap s j) \<and>
    (\<exists>more. errs' = errs @ more \<and> fst ` set more \<subseteq> fst ` set rest \<and>
       (\<forall>i cfg. (i, cfg) \<in> set rest \<longrightarrow> i \<notin> fst ` set more \<longrightarrow>
          running_type s' i = Some (sac_agent_type cfg)) \<and>
       (\<forall>i cfg. (i, cfg) \<in> set rest \<longrightarrow> map_of current i = Some cfg \<longrightarrow>
          i \<notin> fst ` set more \<and> rmap s' i = rmap s i))"
  using assms
proof (induction rest arbitrary: errs s)
  case Nil
  then show ?case by auto
next
  case (Cons e rest)
  obtain i cfg where e: "e = (i, cfg)" by (cases e)
  obtain r t where step: "apply_one D current i cfg s = (r, t)" by fastforce
  have loop: "apply_agents_loop D current rest (push_error i r errs) t = (errs', s')"
    using Cons.prems(1) step unfolding e apply_agents_loop_Cons by simp
  have "running_type s i = configured_type current i" using Cons.prems(4) by (simp add: e)
  note one = apply_one_step[OF step Cons.prems(2) this]
  have notin: "i \<notin> fst ` set rest" and dist: "distinct (map fst rest)"
    using Cons.prems(3) by (simp_all add: e)
  have "running_type t j = configured_type current j" if "j \<in> fst ` set rest" for j
  proof -
    have "j \<noteq> i" using that notin by blast
    then show ?thesis using one Cons.prems(4)[of j] that by (simp add: running_type_def e)
  qed
  from Cons.IH[OF loop _ dist this] one obtain more where IH:
    "coll_ok s'" "\<forall>j. j \<notin> fst ` set rest \<longrightarrow> rmap s' j = rmap t j"
    "errs' = push_error i r errs @ more" "fst ` set more \<subseteq> fst ` set rest"
    "\<forall>i cfg. (i, cfg) \<in> set rest \<longrightarrow> i \<notin> fst ` set more \<longrightarrow>
          running_type s' i = Some (sac_agent_type cfg)"
    "\<forall>i cfg. (i, cfg) \<in> set rest \<longrightarrow> map_of current i = Some cfg \<longrightarrow>
          i \<notin> fst ` set more \<and> rmap s' i = rmap t i"
    by blast
  have si: "rmap s' i = rmap t i" using IH(2) notin by blast
  have ni: "(i, c) \<notin> set rest" for c using notin by force
  have tj: "rmap t j = rmap s j" if "(j, c) \<in> set rest" for j c using that one ni by metis
  show ?case
  proof (cases r)
    case (Inl err)
    then have errs': "errs' = errs @ (i, err) # more" using IH(3) by (simp add: push_error_def)
    have "map_of current i \<noteq> Some cfg" using one Inl by (auto simp: is_ok_def)
    then show ?thesis
      using IH one notin ni tj errs' by (intro conjI exI[of _ "(i, err) # more"]) (auto simp: e)
  next
    case (Inr u)
    then have errs': "errs' = errs @ more" using IH(3) by (simp add: push_error_def)
    have "running_type s' i = Some (sac_agent_type cfg)"
      using one Inr si by (simp add: is_ok_def running_type_def)
    then show ?thesis
      using IH one notin ni tj errs' si by (intro conjI exI[of _ more]) (auto simp: e)
  qed
qed


lemma clean_resources_coll:
  "clean_resources D i ty s = (r, s') \<Longrightarrow> st_running s' = st_running s \<and> st_live s' = st_live s \<and>
   st_next s' = st_next s \<and> st_cleaned s' = st_cleaned s @ [(i, ty)] \<and> st_broadcast s' = st_broadcast s \<and>
   st_opamp s' = st_opamp s \<and> st_repo s' = st_repo s"
  by (auto simp: clean_resources_def)

lemma coll_ok_cong:
  "st_running s' = st_running s \<Longrightarrow> st_live s' = st_live s \<Longrightarrow> st_next s' = st_next s \<Longrightarrow>
   coll_ok s' = coll_ok s \<and> rmap s' = rmap s"
  by (simp add: coll_ok_def rmap_def)

lemma remove_one:
  assumes "stop_and_remove i s = (r1, s1)" and "clean_resources D i ty s1 = (r2, s2)" and "coll_ok s"
  shows "coll_ok (broadcast ev s2) \<and> rmap (broadcast ev s2) = (rmap s)(i := None) \<and>
    st_cleaned (broadcast ev s2) = st_cleaned s @ [(i, ty)] \<and>
    st_broadcast (broadcast ev s2) = st_broadcast s @ [ev]"
proof -
  have s1: "coll_ok s1 \<and> rmap s1 = (rmap s)(i := None) \<and> st_cleaned s1 = st_cleaned s \<and>
      st_broadcast s1 = st_broadcast s"
  proof (cases r1)
    case (Inl e)
    then show ?thesis using stop_and_remove_err[of i s e s1] assms(1,3) by auto
  next
    case (Inr u)
    then show ?thesis using stop_and_remove_ok[of i s u s1] assms(1,3)
      by (auto simp: stop_and_remove_def stop_sub_agent_def split: option.splits)
  qed
  note c = clean_resources_coll[OF assms(2)]
  have "coll_ok (broadcast ev s2) = coll_ok s1 \<and> rmap (broadcast ev s2) = rmap s1"
    by (rule coll_ok_cong) (simp_all add: c broadcast_def)
  with s1 c show ?thesis by (simp add: broadcast_def)
qed

lemma remove_loop_step:
  assumes "remove_agents_loop D rem errs s = (errs', s')" and "coll_ok s"
  shows "coll_ok s' \<and> rmap s' = (\<lambda>i. if i \<in> fst ` set rem then None else rmap s i) \<and>
    st_cleaned s' = st_cleaned s @ map (\<lambda>(i, cfg). (i, sac_agent_type cfg)) rem \<and>
    st_broadcast s' = st_broadcast s @ map (\<lambda>(i, _). SubAgentRemoved i) rem \<and>
    (\<exists>more. errs' = errs @ more \<and> fst ` set more \<subseteq> fst ` set rem)"
  using assms
proof (induction rem arbitrary: errs s)
  case Nil
  then show ?case by simp
next
  case (Cons e rem)
  obtain i cfg where e: "e = (i, cfg)" by (cases e)
  obtain r1 s1 where s1: "stop_and_remove i s = (r1, s1)" by fastforce
  obtain r2 s2 where s2: "clean_resources D i (sac_agent_type cfg) s1 = (r2, s2)" by fastforce
  let ?t = "broadcast (SubAgentRemoved i) s2"
  have loop: "remove_agents_loop D rem (push_error i r2 (push_error i r1 errs)) ?t = (errs', s')"
    using Cons.prems(1) by (simp add: e s1 s2)
  note one = remove_one[OF s1 s2 Cons.prems(2), of "SubAgentRemoved i"]
  have "\<exists>first. push_error i r2 (push_error i r1 errs) = errs @ first \<and> fst ` set first \<subseteq> {i}"
    by (cases r1; cases r2) (auto simp: push_error_def)
  then obtain first where first: "push_error i r2 (push_error i r1 errs) = errs @ first"
    "fst ` set first \<subseteq> {i}" by blast
  from Cons.IH[OF loop] one obtain more where
    "errs' = push_error i r2 (push_error i r1 errs) @ more" "fst ` set more \<subseteq> fst ` set rem"
    by blast
  with first have "errs' = errs @ (first @ more) \<and> fst ` set (first @ more) \<subseteq> fst ` set (e # rem)"
    by (auto simp: e image_Un)
  with Cons.IH[OF loop] one show ?case
    by (intro conjI) (auto simp: e fun_eq_iff simp del: set_append)
qed

text \<open>Agents that only the current configuration has.\<close>

lemma difference_keys: "fst ` set (sub_agents_difference old new) = fst ` set old - fst ` set new"
  by (force simp: sub_agents_difference_def ahas_iff akeys_def)

lemma apply_remote_config_agents_effect:
  assumes app: "apply_remote_config_agents D current new s = (r, s')"
    and ok: "coll_ok s" and amaps: "amap_ok (adc_agents new)"
    and sync: "running_type s = configured_type (adc_agents current)"
  shows "coll_ok s' \<and>
    (\<exists>errs. r = building_result errs \<and>
       fst ` set errs \<subseteq> fst ` set (adc_agents current) \<union> fst ` set (adc_agents new) \<and>
       (\<forall>i cfg. (i, cfg) \<in> set (adc_agents new) \<longrightarrow> i \<notin> fst ` set errs \<longrightarrow>
          running_type s' i = Some (sac_agent_type cfg)) \<and>
       (\<forall>i. i \<notin> fst ` set (adc_agents new) \<longrightarrow> rmap s' i = None) \<and>
       (\<forall>i cfg. (i, cfg) \<in> set (adc_agents new) \<longrightarrow> map_of (adc_agents current) i = Some cfg \<longrightarrow>
          i \<notin> fst ` set errs \<and> rmap s' i = rmap s i))"
proof -
  let ?cur = "adc_agents current" and ?new = "adc_agents new"
  let ?rem = "sub_agents_difference ?cur ?new"
  obtain errs1 s1 where l1: "apply_agents_loop D ?cur ?new [] s = (errs1, s1)" by fastforce
  obtain errs2 where l2: "remove_agents_loop D ?rem errs1 s1 = (errs2, s')"
    and r: "r = building_result errs2"
    using app l1 by (auto simp: apply_remote_config_agents_def split: prod.splits)
  have "running_type s i = configured_type ?cur i" for i using sync by simp
  note L1 = apply_loop_step[OF l1 ok amaps[unfolded amap_ok_def] this]
  then obtain L1a: "coll_ok s1" "\<forall>j. j \<notin> fst ` set ?new \<longrightarrow> rmap s1 j = rmap s j"
    "fst ` set errs1 \<subseteq> fst ` set ?new"
    "\<forall>i cfg. (i, cfg) \<in> set ?new \<longrightarrow> i \<notin> fst ` set errs1 \<longrightarrow> running_type s1 i = Some (sac_agent_type cfg)"
    "\<forall>i cfg. (i, cfg) \<in> set ?new \<longrightarrow> map_of ?cur i = Some cfg \<longrightarrow>
       i \<notin> fst ` set errs1 \<and> rmap s1 i = rmap s i"
    by auto
  note L2 = remove_loop_step[OF l2 L1a(1)]
  then obtain more where more: "errs2 = errs1 @ more" "fst ` set more \<subseteq> fst ` set ?cur - fst ` set ?new"
    unfolding difference_keys by blast
  have rmap': "rmap s' i = (if i \<in> fst ` set ?cur - fst ` set ?new then None else rmap s1 i)" for i
    using L2 unfolding difference_keys by simp
  have new_keys: "i \<in> fst ` set ?new" if "(i, cfg) \<in> set ?new" for i cfg using that by force
  have absent: "rmap s i = None" if "i \<notin> fst ` set ?cur" for i
    using sync that by (simp add: running_type_def configured_type_def fun_eq_iff)
      (metis map_of_eq_None_iff option.map_disc_iff)
  have "coll_ok s'" using L2 by blast
  moreover have "fst ` set errs2 \<subseteq> fst ` set ?cur \<union> fst ` set ?new"
    using more L1a(3) by auto
  moreover have "running_type s' i = Some (sac_agent_type cfg)"
    if "(i, cfg) \<in> set ?new" "i \<notin> fst ` set errs2" for i cfg
  proof -
    have "i \<notin> fst ` set errs1" using that(2) more(1) by auto
    moreover have "rmap s' i = rmap s1 i" using rmap'[of i] new_keys[OF that(1)] by simp
    ultimately show ?thesis using L1a(4) that(1) by (simp add: running_type_def)
  qed
  moreover have "rmap s' i = None" if "i \<notin> fst ` set ?new" for i
    using that rmap' L1a(2) absent by auto
  moreover have "i \<notin> fst ` set errs2 \<and> rmap s' i = rmap s i"
    if "(i, cfg) \<in> set ?new" "map_of ?cur i = Some cfg" for i cfg
    using that L1a(5) more new_keys rmap' by auto
  ultimately show ?thesis using r by blast
qed

section \<open>From any state\<close>

text \<open>The same without an invariant to start from: which entries of the collection each step replaces.\<close>

lemma build_and_run_entry:
  assumes "build_and_run_sub_agent D ident s = (r, s')"
  shows "(\<forall>j. j \<noteq> ai_id ident \<longrightarrow> rmap s' j = rmap s j) \<and>
    (is_ok r \<longrightarrow> running_type s' (ai_id ident) = Some (ai_agent_type_id ident))"
  using assms
  by (auto simp: build_and_run_sub_agent_def Let_def insert_sub_agent_def rmap_def running_type_def is_ok_def
    split: option.splits)

lemma stop_and_remove_entry:
  "stop_and_remove i s = (r, s') \<Longrightarrow> rmap s' = (rmap s)(i := None)"
  by (auto simp: stop_and_remove_def stop_sub_agent_def rmap_def fun_eq_iff split: option.splits)

lemma apply_one_entry:
  assumes "apply_one D current i cfg s = (r, s')"
  shows "(\<forall>j. j \<noteq> i \<longrightarrow> rmap s' j = rmap s j) \<and>
    (if map_of current i = Some cfg then is_ok r \<and> s' = s
     else is_ok r \<longrightarrow> running_type s' i = Some (sac_agent_type cfg))"
proof -
  let ?ident = "agent_identity_from i (sac_agent_type cfg)"
  have id: "ai_id ?ident = i" "ai_agent_type_id ?ident = sac_agent_type cfg"
    by (simp_all add: agent_identity_from_def)
  consider (same) "map_of current i = Some cfg" "r = Inr ()" "s' = s"
    | (build) "map_of current i = None" "build_and_run_sub_agent D ?ident s = (r, s')"
    | (recreate) "map_of current i \<noteq> Some cfg" "recreate_sub_agent D ?ident s = (r, s')"
    using assms by (auto simp: apply_one_def split: option.splits if_splits)
  then show ?thesis
  proof cases
    case same
    then show ?thesis by (simp add: is_ok_def)
  next
    case build
    then show ?thesis using build_and_run_entry[OF build(2)] id by simp
  next
    case recreate
    obtain r1 t where t: "stop_and_remove i s = (r1, t)" by fastforce
    then have "s' = t \<and> \<not> is_ok r \<or> build_and_run_sub_agent D ?ident t = (r, s')"
      using recreate(2) by (cases r1) (auto simp: recreate_sub_agent_def sbind_def id is_ok_def)
    then show ?thesis
      using recreate(1) stop_and_remove_entry[OF t] build_and_run_entry[of D ?ident t r s'] id by auto
  qed
qed

lemma apply_loop_entry:
  assumes "apply_agents_loop D current rest errs s = (errs', s')" and "distinct (map fst rest)"
  shows "(\<forall>j. j \<notin> fst ` set rest \<longrightarrow> rmap s' j = rmap s j) \<and>
    (\<exists>more. errs' = errs @ more \<and>
       (\<forall>i cfg. (i, cfg) \<in> set rest \<longrightarrow>
          (if map_of current i = Some cfg then rmap s' i = rmap s i
           else i \<notin> fst ` set more \<longrightarrow> running_type s' i = Some (sac_agent_type cfg))))"
  using assms
proof (induction rest arbitrary: errs s)
  case (Cons e rest)
  obtain i cfg where e: "e = (i, cfg)" by (cases e)
  obtain r t where step: "apply_one D current i cfg s = (r, t)" by fastforce
  have loop: "apply_agents_loop D current rest (push_error i r errs) t = (errs', s')"
    using Cons.prems(1) step unfolding e apply_agents_loop_Cons by simp
  have notin: "i \<notin> fst ` set rest" and dist: "distinct (map fst rest)"
    using Cons.prems(2) by (simp_all add: e)
  note one = apply_one_entry[OF step]
  from Cons.IH[OF loop dist] obtain more where IH:
    "\<forall>j. j \<notin> fst ` set rest \<longrightarrow> rmap s' j = rmap t j" "errs' = push_error i r errs @ more"
    "\<And>i cfg. (i, cfg) \<in> set rest \<Longrightarrow>
       (if map_of current i = Some cfg then rmap s' i = rmap t i
        else i \<notin> fst ` set more \<longrightarrow> running_type s' i = Some (sac_agent_type cfg))"
    by blast
  define first where "first = (case r of Inl err \<Rightarrow> [(i, err)] | Inr _ \<Rightarrow> [])"
  have first: "errs' = errs @ first @ more" "i \<notin> fst ` set first \<longleftrightarrow> is_ok r"
    using IH(2) by (auto simp: first_def push_error_def is_ok_def split: sum.splits)
  have si: "rmap s' i = rmap t i" using IH(1) notin by blast
  have "if map_of current j = Some c then rmap s' j = rmap s j
      else j \<notin> fst ` set (first @ more) \<longrightarrow> running_type s' j = Some (sac_agent_type c)"
    if "(j, c) \<in> set (e # rest)" for j c
  proof (cases "(j, c) = (i, cfg)")
    case True
    then show ?thesis using one si first(2) by (auto simp: running_type_def)
  next
    case False
    then have in_rest: "(j, c) \<in> set rest" using that e by auto
    then have "j \<noteq> i" using notin by force
    then have "rmap t j = rmap s j" using one by simp
    then show ?thesis using IH(3)[OF in_rest] by (auto split: if_splits)
  qed
  moreover have "rmap s' j = rmap s j" if "j \<notin> fst ` set (e # rest)" for j
    using that one IH(1) by (simp add: e)
  ultimately show ?case using first(1) by blast
qed simp

lemma remove_loop_entry:
  assumes "remove_agents_loop D rem errs s = (errs', s')"
  shows "rmap s' = (\<lambda>i. if i \<in> fst ` set rem then None else rmap s i) \<and> (\<exists>more. errs' = errs @ more)"
  using assms
proof (induction rem arbitrary: errs s)
  case (Cons e rem)
  obtain i cfg where e: "e = (i, cfg)" by (cases e)
  obtain r1 s1 where s1: "stop_and_remove i s = (r1, s1)" by fastforce
  obtain r2 s2 where s2: "clean_resources D i (sac_agent_type cfg) s1 = (r2, s2)" by fastforce
  let ?t = "broadcast (SubAgentRemoved i) s2"
  have loop: "remove_agents_loop D rem (push_error i r2 (push_error i r1 errs)) ?t = (errs', s')"
    using Cons.prems by (simp add: e s1 s2)
  have t: "rmap ?t = (rmap s)(i := None)"
    using stop_and_remove_entry[OF s1] clean_resources_coll[OF s2] by (simp add: broadcast_def rmap_def)
  have "\<exists>first. push_error i r2 (push_error i r1 errs) = errs @ first"
    by (cases r1; cases r2) (auto simp: push_error_def)
  with Cons.IH[OF loop] t show ?case by (auto simp: e fun_eq_iff)
qed simp

text \<open>What a configuration does to the entry of each agent: \<open>errs\<close> are the agents that failed.\<close>

definition entries_follow ::
  "'v ac_dynamic_config \<Rightarrow> 'v ac_dynamic_config \<Rightarrow> agent_id set
   \<Rightarrow> ('r, 'h, 'a, 'v) ac_state \<Rightarrow> ('r, 'h, 'a, 'v) ac_state \<Rightarrow> bool" where
  "entries_follow current new failed s s' \<longleftrightarrow>
     (\<forall>i. case map_of (adc_agents new) i of
        Some cfg \<Rightarrow>
          if map_of (adc_agents current) i = Some cfg then map_of (st_running s') i = map_of (st_running s) i
          else i \<notin> failed \<longrightarrow> running_type s' i = Some (sac_agent_type cfg)
      | None \<Rightarrow> map_of (st_running s') i =
          (if i \<in> fst ` set (adc_agents current) then None else map_of (st_running s) i))"

lemma apply_entries:
  assumes app: "apply_remote_config_agents D current new s = (r, s')" and amaps: "amap_ok (adc_agents new)"
  shows "\<exists>errs. r = building_result errs \<and> entries_follow current new (fst ` set errs) s s'"
proof -
  let ?cur = "adc_agents current" and ?new = "adc_agents new"
  let ?rem = "sub_agents_difference ?cur ?new"
  obtain errs1 s1 where l1: "apply_agents_loop D ?cur ?new [] s = (errs1, s1)" by fastforce
  obtain errs2 where l2: "remove_agents_loop D ?rem errs1 s1 = (errs2, s')"
    and r: "r = building_result errs2"
    using app l1 by (auto simp: apply_remote_config_agents_def split: prod.splits)
  have L1: "\<And>j. j \<notin> fst ` set ?new \<Longrightarrow> rmap s1 j = rmap s j"
    "\<And>i cfg. (i, cfg) \<in> set ?new \<Longrightarrow>
       (if map_of ?cur i = Some cfg then rmap s1 i = rmap s i
        else i \<notin> fst ` set errs1 \<longrightarrow> running_type s1 i = Some (sac_agent_type cfg))"
    using apply_loop_entry[OF l1 amaps[unfolded amap_ok_def]] by auto
  obtain more where more: "errs2 = errs1 @ more" using remove_loop_entry[OF l2] by blast
  have rmap': "rmap s' i = (if i \<in> fst ` set ?cur - fst ` set ?new then None else rmap s1 i)" for i
    using remove_loop_entry[OF l2] unfolding difference_keys by simp
  have "case map_of ?new i of
      Some cfg \<Rightarrow> if map_of ?cur i = Some cfg then rmap s' i = rmap s i
        else i \<notin> fst ` set errs2 \<longrightarrow> running_type s' i = Some (sac_agent_type cfg)
    | None \<Rightarrow> rmap s' i = (if i \<in> fst ` set ?cur then None else rmap s i)" for i
  proof (cases "map_of ?new i")
    case None
    then have "i \<notin> fst ` set ?new" by (simp add: map_of_eq_None_iff)
    then show ?thesis using rmap'[of i] L1(1)[of i] None by simp
  next
    case (Some cfg)
    then have "(i, cfg) \<in> set ?new" by (rule map_of_SomeD)
    moreover from this have "rmap s' i = rmap s1 i" using rmap'[of i] by force
    ultimately show ?thesis using L1(2)[of i cfg] more Some by (auto simp: running_type_def)
  qed
  then show ?thesis using r unfolding entries_follow_def rmap_def by blast
qed

end
