(* ===== verification/Agent_Control_Handling.thy ===== *)
theory Agent_Control_Handling
  imports Agent_Control_Sync
begin

text \<open>
  The handling of a remote configuration by Agent Control: when its sub-agents are in sync with a
  configuration, what each step leaves alone, the four ways in which a handling can go, and that a
  handling that succeeds leaves the sub-agents in sync with the new configuration.
\<close>

section \<open>Sub-agents in sync with a configuration\<close>

definition in_sync :: "'v ac_dynamic_config \<Rightarrow> ('r, 'h, 'a, 'v) ac_state \<Rightarrow> bool" where
  "in_sync current s \<longleftrightarrow>
     coll_ok s \<and> amap_ok (adc_agents current) \<and>
     running_type s = configured_type (adc_agents current)"

lemma configured_type_eq:
  "amap_ok agents \<Longrightarrow> configured_type agents i = Some ty \<longleftrightarrow> (\<exists>cfg. (i, cfg) \<in> set agents \<and> ty = sac_agent_type cfg)"
  by (auto simp: configured_type_def amap_ok_def dest: map_of_SomeD)

lemma configured_type_None: "configured_type agents i = None \<longleftrightarrow> i \<notin> fst ` set agents"
  by (simp add: configured_type_def map_of_eq_None_iff)

lemma apply_ok_in_sync:
  assumes "in_sync current s" and "amap_ok (adc_agents new)"
    and "apply_remote_config_agents D current new s = (Inr u, s')"
  shows "in_sync new s' \<and>
    (\<forall>i. map_of (adc_agents current) i = map_of (adc_agents new) i \<longrightarrow> rmap s' i = rmap s i)"
proof -
  from assms(1) have ok: "coll_ok s" and sync: "running_type s = configured_type (adc_agents current)"
    by (simp_all add: in_sync_def)
  obtain errs where ok': "coll_ok s'" and errs: "Inr u = building_result errs"
    and run: "\<forall>i cfg. (i, cfg) \<in> set (adc_agents new) \<longrightarrow> i \<notin> fst ` set errs \<longrightarrow>
          running_type s' i = Some (sac_agent_type cfg)"
    and gone: "\<forall>i. i \<notin> fst ` set (adc_agents new) \<longrightarrow> rmap s' i = None"
    and keep: "\<forall>i cfg. (i, cfg) \<in> set (adc_agents new) \<longrightarrow> map_of (adc_agents current) i = Some cfg \<longrightarrow>
          i \<notin> fst ` set errs \<and> rmap s' i = rmap s i"
    using apply_remote_config_agents_effect[OF assms(3) ok assms(2) sync] by blast
  have nil: "errs = []" using errs by (simp add: building_result_def split: if_splits)
  have "running_type s' i = configured_type (adc_agents new) i" for i
  proof (cases "map_of (adc_agents new) i")
    case None
    then show ?thesis using gone by (simp add: running_type_def configured_type_def map_of_eq_None_iff)
  next
    case (Some cfg)
    then show ?thesis using run nil by (auto simp: configured_type_def dest: map_of_SomeD)
  qed
  moreover have "rmap s' i = rmap s i"
    if eq: "map_of (adc_agents current) i = map_of (adc_agents new) i" for i
  proof (cases "map_of (adc_agents new) i")
    case None
    then have "i \<notin> fst ` set (adc_agents new)" by (simp add: map_of_eq_None_iff)
    moreover have "running_type s i = None" using sync eq None by (simp add: configured_type_def)
    ultimately show ?thesis using gone by (simp add: running_type_def)
  next
    case (Some cfg)
    then show ?thesis using keep eq by (auto dest: map_of_SomeD)
  qed
  ultimately show ?thesis using ok' assms(2) by (auto simp: in_sync_def)
qed

section \<open>What each step leaves alone\<close>

text \<open>The parts of the state the application of a configuration does not touch.\<close>

lemma build_and_run_frame:
  "build_and_run_sub_agent D ident s = (r, s') \<Longrightarrow> st_opamp s' = st_opamp s \<and> st_repo s' = st_repo s"
  by (auto simp: build_and_run_sub_agent_def Let_def insert_sub_agent_def split: option.splits)

lemma stop_and_remove_frame:
  "stop_and_remove i s = (r, s') \<Longrightarrow> st_opamp s' = st_opamp s \<and> st_repo s' = st_repo s"
  by (auto simp: stop_and_remove_def stop_sub_agent_def split: option.splits)

lemma apply_one_frame:
  "apply_one D current i cfg s = (r, s') \<Longrightarrow> st_opamp s' = st_opamp s \<and> st_repo s' = st_repo s"
proof -
  assume one: "apply_one D current i cfg s = (r, s')"
  let ?ident = "agent_identity_from i (sac_agent_type cfg)"
  consider "s' = s" | "build_and_run_sub_agent D ?ident s = (r, s')"
    | "recreate_sub_agent D ?ident s = (r, s')"
    using one by (auto simp: apply_one_def split: option.splits if_splits)
  then show ?thesis
  proof cases
    case 3
    obtain r1 t where t: "stop_and_remove (ai_id ?ident) s = (r1, t)" by fastforce
    then have "s' = t \<or> build_and_run_sub_agent D ?ident t = (r, s')"
      using 3 by (cases r1) (auto simp: recreate_sub_agent_def sbind_def)
    with stop_and_remove_frame[OF t] show ?thesis by (auto dest: build_and_run_frame)
  qed (auto dest: build_and_run_frame)
qed

lemma apply_loop_frame:
  "apply_agents_loop D current rest errs s = (errs', s') \<Longrightarrow>
   st_opamp s' = st_opamp s \<and> st_repo s' = st_repo s"
proof (induction rest arbitrary: errs s)
  case (Cons e rest)
  obtain i cfg where e: "e = (i, cfg)" by (cases e)
  obtain r t where t: "apply_one D current i cfg s = (r, t)" by fastforce
  from Cons.prems have "apply_agents_loop D current rest (push_error i r errs) t = (errs', s')"
    unfolding e apply_agents_loop_Cons t by simp
  from Cons.IH[OF this] apply_one_frame[OF t] show ?case by simp
qed simp

lemma remove_loop_frame:
  "remove_agents_loop D rem errs s = (errs', s') \<Longrightarrow> st_opamp s' = st_opamp s \<and> st_repo s' = st_repo s"
proof (induction rem arbitrary: errs s)
  case (Cons e rem)
  obtain i cfg where e: "e = (i, cfg)" by (cases e)
  obtain r1 s1 where s1: "stop_and_remove i s = (r1, s1)" by fastforce
  obtain r2 s2 where s2: "clean_resources D i (sac_agent_type cfg) s1 = (r2, s2)" by fastforce
  from Cons.prems have loop: "remove_agents_loop D rem (push_error i r2 (push_error i r1 errs))
      (broadcast (SubAgentRemoved i) s2) = (errs', s')"
    by (simp add: e s1 s2)
  from Cons.IH[OF loop] clean_resources_coll[OF s2] stop_and_remove_frame[OF s1] show ?case
    by (simp add: broadcast_def)
qed simp

lemma apply_agents_frame:
  "apply_remote_config_agents D current new s = (r, s') \<Longrightarrow>
   st_opamp s' = st_opamp s \<and> st_repo s' = st_repo s"
proof -
  assume app: "apply_remote_config_agents D current new s = (r, s')"
  obtain errs1 s1 where l1: "apply_agents_loop D (adc_agents current) (adc_agents new) [] s = (errs1, s1)"
    by fastforce
  obtain errs2 where l2: "remove_agents_loop D
      (sub_agents_difference (adc_agents current) (adc_agents new)) errs1 s1 = (errs2, s')"
    using app l1 by (auto simp: apply_remote_config_agents_def split: prod.splits)
  show ?thesis using apply_loop_frame[OF l1] remove_loop_frame[OF l2] by simp
qed

lemma apply_agents_result:
  "apply_remote_config_agents D current new s = (Inl e, s') \<Longrightarrow> \<exists>errs. e = BuildingSubagents errs"
  by (auto simp: apply_remote_config_agents_def building_result_def split: prod.splits if_splits)

lemma client_call_frame:
  "client_call D c s = (r, s') \<Longrightarrow> s' = s\<lparr>st_opamp := st_opamp s @ [c]\<rparr>"
  by (simp add: client_call_def)

lemma on_repo_frame: "on_repo f s = (r, s') \<Longrightarrow> \<exists>repo'. s' = s\<lparr>st_repo := repo'\<rparr>"
  by (auto simp: on_repo_def split: prod.splits)

text \<open>The part of the handling before the sub-agents are touched: the new configuration and the state
  in which it is applied.\<close>

definition prepare_remote_config ::
  "('r, 'j, 'h, 'a, 'v, 's) ac_deps \<Rightarrow> 's opamp_remote_config
   \<Rightarrow> (('r, 'h, 'a, 'v) ac_state, agent_control_error, 'v ac_dynamic_config) action" where
  "prepare_remote_config D c =
     sbind (slift (case error_message (orc_state c) of
              Some err \<Rightarrow> Inl (RemoteConfigErr (OrcInvalidConfig (orc_hash c) err))
            | None \<Rightarrow> Inr ())) (\<lambda>_.
     sbind (slift (map_err RemoteConfigValidatorErr (dep_validate_remote D (dep_ac_identity D) c)))
       (\<lambda>_.
     sbind (if is_agent_configs_empty c
            then sbind (on_repo (dcr_delete (dep_store D)))
                   (\<lambda>_ s. (map_err ConfigResolve (dcr_load (dep_store D) (st_repo s)), s))
            else slift (map_err ConfigResolve (dynamic_from_remote_config (dep_codec D) c))) (\<lambda>new.
     sbind (slift (map_err RemoteConfigValidatorErr (dep_validate_dynamic D new))) (\<lambda>_.
     sbind (version_update D new) (\<lambda>_.
     sbind (if is_agent_configs_empty c then slift (Inr ())
            else sbind (slift (map_err YAMLConfigErr (yaml_config_from_dynamic (dep_codec D) new)))
                   (\<lambda>yaml. on_repo (dcr_store (dep_store D)
                      \<lparr>rc_config = yaml, rc_hash = orc_hash c, rc_state = orc_state c\<rparr>))) (\<lambda>_.
     slift (Inr new)))))))"

lemma sbind_assoc: "sbind (sbind m f) g = sbind m (\<lambda>x. sbind (f x) g)"
  by (auto simp: sbind_def fun_eq_iff split: prod.splits sum.splits)

lemma sbind_slift_Inr [simp]: "sbind (slift (Inr x)) f = f x"
  by (simp add: sbind_def slift_def fun_eq_iff)

lemma validate_apply_store_split:
  "validate_apply_store_remote_config D c current =
     sbind (prepare_remote_config D c)
       (\<lambda>new. sbind (apply_remote_config_agents D current new) (\<lambda>_. slift (Inr new)))"
  unfolding validate_apply_store_remote_config_def prepare_remote_config_def sbind_assoc
    sbind_slift_Inr ..

text \<open>Two facts about an action that compose along \<open>sbind\<close>: how it may move the state, and which
  errors it may raise.\<close>

definition moves :: "('s \<Rightarrow> 's \<Rightarrow> bool) \<Rightarrow> ('s, 'e, 'a) action \<Rightarrow> bool" where
  "moves R m \<longleftrightarrow> (\<forall>s. R s (snd (m s)))"

definition raises :: "('e \<Rightarrow> bool) \<Rightarrow> ('s, 'e, 'a) action \<Rightarrow> bool" where
  "raises E m \<longleftrightarrow> (\<forall>s e s'. m s = (Inl e, s') \<longrightarrow> E e)"

lemma moves_sbind:
  assumes "transp R" and "moves R m" and "\<And>x. moves R (f x)"
  shows "moves R (sbind m f)"
  unfolding moves_def
proof
  fix s
  obtain r s' where m: "m s = (r, s')" by fastforce
  then have "R s s'" using assms(2) by (metis moves_def snd_conv)
  then show "R s (snd (sbind m f s))"
    using assms(3) m transpD[OF assms(1) \<open>R s s'\<close>] by (cases r) (auto simp: sbind_def moves_def)
qed

lemma moves_slift: "reflp R \<Longrightarrow> moves R (slift r)"
  by (simp add: moves_def slift_def reflp_def)

lemma raises_sbind: "raises E m \<Longrightarrow> (\<And>x. raises E (f x)) \<Longrightarrow> raises E (sbind m f)"
  unfolding raises_def by (metis sbind_eq_Inl)

lemma raises_slift_Inr: "raises E (slift (Inr x))"
  by (simp add: raises_def slift_def)

lemma raises_slift_map_err: "(\<And>e. E (h e)) \<Longrightarrow> raises E (slift (map_err h r))"
  by (cases r) (auto simp: raises_def slift_def)

text \<open>The sub-agents, the resources cleaned, the events and the calls to the client stay the same.\<close>

definition same_agents :: "('r, 'h, 'a, 'v) ac_state \<Rightarrow> ('r, 'h, 'a, 'v) ac_state \<Rightarrow> bool" where
  "same_agents s s' \<longleftrightarrow>
     st_opamp s' = st_opamp s \<and> st_running s' = st_running s \<and> st_live s' = st_live s \<and>
     st_next s' = st_next s \<and> st_cleaned s' = st_cleaned s \<and> st_broadcast s' = st_broadcast s"

lemma same_agents_order: "transp same_agents" "reflp same_agents"
  by (auto simp: transp_def reflp_def same_agents_def)

lemma same_agents_steps:
  "moves same_agents (on_repo f)" "moves same_agents (version_update D dc)"
  "moves same_agents (\<lambda>s. (g s, s))"
  by (auto simp: moves_def same_agents_def on_repo_def version_update_def split: prod.splits)

lemma prepare_same_agents: "moves same_agents (prepare_remote_config D c)"
  unfolding prepare_remote_config_def
  by (auto intro!: moves_sbind moves_slift same_agents_order same_agents_steps)

lemma prepare_frame: "prepare_remote_config D c s = (r, s') \<Longrightarrow> same_agents s s'"
  using prepare_same_agents[of D c] by (metis moves_def snd_conv)

definition not_building :: "agent_control_error \<Rightarrow> bool" where
  "not_building e \<longleftrightarrow> (\<forall>errs. e \<noteq> BuildingSubagents errs)"

lemma not_building_simps [simp]:
  "not_building (ConfigResolve m)" "not_building (RemoteConfigErr x)" "not_building (YAMLConfigErr m)"
  "not_building (RemoteConfigValidatorErr m)" "not_building (UpdaterErr m)" "not_building (OpAMPClient m)"
  "not_building (UnreachablePanic m)" "\<not> not_building (BuildingSubagents errs)"
  by (simp_all add: not_building_def)

lemma raises_steps:
  "raises not_building (on_repo f)" "raises not_building (version_update D dc)"
  "raises not_building (\<lambda>s. (map_err ConfigResolve (g s), s))"
  by (auto simp: raises_def on_repo_def version_update_def map_err_eq_Inl split: prod.splits option.splits)

lemma prepare_raises: "raises not_building (prepare_remote_config D c)"
proof -
  have "raises not_building (slift (case error_message (orc_state c) of
              Some err \<Rightarrow> Inl (RemoteConfigErr (OrcInvalidConfig (orc_hash c) err))
            | None \<Rightarrow> Inr ()))"
    by (auto simp: raises_def slift_def split: option.splits)
  then show ?thesis
    unfolding prepare_remote_config_def
    by (auto intro!: raises_sbind raises_slift_map_err raises_slift_Inr raises_steps)
qed

lemma prepare_not_building: "prepare_remote_config D c s = (Inl e, s') \<Longrightarrow> not_building e"
  using prepare_raises[of D c] by (auto simp: raises_def)

lemma prepare_amap:
  assumes "prepare_remote_config D c s = (Inr new, s')"
    and "\<And>r dc. dcr_load (dep_store D) r = Inr dc \<Longrightarrow> amap_ok (adc_agents dc)"
  shows "amap_ok (adc_agents new)"
proof -
  have "(\<exists>r. dcr_load (dep_store D) r = Inr new) \<or> dynamic_from_remote_config (dep_codec D) c = Inr new"
    using assms(1)
    by (auto simp: prepare_remote_config_def sbind_eq_Inr slift_eq split: if_splits)
  then show ?thesis using assms(2) dynamic_config_agents_union by blast
qed

section \<open>Handling a remote configuration\<close>

text \<open>What runs. The new configuration comes from \<open>prepare_remote_config\<close>; the rest of the handling
  only reports and stores.\<close>

lemma report_frame:
  "ac_report_state D st h s = (r, s') \<Longrightarrow> s' = s\<lparr>st_opamp := st_opamp s @ [report_call st h]\<rparr>"
  by (simp add: ac_report_state_def client_call_def)

definition same_collection :: "('r, 'h, 'a, 'v) ac_state \<Rightarrow> ('r, 'h, 'a, 'v) ac_state \<Rightarrow> bool" where
  "same_collection s s' \<longleftrightarrow>
     st_running s' = st_running s \<and> st_live s' = st_live s \<and> st_next s' = st_next s \<and>
     st_cleaned s' = st_cleaned s \<and> st_broadcast s' = st_broadcast s"

lemma same_collection_order: "transp same_collection" "reflp same_collection"
  by (auto simp: transp_def reflp_def same_collection_def)

lemma same_collection_steps:
  "moves same_collection (on_repo f)" "moves same_collection (client_call D c)"
  "moves same_collection (ac_report_state D st h)"
  by (auto simp: moves_def same_collection_def on_repo_def client_call_def ac_report_state_def
    split: prod.splits)

lemma same_agents_collection: "same_agents s s' \<Longrightarrow> same_collection s s'"
  by (simp add: same_agents_def same_collection_def)

lemma same_collection_sync:
  "same_collection s s' \<Longrightarrow> in_sync current s' = in_sync current s \<and> rmap s' = rmap s"
  by (simp add: same_collection_def in_sync_def coll_ok_def running_type_def rmap_def fun_eq_iff)

lemma handle_cases:
  assumes "handle_remote_config D c current s = (r, s')" and "dep_opamp_enabled D"
  obtains (not_reported) e where "r = Inl e" "s' = s\<lparr>st_opamp := st_opamp s @ [report_call Applying (orc_hash c)]\<rparr>"
      "dep_client D s (report_call Applying (orc_hash c)) \<noteq> None"
    | (rejected) e s1 where "dep_client D s (report_call Applying (orc_hash c)) = None"
        "prepare_remote_config D c (s\<lparr>st_opamp := st_opamp s @ [report_call Applying (orc_hash c)]\<rparr>) = (Inl e, s1)"
        "finish_rejected D (orc_hash c) e s1 = (r, s')"
    | (partial) new s1 errs s2 where "dep_client D s (report_call Applying (orc_hash c)) = None"
        "prepare_remote_config D c (s\<lparr>st_opamp := st_opamp s @ [report_call Applying (orc_hash c)]\<rparr>) = (Inr new, s1)"
        "apply_remote_config_agents D current new s1 = (Inl (BuildingSubagents errs), s2)"
        "finish_partial D (orc_hash c) errs s2 = (r, s')"
    | (applied) new s1 s2 where "dep_client D s (report_call Applying (orc_hash c)) = None"
        "prepare_remote_config D c (s\<lparr>st_opamp := st_opamp s @ [report_call Applying (orc_hash c)]\<rparr>) = (Inr new, s1)"
        "apply_remote_config_agents D current new s1 = (Inr (), s2)"
        "finish_ok D (orc_hash c) new s2 = (r, s')"
proof -
  let ?s0 = "s\<lparr>st_opamp := st_opamp s @ [report_call Applying (orc_hash c)]\<rparr>"
  let ?k = "\<lambda>s. case validate_apply_store_remote_config D c current s of
            (Inl (BuildingSubagents errs), s') \<Rightarrow> finish_partial D (orc_hash c) errs s'
          | (Inl err, s') \<Rightarrow> finish_rejected D (orc_hash c) err s'
          | (Inr new, s') \<Rightarrow> finish_ok D (orc_hash c) new s'"
  have h: "handle_remote_config D c current s = sbind (ac_report_state D Applying (orc_hash c)) (\<lambda>_. ?k) s"
    using assms(2)
    by (simp add: handle_remote_config_def)
  show thesis
  proof (cases "dep_client D s (report_call Applying (orc_hash c))")
    case (Some e)
    then have "handle_remote_config D c current s = (Inl (OpAMPClient e), ?s0)"
      unfolding h by (simp add: sbind_def ac_report_state_def client_call_def)
    with assms(1) Some show thesis by (intro not_reported[of "OpAMPClient e"]) simp_all
  next
    case None
    then have k: "?k ?s0 = (r, s')"
      using assms(1) unfolding h by (simp add: sbind_def ac_report_state_def client_call_def)
    obtain p s1 where p: "prepare_remote_config D c ?s0 = (p, s1)" by fastforce
    show thesis
    proof (cases p)
      case (Inl e)
      then have nb: "not_building e" using p prepare_not_building by blast
      have "validate_apply_store_remote_config D c current ?s0 = (Inl e, s1)"
        using p Inl by (simp add: validate_apply_store_split sbind_def)
      then have "finish_rejected D (orc_hash c) e s1 = (r, s')"
        using k nb by (cases e) simp_all
      with None p Inl show thesis by (intro rejected[of e s1]) simp_all
    next
      case (Inr new)
      obtain a s2 where a: "apply_remote_config_agents D current new s1 = (a, s2)" by fastforce
      show thesis
      proof (cases a)
        case (Inl e)
        with a apply_agents_result obtain errs where e: "e = BuildingSubagents errs" by blast
        have "validate_apply_store_remote_config D c current ?s0 = (Inl e, s2)"
          using p Inr a Inl by (simp add: validate_apply_store_split sbind_def)
        then show thesis using None p Inr a Inl e k by (intro partial[of new s1 errs s2]) simp_all
      next
        case Ok: (Inr u)
        have "validate_apply_store_remote_config D c current ?s0 = (Inr new, s2)"
          using p Inr a Ok by (simp add: validate_apply_store_split sbind_def slift_def)
        then show thesis using None p Inr a Ok k by (intro applied[of new s1 s2]) simp_all
      qed
    qed
  qed
qed

lemma finish_same_collection:
  "moves same_collection (finish_ok D h new)" "moves same_collection (finish_partial D h errs)"
  "moves same_collection (finish_rejected D h e)"
  unfolding finish_ok_def finish_partial_def finish_rejected_def Let_def
  by (auto intro!: moves_sbind moves_slift same_collection_order same_collection_steps)

lemma movesD: "moves R m \<Longrightarrow> m s = (r, s') \<Longrightarrow> R s s'"
  by (metis moves_def snd_conv)

lemma finish_ok_Inr:
  "finish_ok D h new s = (Inr x, s') \<Longrightarrow>
   x = new \<and> dcr_update_state (dep_store D) Applied (st_repo s) = (Inr (), st_repo s') \<and>
   st_opamp s' = st_opamp s @ [report_call Applied h, UpdateEffectiveConfig]"
  by (auto simp: finish_ok_def sbind_eq_Inr slift_eq on_repo_def ac_report_state_def client_call_def
    split: prod.splits)

lemma finish_partial_not_ok: "finish_partial D h errs s \<noteq> (Inr x, s')"
  by (auto simp: finish_partial_def Let_def sbind_eq_Inr slift_eq)

lemma finish_rejected_not_ok: "finish_rejected D h e s \<noteq> (Inr x, s')"
  by (auto simp: finish_rejected_def Let_def sbind_eq_Inr slift_eq)

text \<open>The store reads configurations whose agents form a map.\<close>

definition loads_maps :: "('r, 'j, 'h, 'a, 'v, 's) ac_deps \<Rightarrow> bool" where
  "loads_maps D \<longleftrightarrow> (\<forall>r dc. dcr_load (dep_store D) r = Inr dc \<longrightarrow> amap_ok (adc_agents dc))"

lemma handle_ok_Inr:
  assumes "handle_remote_config D c current s = (Inr new, s')" and "dep_opamp_enabled D"
  obtains s1 s2 where
    "prepare_remote_config D c (s\<lparr>st_opamp := st_opamp s @ [report_call Applying (orc_hash c)]\<rparr>) = (Inr new, s1)"
    "apply_remote_config_agents D current new s1 = (Inr (), s2)"
    "finish_ok D (orc_hash c) new s2 = (Inr new, s')"
  using assms
proof (cases rule: handle_cases)
  case (applied new' s1 s2)
  from finish_ok_Inr[OF applied(4)] have "new' = new" by simp
  with applied(2-4) that show thesis by blast
qed (auto simp: finish_partial_not_ok finish_rejected_not_ok)

lemma handle_ok_in_sync:
  assumes "handle_remote_config D c current s = (Inr new, s')" and "dep_opamp_enabled D"
    and "loads_maps D" and "in_sync current s"
  shows "in_sync new s' \<and>
    (\<forall>i. map_of (adc_agents current) i = map_of (adc_agents new) i \<longrightarrow> rmap s' i = rmap s i)"
proof -
  let ?s0 = "s\<lparr>st_opamp := st_opamp s @ [report_call Applying (orc_hash c)]\<rparr>"
  obtain s1 s2 where p: "prepare_remote_config D c ?s0 = (Inr new, s1)"
    and a: "apply_remote_config_agents D current new s1 = (Inr (), s2)"
    and f: "finish_ok D (orc_hash c) new s2 = (Inr new, s')"
    using handle_ok_Inr[OF assms(1,2)] by blast
  have "same_collection s s1"
    using same_agents_collection[OF prepare_frame[OF p]] by (simp add: same_collection_def)
  then have s1: "in_sync current s1" "rmap s1 = rmap s" using same_collection_sync assms(4) by blast+
  have "amap_ok (adc_agents new)"
    using prepare_amap[OF p] assms(3) by (auto simp: loads_maps_def)
  note app = apply_ok_in_sync[OF s1(1) this a]
  have "in_sync new s' = in_sync new s2 \<and> rmap s' = rmap s2"
    using same_collection_sync[OF movesD[OF finish_same_collection(1) f]] .
  with app s1(2) show ?thesis by simp
qed

lemma entries_follow_cong:
  "same_collection s s1 \<Longrightarrow> same_collection s2 s' \<Longrightarrow>
   entries_follow current new failed s s' = entries_follow current new failed s1 s2"
  by (simp add: same_collection_def entries_follow_def running_type_def rmap_def cong: option.case_cong)

lemma handle_ok_entries:
  assumes "handle_remote_config D c current s = (Inr new, s')" and "dep_opamp_enabled D" and "loads_maps D"
  shows "entries_follow current new {} s s'"
proof -
  let ?s0 = "s\<lparr>st_opamp := st_opamp s @ [report_call Applying (orc_hash c)]\<rparr>"
  obtain s1 s2 where p: "prepare_remote_config D c ?s0 = (Inr new, s1)"
    and a: "apply_remote_config_agents D current new s1 = (Inr (), s2)"
    and f: "finish_ok D (orc_hash c) new s2 = (Inr new, s')"
    using handle_ok_Inr[OF assms(1,2)] by blast
  have s1: "same_collection s s1"
    using same_agents_collection[OF prepare_frame[OF p]] by (simp add: same_collection_def)
  have "amap_ok (adc_agents new)" using prepare_amap[OF p] assms(3) by (auto simp: loads_maps_def)
  from apply_entries[OF a this] have "entries_follow current new {} s1 s2"
    by (auto simp: building_result_def split: if_splits)
  then show ?thesis using entries_follow_cong[OF s1 movesD[OF finish_same_collection(1) f]] by blast
qed

text \<open>A configuration that is rejected before it is applied changes nothing about the sub-agents.\<close>

definition rejected_early ::
  "('r, 'j, 'h, 'a, 'v, 's) ac_deps \<Rightarrow> 's opamp_remote_config \<Rightarrow> ('r, 'h, 'a, 'v) ac_state \<Rightarrow> bool" where
  "rejected_early D c s \<longleftrightarrow>
     dep_client D s (report_call Applying (orc_hash c)) \<noteq> None \<or>
     \<not> is_ok (fst (prepare_remote_config D c
                   (s\<lparr>st_opamp := st_opamp s @ [report_call Applying (orc_hash c)]\<rparr>)))"

lemma rejected_early_collection:
  assumes "handle_remote_config D c current s = (r, s')" and "dep_opamp_enabled D"
    and "rejected_early D c s"
  shows "same_collection s s' \<and> \<not> is_ok r"
proof -
  let ?s0 = "s\<lparr>st_opamp := st_opamp s @ [report_call Applying (orc_hash c)]\<rparr>"
  have s0: "same_collection s ?s0" by (simp add: same_collection_def)
  from assms(1,2) show ?thesis
  proof (cases rule: handle_cases)
    case (not_reported e)
    then show ?thesis using s0 by (simp add: is_ok_def)
  next
    case (rejected e s1)
    have "same_collection ?s0 s1" using same_agents_collection[OF prepare_frame[OF rejected(2)]] .
    moreover have "same_collection s1 s'" using movesD[OF finish_same_collection(3) rejected(3)] .
    ultimately have "same_collection s s'"
      using s0 same_collection_order(1) by (metis transpD)
    moreover have "\<not> is_ok r"
      using rejected(3) finish_rejected_not_ok[of D "orc_hash c" e s1] by (cases r) (simp_all add: is_ok_def)
    ultimately show ?thesis by blast
  next
    case (partial new s1 errs s2)
    then show ?thesis using assms(3) by (simp add: rejected_early_def is_ok_def)
  next
    case (applied new s1 s2)
    then show ?thesis using assms(3) by (simp add: rejected_early_def is_ok_def)
  qed
qed

end
