(* ===== verification/Agent_Control_Loop.thy ===== *)
theory Agent_Control_Loop
  imports Agent_Control_Handling
begin

text \<open>
  Agent Control as a transition system: the start of \<open>run\<close> followed by the turns of the event loop.
  Two invariants of its reachable states are proved, one for every run and a stronger one for the runs
  in which no remote configuration failed halfway, and what is left running when the loop ends. The
  second part is about what is reported to the server and stored while a configuration is handled.
\<close>

section \<open>Reachable states\<close>

text \<open>A process starts with no sub-agent, and with some current content of the repository.\<close>

definition fresh :: "('r, 'h, 'a, 'v) ac_state \<Rightarrow> bool" where
  "fresh s \<longleftrightarrow> st_running s = [] \<and> st_live s = []"

inductive ac_reach ::
  "('r, 'j, 'h, 'a, 'v, 's) ac_deps \<Rightarrow> 'v ac_dynamic_config \<times> ('r, 'h, 'a, 'v) ac_state \<Rightarrow> bool"
  for D :: "('r, 'j, 'h, 'a, 'v, 's) ac_deps" where
  ac_reach_start: "fresh s0 \<Longrightarrow> ac_start D initial s0 = (Inr u, s) \<Longrightarrow> ac_reach D (initial, s)"
| ac_reach_step: "ac_reach D (current, s) \<Longrightarrow> ac_step D ev (current, s) = (None, current', s') \<Longrightarrow>
    ac_reach D (current', s')"

text \<open>A turn is clean unless it handled a remote configuration that failed after its sub-agents were
  touched; a start is clean when every sub-agent of the initial configuration was built.\<close>

fun clean_input ::
  "('r, 'j, 'h, 'a, 'v, 's) ac_deps \<Rightarrow> ('h, 'a, 's) ac_input
   \<Rightarrow> 'v ac_dynamic_config \<times> ('r, 'h, 'a, 'v) ac_state \<Rightarrow> bool" where
  "clean_input D (OpampInput (RemoteConfigReceived c)) (current, s) =
     (is_ok (fst (handle_remote_config D c current s)) \<or> rejected_early D c s)"
| "clean_input D _ _ = True"

inductive clean_reach ::
  "('r, 'j, 'h, 'a, 'v, 's) ac_deps \<Rightarrow> 'v ac_dynamic_config \<times> ('r, 'h, 'a, 'v) ac_state \<Rightarrow> bool"
  for D :: "('r, 'j, 'h, 'a, 'v, 's) ac_deps" where
  clean_start: "fresh s0 \<Longrightarrow> amap_ok (adc_agents initial) \<Longrightarrow>
    is_ok (fst (build_and_run_sub_agents D (adc_agents initial) s0)) \<Longrightarrow>
    ac_start D initial s0 = (Inr u, s) \<Longrightarrow> clean_reach D (initial, s)"
| clean_step: "clean_reach D (current, s) \<Longrightarrow> clean_input D ev (current, s) \<Longrightarrow>
    ac_step D ev (current, s) = (None, current', s') \<Longrightarrow> clean_reach D (current', s')"

lemma clean_reach_ac_reach: "clean_reach D cs \<Longrightarrow> ac_reach D cs"
  by (induction rule: clean_reach.induct) (blast intro: ac_reach.intros)+

section \<open>Invariants of the collection\<close>

text \<open>The turns that do not handle a remote configuration leave the collection and the current
  configuration alone.\<close>

definition handles_config :: "('h, 'a, 's) ac_input \<Rightarrow> bool" where
  "handles_config ev \<longleftrightarrow> (\<exists>c. ev = OpampInput (RemoteConfigReceived c))"

lemma other_step:
  assumes "ac_step D ev (current, s) = (None, current', s')" and "\<not> handles_config ev"
  shows "current' = current \<and> st_running s' = st_running s \<and> st_live s' = st_live s \<and> st_next s' = st_next s"
  using assms
  by (cases "(D, ev, (current, s))" rule: ac_step.cases)
     (auto simp: handles_config_def broadcast_def report_health_def ac_update_attributes_def
        update_opamp_attributes_def get_description_def client_call_def sbind_def split: sum.splits)

lemma config_step:
  assumes "ac_step D ev (current, s) = (None, current', s')" and "handles_config ev"
  obtains c r where "ev = OpampInput (RemoteConfigReceived c)"
    and "handle_remote_config D c current s = (r, s')" and "r = Inr current' \<or> \<not> is_ok r \<and> current' = current"
proof -
  from assms(2) obtain c where c: "ev = OpampInput (RemoteConfigReceived c)" by (auto simp: handles_config_def)
  obtain r t where h: "handle_remote_config D c current s = (r, t)" by fastforce
  then have "t = s' \<and> (r = Inr current' \<or> \<not> is_ok r \<and> current' = current)"
    using assms(1) c by (cases r) (auto simp: is_ok_def)
  with c h that show thesis by blast
qed

text \<open>A property of the collection that stopping one sub-agent and building one sub-agent keep is kept by
  the handling of every remote configuration, and by every turn of the loop that does not end it.\<close>

locale collection_invariant =
  fixes D :: "('r, 'j, 'h, 'a, 'v, 's) ac_deps" and keeps :: "('r, 'h, 'a, 'v) ac_state \<Rightarrow> bool"
  assumes keeps_cong: "st_running s' = st_running s \<Longrightarrow> st_live s' = st_live s \<Longrightarrow> st_next s' = st_next s \<Longrightarrow>
      keeps s \<Longrightarrow> keeps s'"
    and keeps_stop: "stop_and_remove i s = (r, s') \<Longrightarrow> keeps s \<Longrightarrow> keeps s'"
    and keeps_build: "build_and_run_sub_agent D ident s = (r, s') \<Longrightarrow> keeps s \<Longrightarrow> keeps s'"
begin

lemma keeps_same: "same_collection s s' \<Longrightarrow> keeps s \<Longrightarrow> keeps s'"
  by (rule keeps_cong[of s' s]) (simp_all add: same_collection_def)

lemma keeps_apply_one:
  assumes "apply_one D current i cfg s = (r, s')" and "keeps s"
  shows "keeps s'"
proof -
  let ?ident = "agent_identity_from i (sac_agent_type cfg)"
  consider "s' = s" | "build_and_run_sub_agent D ?ident s = (r, s')"
    | "recreate_sub_agent D ?ident s = (r, s')"
    using assms(1) by (auto simp: apply_one_def split: option.splits if_splits)
  then show ?thesis
  proof cases
    case 3
    obtain r1 t where t: "stop_and_remove (ai_id ?ident) s = (r1, t)" by fastforce
    then have "s' = t \<or> build_and_run_sub_agent D ?ident t = (r, s')"
      using 3 by (cases r1) (auto simp: recreate_sub_agent_def sbind_def)
    then show ?thesis using keeps_stop[OF t assms(2)] keeps_build by blast
  qed (use assms(2) keeps_build in blast)+
qed

lemma keeps_apply_loop:
  "apply_agents_loop D current rest errs s = (errs', s') \<Longrightarrow> keeps s \<Longrightarrow> keeps s'"
proof (induction rest arbitrary: errs s)
  case (Cons e rest)
  obtain i cfg where e: "e = (i, cfg)" by (cases e)
  obtain r t where t: "apply_one D current i cfg s = (r, t)" by fastforce
  from Cons.prems(1) have "apply_agents_loop D current rest (push_error i r errs) t = (errs', s')"
    unfolding e apply_agents_loop_Cons t by simp
  from Cons.IH[OF this keeps_apply_one[OF t Cons.prems(2)]] show ?case .
qed simp

lemma keeps_remove_loop:
  "remove_agents_loop D rem errs s = (errs', s') \<Longrightarrow> keeps s \<Longrightarrow> keeps s'"
proof (induction rem arbitrary: errs s)
  case (Cons e rem)
  obtain i cfg where e: "e = (i, cfg)" by (cases e)
  obtain r1 s1 where s1: "stop_and_remove i s = (r1, s1)" by fastforce
  obtain r2 s2 where s2: "clean_resources D i (sac_agent_type cfg) s1 = (r2, s2)" by fastforce
  from Cons.prems have loop: "remove_agents_loop D rem (push_error i r2 (push_error i r1 errs))
      (broadcast (SubAgentRemoved i) s2) = (errs', s')"
    by (simp add: e s1 s2)
  have "keeps (broadcast (SubAgentRemoved i) s2)"
    using clean_resources_coll[OF s2]
    by (intro keeps_cong[OF _ _ _ keeps_stop[OF s1 Cons.prems(2)]]) (simp_all add: broadcast_def)
  from Cons.IH[OF loop this] show ?case .
qed simp

lemma keeps_apply:
  assumes "apply_remote_config_agents D current new s = (r, s')" and "keeps s"
  shows "keeps s'"
proof -
  obtain errs1 s1 where l1: "apply_agents_loop D (adc_agents current) (adc_agents new) [] s = (errs1, s1)"
    by fastforce
  obtain errs2 where l2: "remove_agents_loop D
      (sub_agents_difference (adc_agents current) (adc_agents new)) errs1 s1 = (errs2, s')"
    using assms(1) l1 by (auto simp: apply_remote_config_agents_def split: prod.splits)
  show ?thesis using keeps_remove_loop[OF l2 keeps_apply_loop[OF l1 assms(2)]] .
qed

lemma keeps_handle:
  assumes "handle_remote_config D c current s = (r, s')" and "keeps s"
  shows "keeps s'"
proof (cases "dep_opamp_enabled D")
  case False
  then show ?thesis using assms by (simp add: handle_remote_config_def slift_def)
next
  case True
  let ?s0 = "s\<lparr>st_opamp := st_opamp s @ [report_call Applying (orc_hash c)]\<rparr>"
  have s0: "keeps ?s0" by (rule keeps_same[OF _ assms(2)]) (simp add: same_collection_def)
  have prep: "keeps s1" if "prepare_remote_config D c ?s0 = (p, s1)" for p s1
    using keeps_same[OF same_agents_collection[OF prepare_frame[OF that]] s0] .
  from assms(1) True show ?thesis
  proof (cases rule: handle_cases)
    case (not_reported e)
    then show ?thesis using s0 by simp
  next
    case (rejected e s1)
    then show ?thesis using prep keeps_same[OF movesD[OF finish_same_collection(3) rejected(3)]] by blast
  next
    case (partial new s1 errs s2)
    then show ?thesis
      using prep keeps_apply keeps_same[OF movesD[OF finish_same_collection(2) partial(4)]] by blast
  next
    case (applied new s1 s2)
    then show ?thesis
      using prep keeps_apply keeps_same[OF movesD[OF finish_same_collection(1) applied(4)]] by blast
  qed
qed

lemma keeps_step:
  assumes "ac_step D ev (current, s) = (None, current', s')" and "keeps s"
  shows "keeps s'"
proof (cases "handles_config ev")
  case True
  from config_step[OF assms(1) True] obtain c r where "handle_remote_config D c current s = (r, s')" by blast
  then show ?thesis using keeps_handle assms(2) by blast
next
  case False
  from other_step[OF assms(1) False] show ?thesis by (intro keeps_cong[OF _ _ _ assms(2)]) simp_all
qed

end

section \<open>What holds in every run\<close>

text \<open>Every sub-agent of the collection is alive, held under its own id, and all instances differ.
  Sub-agents may be alive outside of the collection.\<close>

definition coll_weak :: "('r, 'h, 'a, 'v) ac_state \<Rightarrow> bool" where
  "coll_weak s \<longleftrightarrow>
     amap_ok (st_running s) \<and>
     list_all (\<lambda>(i, sub). ai_id (sa_identity sub) = i) (st_running s) \<and>
     mset (map snd (st_running s)) \<subseteq># mset (st_live s) \<and>
     distinct (map sa_instance (st_live s)) \<and>
     list_all (\<lambda>sub. sa_instance sub < st_next s) (st_live s)"

lemma coll_weak_cong: "same_collection s s' \<Longrightarrow> coll_weak s' = coll_weak s"
  by (simp add: same_collection_def coll_weak_def)

lemma coll_weak_stop:
  assumes "stop_and_remove i s = (r, s')" and "coll_weak s"
  shows "coll_weak s'"
proof (cases "map_of (st_running s) i")
  case None
  then show ?thesis using assms by (simp add: stop_and_remove_def)
next
  case (Some sub)
  then have s': "s' = stop_sub_agent sub (s\<lparr>st_running := AList.delete i (st_running s)\<rparr>)"
    using assms(1) by (simp add: stop_and_remove_def)
  have "mset (st_running s) = add_mset (i, sub) (mset (AList.delete i (st_running s)))"
    using assms(2) Some by (intro delete_mset) (simp_all add: coll_weak_def)
  then have "mset (map snd (AList.delete i (st_running s))) = mset (map snd (st_running s)) - {#sub#}"
    by simp
  also have "\<dots> \<subseteq># mset (st_live s) - {#sub#}"
    using assms(2) by (simp add: coll_weak_def subseteq_mset_def diff_le_mono)
  finally have "mset (map snd (AList.delete i (st_running s))) \<subseteq># mset (remove1 sub (st_live s))"
    by simp
  moreover have "distinct (map sa_instance (remove1 sub (st_live s)))"
    using assms(2) by (simp add: coll_weak_def distinct_map inj_on_def)
  ultimately show ?thesis
    using assms(2) set_delete_subset[of i "st_running s"]
    by (auto simp: s' coll_weak_def stop_sub_agent_def list_all_iff dest: notin_set_remove1)
qed

lemma mset_update_snd:
  "mset (map snd (AList.update k v m)) \<subseteq># add_mset v (mset (map snd m))"
proof (induction m)
  case (Cons kv m)
  obtain k' v' where kv: "kv = (k', v')" by (cases kv)
  show ?case
  proof (cases "k' = k")
    case True
    have "add_mset v (mset (map snd m)) \<subseteq># add_mset v' (add_mset v (mset (map snd m)))" by simp
    then show ?thesis using True by (simp add: kv add_mset_commute)
  next
    case False
    then show ?thesis using Cons by (simp add: kv add_mset_commute)
  qed
qed simp

lemma set_update_subset: "set (AList.update k v m) \<subseteq> insert (k, v) (set m)"
  by (induction m) auto

lemma coll_weak_build:
  assumes "build_and_run_sub_agent D ident s = (r, s')" and "coll_weak s"
  shows "coll_weak s'"
proof (cases "dep_build D s ident")
  case (Some e)
  then show ?thesis using assms by (simp add: build_and_run_sub_agent_def)
next
  case None
  let ?sub = "\<lparr>sa_instance = st_next s, sa_identity = ident\<rparr>"
  have s': "s' = s\<lparr>st_live := st_live s @ [?sub], st_next := Suc (st_next s),
      st_running := AList.update (ai_id ident) ?sub (st_running s)\<rparr>"
    using assms(1) None by (simp add: build_and_run_sub_agent_def Let_def insert_sub_agent_def)
  have "mset (map snd (AList.update (ai_id ident) ?sub (st_running s))) \<subseteq># mset (st_live s @ [?sub])"
    using mset_update_snd[of "ai_id ident" ?sub "st_running s"] assms(2)
    by (auto simp: coll_weak_def intro: subset_mset.order_trans)
  moreover have "list_all (\<lambda>(i, sub). ai_id (sa_identity sub) = i)
      (AList.update (ai_id ident) ?sub (st_running s))"
    using assms(2) set_update_subset[of "ai_id ident" ?sub "st_running s"]
    by (auto simp: coll_weak_def list_all_iff)
  ultimately show ?thesis
    using assms(2)
    by (auto simp: s' coll_weak_def amap_ok_def distinct_update list_all_iff)
qed

text \<open>With it the collection keeps its shape in every turn.\<close>

interpretation weak: collection_invariant D coll_weak for D
  by unfold_locales (simp add: coll_weak_def, erule (1) coll_weak_stop, erule (1) coll_weak_build)

text \<open>Building the initial sub-agents is applying them to an empty configuration.\<close>

lemma build_loop_apply: "build_and_run_loop D agents errs s = apply_agents_loop D [] agents errs s"
  by (induction agents arbitrary: errs s) (auto split: prod.splits)

lemma start_collection:
  assumes "ac_start D initial s0 = (Inr u, s)"
  obtains errs s1 where "apply_agents_loop D [] (adc_agents initial) [] (s0\<lparr>st_running := []\<rparr>) = (errs, s1)"
    and "fst (build_and_run_sub_agents D (adc_agents initial) s0) = building_result errs"
    and "same_collection s1 s"
proof -
  obtain errs s1 where l: "apply_agents_loop D [] (adc_agents initial) [] (s0\<lparr>st_running := []\<rparr>) = (errs, s1)"
    by fastforce
  then have b: "build_and_run_sub_agents D (adc_agents initial) s0 = (building_result errs, s1)"
    by (simp add: build_and_run_sub_agents_def build_loop_apply)
  let ?st = "startup_state (building_result errs)"
  let ?report = "if \<not> dep_opamp_enabled D then slift (Inr ())
     else (\<lambda>s. case dcr_get_remote_config (dep_store D) (st_repo s) of
         Inr (Some rc) \<Rightarrow>
           if rc_state rc \<noteq> ?st
           then sbind (ac_report_state D ?st (rc_hash rc))
                  (\<lambda>_. sbind (on_repo (dcr_update_state (dep_store D) ?st))
                     (\<lambda>_. client_call D UpdateEffectiveConfig)) s
           else client_call D UpdateEffectiveConfig s
       | _ \<Rightarrow> client_call D UpdateEffectiveConfig s)"
  have seq: "moves same_collection (sbind (ac_report_state D ?st h)
      (\<lambda>_. sbind (on_repo f) (\<lambda>_. client_call D UpdateEffectiveConfig)))" for h f
    by (intro moves_sbind same_collection_order same_collection_steps)
  have "moves same_collection ?report"
    using seq same_collection_steps(2)[of D UpdateEffectiveConfig]
    by (auto simp: moves_def slift_def same_collection_def[of s s for s] split: sum.splits option.splits)
  moreover have "moves same_collection (\<lambda>s. (Inr (), snd (version_update D initial s)))"
    by (simp add: moves_def same_collection_def version_update_def)
  ultimately have "moves same_collection (sbind ?report (\<lambda>_ s. (Inr (), snd (version_update D initial s))))"
    by (intro moves_sbind same_collection_order)
  moreover have "sbind ?report (\<lambda>_ s. (Inr (), snd (version_update D initial s))) s1 = (Inr u, s)"
    using assms unfolding ac_start_def b by (simp add: Let_def)
  ultimately have "same_collection s1 s" by (rule movesD)
  with l b show thesis by (intro that) simp_all
qed

lemma coll_weak_start:
  assumes "ac_start D initial s0 = (Inr u, s)" and "fresh s0"
  shows "coll_weak s"
proof -
  obtain errs s1 where l: "apply_agents_loop D [] (adc_agents initial) [] (s0\<lparr>st_running := []\<rparr>) = (errs, s1)"
    and same: "same_collection s1 s"
    using start_collection[OF assms(1)] .
  have "coll_weak (s0\<lparr>st_running := []\<rparr>)" using assms(2) by (simp add: fresh_def coll_weak_def amap_ok_def)
  from weak.keeps_apply_loop[OF l this] coll_weak_cong[OF same] show ?thesis by simp
qed

lemma ac_reach_coll_weak: "ac_reach D cs \<Longrightarrow> coll_weak (snd cs)"
proof (induction rule: ac_reach.induct)
  case (ac_reach_start s0 initial u s)
  then show ?case using coll_weak_start by simp blast
next
  case (ac_reach_step current s ev current' s')
  then show ?case using weak.keeps_step by fastforce
qed

section \<open>What holds while no configuration fails halfway\<close>

lemma start_in_sync:
  assumes "ac_start D initial s0 = (Inr u, s)" and "fresh s0" and "amap_ok (adc_agents initial)"
    and "is_ok (fst (build_and_run_sub_agents D (adc_agents initial) s0))"
  shows "in_sync initial s"
proof -
  let ?s0 = "s0\<lparr>st_running := []\<rparr>"
  obtain errs s1 where l: "apply_agents_loop D [] (adc_agents initial) [] ?s0 = (errs, s1)"
    and r: "fst (build_and_run_sub_agents D (adc_agents initial) s0) = building_result errs"
    and same: "same_collection s1 s"
    using start_collection[OF assms(1)] .
  have nil: "errs = []" using assms(4) r by (simp add: building_result_def is_ok_def split: if_splits)
  have fresh: "coll_ok ?s0" using assms(2) by (simp add: fresh_def coll_ok_def amap_ok_def)
  have dist: "distinct (map fst (adc_agents initial))" using assms(3) by (simp add: amap_ok_def)
  have step: "coll_ok s1 \<and> (\<forall>j. j \<notin> fst ` set (adc_agents initial) \<longrightarrow> rmap s1 j = rmap ?s0 j) \<and>
    (\<exists>more. errs = [] @ more \<and> fst ` set more \<subseteq> fst ` set (adc_agents initial) \<and>
       (\<forall>i cfg. (i, cfg) \<in> set (adc_agents initial) \<longrightarrow> i \<notin> fst ` set more \<longrightarrow>
          running_type s1 i = Some (sac_agent_type cfg)) \<and>
       (\<forall>i cfg. (i, cfg) \<in> set (adc_agents initial) \<longrightarrow> map_of [] i = Some cfg \<longrightarrow>
          i \<notin> fst ` set more \<and> rmap s1 i = rmap ?s0 i))"
    by (rule apply_loop_step[OF l fresh dist]) (simp add: running_type_def configured_type_def rmap_def)
  have "running_type s1 i = configured_type (adc_agents initial) i" for i
  proof (cases "map_of (adc_agents initial) i")
    case None
    then have "rmap s1 i = None" using step by (simp add: map_of_eq_None_iff rmap_def)
    then show ?thesis using None by (simp add: running_type_def configured_type_def)
  next
    case (Some cfg)
    then show ?thesis using step nil by (auto simp: configured_type_def dest: map_of_SomeD)
  qed
  then have "in_sync initial s1" using step assms(3) by (simp add: in_sync_def fun_eq_iff)
  with same_collection_sync[OF same] show ?thesis by blast
qed

lemma clean_reach_in_sync:
  assumes "clean_reach D cs" and "dep_opamp_enabled D" and "loads_maps D"
  shows "in_sync (fst cs) (snd cs)"
  using assms(1)
proof (induction rule: clean_reach.induct)
  case (clean_start s0 initial u s)
  then show ?case using start_in_sync by simp blast
next
  case (clean_step current s ev current' s')
  have sync: "in_sync current s" using clean_step.IH by simp
  show ?case
  proof (cases "handles_config ev")
    case True
    from config_step[OF clean_step(3) True] obtain c r where ev: "ev = OpampInput (RemoteConfigReceived c)"
      and h: "handle_remote_config D c current s = (r, s')"
      and r: "r = Inr current' \<or> \<not> is_ok r \<and> current' = current" .
    have "r = Inr current' \<or> rejected_early D c s \<and> current' = current"
      using clean_step(2) r h ev by auto
    then show ?thesis
    proof
      assume "r = Inr current'"
      with h have "handle_remote_config D c current s = (Inr current', s')" by simp
      from handle_ok_in_sync[OF this assms(2,3) sync] show ?thesis by simp
    next
      assume "rejected_early D c s \<and> current' = current"
      with rejected_early_collection[OF h assms(2)] same_collection_sync sync show ?thesis by auto
    qed
  next
    case False
    then show ?thesis
      using other_step[OF clean_step(3)] sync
      by (simp add: in_sync_def coll_ok_def running_type_def rmap_def fun_eq_iff)
  qed
qed

section \<open>The end of the loop\<close>

lemma stop_all_live:
  "mset (st_live (fold (\<lambda>(_, sub) s. stop_sub_agent sub s) subs s)) = mset (st_live s) - mset (map snd subs)"
  by (induction subs arbitrary: s) (auto simp: stop_sub_agent_def)

lemma stop_sub_agents_live:
  "st_running (stop_sub_agents s) = [] \<and>
   mset (st_live (stop_sub_agents s)) = mset (st_live s) - mset (map snd (st_running s))"
  by (simp add: stop_sub_agents_def stop_all_live)

lemma shutdown_step:
  assumes "ac_step D ev (current, s) = (Some reason, current', s')"
  shows "s' = stop_sub_agents (broadcast AgentControlStopped s)"
  using assms by (cases "(D, ev, (current, s))" rule: ac_step.cases) (auto split: prod.splits sum.splits)

section \<open>Sub-agents that nobody holds\<close>

text \<open>A sub-agent that is alive although it is not in the collection. Agent Control only stops what is in
  the collection, so it stays alive.\<close>

definition orphaned :: "'v started_sub_agent \<Rightarrow> ('r, 'h, 'a, 'v) ac_state \<Rightarrow> bool" where
  "orphaned sub s \<longleftrightarrow>
     sub \<in> set (st_live s) \<and> sub \<notin> snd ` set (st_running s) \<and> sa_instance sub < st_next s"

lemma orphaned_stop:
  assumes "stop_and_remove i s = (r, s')" and "orphaned sub s"
  shows "orphaned sub s'"
proof (cases "map_of (st_running s) i")
  case None
  then show ?thesis using assms by (simp add: stop_and_remove_def)
next
  case (Some held)
  then have "held \<in> snd ` set (st_running s)" by (force dest: map_of_SomeD)
  then have "held \<noteq> sub" using assms(2) by (auto simp: orphaned_def)
  then show ?thesis
    using assms Some set_delete_subset[of i "st_running s"]
    by (auto simp: stop_and_remove_def stop_sub_agent_def orphaned_def)
qed

lemma orphaned_build:
  assumes "build_and_run_sub_agent D ident s = (r, s')" and "orphaned sub s"
  shows "orphaned sub s'"
proof (cases "dep_build D s ident")
  case (Some e)
  then show ?thesis using assms by (simp add: build_and_run_sub_agent_def)
next
  case None
  let ?sub = "\<lparr>sa_instance = st_next s, sa_identity = ident\<rparr>"
  have "sub \<noteq> ?sub" using assms(2) by (auto simp: orphaned_def)
  then show ?thesis
    using assms None set_update_subset[of "ai_id ident" ?sub "st_running s"]
    by (auto simp: build_and_run_sub_agent_def Let_def insert_sub_agent_def orphaned_def)
qed

interpretation orphan: collection_invariant D "orphaned sub" for D sub
  by unfold_locales (simp add: orphaned_def, erule (1) orphaned_stop, erule (1) orphaned_build)

lemma orphaned_stays_alive:
  assumes "process_events D evs (current, s) = (reason, current', s')" and "orphaned sub s"
  shows "sub \<in> set (st_live s')"
  using assms
proof (induction evs arbitrary: current s)
  case Nil
  then show ?case by (simp add: orphaned_def)
next
  case (Cons ev evs)
  obtain stop c1 s1 where step: "ac_step D ev (current, s) = (stop, c1, s1)" by (cases "ac_step D ev (current, s)")
  show ?case
  proof (cases stop)
    case None
    then have "process_events D evs (c1, s1) = (reason, current', s')" using Cons.prems(1) step by simp
    then show ?thesis using Cons.IH orphan.keeps_step step None Cons.prems(2) by blast
  next
    case (Some why)
    then have "s' = stop_sub_agents (broadcast AgentControlStopped s)"
      using Cons.prems(1) step shutdown_step by auto
    then have live: "mset (st_live s') = mset (st_live s) - mset (map snd (st_running s))"
      using stop_sub_agents_live[of "broadcast AgentControlStopped s"] by (simp add: broadcast_def)
    have "count (mset (map snd (st_running s))) sub = 0" "count (mset (st_live s)) sub > 0"
      using Cons.prems(2) unfolding count_mset_0_iff by (auto simp: orphaned_def count_greater_zero_iff)
    then have "count (mset (st_live s')) sub > 0" unfolding live by simp
    then show ?thesis by (simp add: count_greater_zero_iff)
  qed
qed

lemma coll_weak_live: "coll_weak s \<Longrightarrow> snd ` set (st_running s) \<subseteq> set (st_live s)"
  using set_mset_mono[of "mset (map snd (st_running s))" "mset (st_live s)"] by (simp add: coll_weak_def)

text \<open>Building an agent that runs already replaces its entry in the collection, and orphans what ran.\<close>

lemma rebuild_orphans:
  assumes "build_and_run_sub_agent D ident s = (Inr u, s')" and "coll_weak s"
    and "map_of (st_running s) (ai_id ident) = Some sub"
  shows "orphaned sub s'"
proof -
  let ?i = "ai_id ident" and ?sub = "\<lparr>sa_instance = st_next s, sa_identity = ident\<rparr>"
  have s': "s' = s\<lparr>st_live := st_live s @ [?sub], st_next := Suc (st_next s),
      st_running := AList.update ?i ?sub (st_running s)\<rparr>"
    using assms(1) by (simp add: build_and_run_sub_agent_def Let_def insert_sub_agent_def split: option.splits)
  have held: "(?i, sub) \<in> set (st_running s)" using assms(3) by (rule map_of_SomeD)
  then have live: "sub \<in> set (st_live s)" using coll_weak_live[OF assms(2)] by force
  then have old: "sa_instance sub < st_next s" using assms(2) by (auto simp: coll_weak_def list_all_iff)
  have id: "ai_id (sa_identity sub) = ?i" using assms(2) held by (auto simp: coll_weak_def list_all_iff)
  have "sub \<notin> snd ` set (AList.update ?i ?sub (st_running s))"
  proof
    assume "sub \<in> snd ` set (AList.update ?i ?sub (st_running s))"
    then obtain j where j: "(j, sub) \<in> set (AList.update ?i ?sub (st_running s))" by auto
    have "distinct (map fst (AList.update ?i ?sub (st_running s)))"
      using assms(2) by (simp add: coll_weak_def amap_ok_def distinct_update)
    then have "map_of (AList.update ?i ?sub (st_running s)) j = Some sub" using j by (rule map_of_is_SomeI)
    then have "(if j = ?i then Some ?sub else map_of (st_running s) j) = Some sub"
      by (simp add: update_conv' split: if_splits)
    moreover have "sub \<noteq> ?sub" using old by auto
    ultimately have "j \<noteq> ?i" "(j, sub) \<in> set (st_running s)" by (auto split: if_splits dest: map_of_SomeD)
    then show False using assms(2) id by (auto simp: coll_weak_def list_all_iff)
  qed
  with live old show ?thesis by (simp add: s' orphaned_def)
qed

lemma apply_loop_orphans:
  assumes "apply_agents_loop D current rest errs s = (errs', s')" and "coll_weak s"
    and "distinct (map fst rest)" and "i \<in> fst ` set rest" and "i \<notin> fst ` set errs'"
    and "map_of current i = None" and "map_of (st_running s) i = Some sub"
  shows "orphaned sub s'"
  using assms
proof (induction rest arbitrary: errs s)
  case (Cons e rest)
  obtain j cfg where e: "e = (j, cfg)" by (cases e)
  obtain r t where step: "apply_one D current j cfg s = (r, t)" by fastforce
  have loop: "apply_agents_loop D current rest (push_error j r errs) t = (errs', s')"
    using Cons.prems(1) step unfolding e apply_agents_loop_Cons by simp
  have dist: "distinct (map fst rest)" using Cons.prems(3) by (simp add: e)
  show ?case
  proof (cases "j = i")
    case True
    obtain more where "errs' = push_error i r errs @ more" using apply_loop_entry[OF loop dist] True by blast
    then obtain u where r: "r = Inr u" using Cons.prems(5) by (cases r) (auto simp: push_error_def)
    have "build_and_run_sub_agent D (agent_identity_from i (sac_agent_type cfg)) s = (Inr u, t)"
      using step True r Cons.prems(6) by (simp add: apply_one_def)
    from rebuild_orphans[OF this Cons.prems(2)] Cons.prems(7) have "orphaned sub t"
      by (simp add: agent_identity_from_def)
    then show ?thesis using orphan.keeps_apply_loop[OF loop] by blast
  next
    case False
    then have "map_of (st_running t) i = Some sub"
      using apply_one_entry[OF step] Cons.prems(7) by (simp add: rmap_def)
    with Cons.IH[OF loop weak.keeps_apply_one[OF step Cons.prems(2)] dist] Cons.prems False show ?thesis
      by (simp add: e)
  qed
qed simp

lemma handle_orphans:
  assumes "handle_remote_config D c current s = (Inr new, s')" and "dep_opamp_enabled D" and "loads_maps D"
    and "coll_weak s" and "map_of (st_running s) i = Some sub"
    and "i \<notin> fst ` set (adc_agents current)" and "i \<in> fst ` set (adc_agents new)"
  shows "orphaned sub s'"
proof -
  let ?s0 = "s\<lparr>st_opamp := st_opamp s @ [report_call Applying (orc_hash c)]\<rparr>"
  obtain s1 s2 where p: "prepare_remote_config D c ?s0 = (Inr new, s1)"
    and a: "apply_remote_config_agents D current new s1 = (Inr (), s2)"
    and f: "finish_ok D (orc_hash c) new s2 = (Inr new, s')"
    using handle_ok_Inr[OF assms(1,2)] by blast
  have same: "same_collection s s1"
    using same_agents_collection[OF prepare_frame[OF p]] by (simp add: same_collection_def)
  have weak1: "coll_weak s1" using weak.keeps_same[OF same assms(4)] .
  have held: "map_of (st_running s1) i = Some sub" using same assms(5) by (simp add: same_collection_def)
  have dist: "distinct (map fst (adc_agents new))"
    using prepare_amap[OF p] assms(3) by (auto simp: loads_maps_def amap_ok_def)
  obtain errs1 t where l1: "apply_agents_loop D (adc_agents current) (adc_agents new) [] s1 = (errs1, t)"
    by fastforce
  obtain errs2 where l2: "remove_agents_loop D
      (sub_agents_difference (adc_agents current) (adc_agents new)) errs1 t = (errs2, s2)"
    and nil: "errs2 = []"
    using a l1 by (auto simp: apply_remote_config_agents_def building_result_def split: prod.splits if_splits)
  have "errs1 = []" using remove_loop_entry[OF l2] nil by auto
  moreover have "map_of (adc_agents current) i = None" using assms(6) by (simp add: map_of_eq_None_iff)
  ultimately have "orphaned sub t" using apply_loop_orphans[OF l1 weak1 dist assms(7) _ _ held] by simp
  then have "orphaned sub s2" using orphan.keeps_remove_loop[OF l2] by blast
  then show ?thesis using orphan.keeps_same[OF movesD[OF finish_same_collection(1) f]] by blast
qed

section \<open>What is reported and stored\<close>

lemma on_repo_Inr:
  "on_repo f s = (Inr u, s') \<longleftrightarrow> (\<exists>repo'. f (st_repo s) = (Inr (), repo') \<and> s' = s\<lparr>st_repo := repo'\<rparr>)"
  by (cases "f (st_repo s)") (auto simp: on_repo_def map_err_Inr_eq)

lemma version_update_Inr: "version_update D dc s = (Inr u, s') \<Longrightarrow> st_repo s' = st_repo s"
  by (auto simp: version_update_def)

lemma prepare_repo:
  assumes "prepare_remote_config D c s = (Inr new, s')"
  shows "error_message (orc_state c) = None \<and>
    (if is_agent_configs_empty c
     then dcr_delete (dep_store D) (st_repo s) = (Inr (), st_repo s') \<and>
       dcr_load (dep_store D) (st_repo s') = Inr new
     else dynamic_from_remote_config (dep_codec D) c = Inr new \<and>
       (\<exists>yaml. yaml_config_from_dynamic (dep_codec D) new = Inr yaml \<and>
          dcr_store (dep_store D) \<lparr>rc_config = yaml, rc_hash = orc_hash c, rc_state = orc_state c\<rparr> (st_repo s)
            = (Inr (), st_repo s')))"
  using assms
  by (auto simp: prepare_remote_config_def sbind_eq_Inr slift_eq on_repo_Inr map_err_Inr_eq
    dest!: version_update_Inr split: if_splits option.splits)

lemma finish_ok_log:
  assumes "finish_ok D h new s = (r, s')"
  shows "(\<exists>e. r = Inl (ConfigResolve e) \<and> st_opamp s' = st_opamp s) \<or>
    dcr_update_state (dep_store D) Applied (st_repo s) = (Inr (), st_repo s') \<and>
    (st_opamp s' = st_opamp s @ [report_call Applied h, UpdateEffectiveConfig] \<or>
     st_opamp s' = st_opamp s @ [report_call Applied h] \<and> \<not> is_ok r)"
proof -
  obtain w repo' where w: "dcr_update_state (dep_store D) Applied (st_repo s) = (w, repo')" by fastforce
  show ?thesis
  proof (cases w)
    case (Inl e)
    then show ?thesis using assms w by (auto simp: finish_ok_def sbind_def on_repo_def)
  next
    case (Inr u)
    then show ?thesis
      using assms w
      by (auto simp: finish_ok_def sbind_def on_repo_def ac_report_state_def client_call_def slift_def is_ok_def
        split: option.splits)
  qed
qed

lemma finish_partial_log:
  assumes "finish_partial D h errs s = (r, s')"
  shows "(\<exists>e. r = Inl (ConfigResolve e) \<and> st_opamp s' = st_opamp s) \<or>
    (\<exists>m. st_opamp s' = st_opamp s @ [report_call (Failed m) h, UpdateEffectiveConfig]) \<or>
    (\<exists>m e. st_opamp s' = st_opamp s @ [report_call (Failed m) h] \<and> r = Inl (OpAMPClient e))"
proof -
  define m where "m = ''Error applying Agent Control remote config for some agents: ''
    @ building_subagent_errors_fmt errs"
  obtain w repo' where w: "dcr_update_state (dep_store D) (Failed m) (st_repo s) = (w, repo')" by fastforce
  note unfold_partial = finish_partial_def Let_def m_def[symmetric] sbind_def on_repo_def
    ac_report_state_def client_call_def slift_def
  show ?thesis
  proof (cases w)
    case (Inl e)
    then show ?thesis using assms w unfolding unfold_partial by auto
  next
    case (Inr u)
    then show ?thesis using assms w unfolding unfold_partial by (auto split: option.splits)
  qed
qed

lemma finish_rejected_log:
  assumes "finish_rejected D h e s = (r, s')"
  shows "\<exists>m. st_opamp s' = st_opamp s @ [report_call (Failed m) h]"
  using assms unfolding finish_rejected_def Let_def
  by (auto simp: sbind_def ac_report_state_def client_call_def slift_def split: option.splits)

lemma report_call_state:
  "report_call Applied h \<noteq> report_call (Failed m) h'" "report_call Applied h \<noteq> report_call Applying h'"
  by (simp_all add: report_state_msg_def)

text \<open>When \<open>Applied\<close> is reported, the handling went all the way to its last report.\<close>

lemma applied_reported:
  assumes "handle_remote_config A c current s = (r, s')" and "dep_opamp_enabled A"
    and "st_opamp s' = st_opamp s @ calls" and "report_call Applied (orc_hash c) \<in> set calls"
  obtains new s1 s2 where
    "prepare_remote_config A c (s\<lparr>st_opamp := st_opamp s @ [report_call Applying (orc_hash c)]\<rparr>) = (Inr new, s1)"
    "apply_remote_config_agents A current new s1 = (Inr (), s2)"
    "dcr_update_state (dep_store A) Applied (st_repo s2) = (Inr (), st_repo s')"
    "same_collection s2 s'"
proof -
  let ?s0 = "s\<lparr>st_opamp := st_opamp s @ [report_call Applying (orc_hash c)]\<rparr>"
  let ?a = "report_call Applied (orc_hash c)"
  have s0: "st_opamp ?s0 = st_opamp s @ [report_call Applying (orc_hash c)]" by simp
  have prep: "st_opamp s1 = st_opamp ?s0" if "prepare_remote_config A c ?s0 = (p, s1)" for p s1
    using prepare_frame[OF that] by (simp add: same_agents_def)
  from assms(1,2) show thesis
  proof (cases rule: handle_cases)
    case (not_reported e)
    then have "calls = [report_call Applying (orc_hash c)]" using assms(3) by simp
    then show thesis using assms(4) report_call_state(2) by (metis empty_iff list.set(1) set_ConsD)
  next
    case (rejected e s1)
    from finish_rejected_log[OF rejected(3)] prep[OF rejected(2)] assms(3)
    obtain m where "calls = [report_call Applying (orc_hash c), report_call (Failed m) (orc_hash c)]"
      by auto
    then show thesis using assms(4) report_call_state by (metis empty_iff list.set(1) set_ConsD)
  next
    case (partial new s1 errs s2)
    from apply_agents_frame[OF partial(3)] prep[OF partial(2)]
    have "st_opamp s2 = st_opamp s @ [report_call Applying (orc_hash c)]" by simp
    with finish_partial_log[OF partial(4)] assms(3)
    have "set calls \<subseteq> {report_call Applying (orc_hash c), UpdateEffectiveConfig} \<union>
        range (\<lambda>m. report_call (Failed m) (orc_hash c))"
      by auto
    then have "?a = report_call Applying (orc_hash c) \<or> ?a = UpdateEffectiveConfig \<or>
        (\<exists>m. ?a = report_call (Failed m) (orc_hash c))" using assms(4) by blast
    then show thesis using report_call_state by (metis opamp_call.distinct(1))
  next
    case (applied new s1 s2)
    from apply_agents_frame[OF applied(3)] prep[OF applied(2)]
    have s2: "st_opamp s2 = st_opamp s @ [report_call Applying (orc_hash c)]" by simp
    have "dcr_update_state (dep_store A) Applied (st_repo s2) = (Inr (), st_repo s')"
    proof (rule ccontr)
      assume "\<not> ?thesis"
      with finish_ok_log[OF applied(4)] have "st_opamp s' = st_opamp s2" by blast
      with s2 assms(3) have "calls = [report_call Applying (orc_hash c)]" by simp
      then show False using assms(4) report_call_state(2) by (metis empty_iff list.set(1) set_ConsD)
    qed
    with applied that movesD[OF finish_same_collection(1) applied(4)] show thesis by blast
  qed
qed

text \<open>The effect of a configuration that was prepared and applied without an error.\<close>

lemma applied_effect:
  assumes "prepare_remote_config D c (s\<lparr>st_opamp := st_opamp s @ [report_call Applying (orc_hash c)]\<rparr>) = (Inr new, s1)"
    and "apply_remote_config_agents D current new s1 = (Inr (), s2)" and "same_collection s2 s'" and "loads_maps D"
  shows "entries_follow current new {} s s' \<and> (in_sync current s \<longrightarrow> in_sync new s')"
proof -
  have same: "same_collection s s1"
    using same_agents_collection[OF prepare_frame[OF assms(1)]] by (simp add: same_collection_def)
  have amap: "amap_ok (adc_agents new)" using prepare_amap[OF assms(1)] assms(4) by (auto simp: loads_maps_def)
  from apply_entries[OF assms(2) amap] have "entries_follow current new {} s1 s2"
    by (auto simp: building_result_def split: if_splits)
  then have "entries_follow current new {} s s'" using entries_follow_cong[OF same assms(3)] by blast
  moreover have "in_sync new s'" if "in_sync current s"
  proof -
    have "in_sync current s1" using same_collection_sync[OF same] that by blast
    from apply_ok_in_sync[OF this amap assms(2)] show ?thesis using same_collection_sync[OF assms(3)] by blast
  qed
  ultimately show ?thesis by blast
qed

lemma validate_apply_Inr:
  assumes "validate_apply_store_remote_config D c current s = (Inr new, s2)"
  obtains s1 where "prepare_remote_config D c s = (Inr new, s1)"
    and "apply_remote_config_agents D current new s1 = (Inr (), s2)"
  using assms that by (auto simp: validate_apply_store_split sbind_eq_Inr slift_eq)

context dynamic_config_store
begin

lemma applied_stored:
  assumes "handle_remote_config A c current s = (r, s')" and "dep_opamp_enabled A" and "dep_store A = D"
    and "st_opamp s' = st_opamp s @ calls" and "report_call Applied (orc_hash c) \<in> set calls"
    and "loads_maps A"
    and "\<And>new yaml st. yaml_config_from_dynamic (dep_codec A) new = Inr yaml \<Longrightarrow> error_message st = None \<Longrightarrow>
      storable \<lparr>rc_config = yaml, rc_hash = orc_hash c, rc_state = st\<rparr>"
  shows "\<exists>new yaml. dynamic_from_remote_config (dep_codec A) c = Inr new \<and>
    yaml_config_from_dynamic (dep_codec A) new = Inr yaml \<and>
    stored (st_repo s') = Stored \<lparr>rc_config = yaml, rc_hash = orc_hash c, rc_state = Applied\<rparr> \<and>
    entries_follow current new {} s s' \<and> (in_sync current s \<longrightarrow> in_sync new s')"
proof -
  let ?s0 = "s\<lparr>st_opamp := st_opamp s @ [report_call Applying (orc_hash c)]\<rparr>"
  obtain new s1 s2 where p: "prepare_remote_config A c ?s0 = (Inr new, s1)"
    and a: "apply_remote_config_agents A current new s1 = (Inr (), s2)"
    and u: "dcr_update_state D Applied (st_repo s2) = (Inr (), st_repo s')"
    and same: "same_collection s2 s'"
    using applied_reported[OF assms(1,2,4,5)] assms(3) by metis
  have repo: "st_repo s2 = st_repo s1" using apply_agents_frame[OF a] by simp
  have nonempty: "\<not> is_agent_configs_empty c"
  proof
    assume "is_agent_configs_empty c"
    then have "dcr_delete D (st_repo s) = (Inr (), st_repo s1)" using prepare_repo[OF p] assms(3) by simp
    from update_after_delete[OF this] u repo show False by fastforce
  qed
  then obtain yaml where dyn: "dynamic_from_remote_config (dep_codec A) c = Inr new"
    and y: "yaml_config_from_dynamic (dep_codec A) new = Inr yaml"
    and st: "dcr_store D \<lparr>rc_config = yaml, rc_hash = orc_hash c, rc_state = orc_state c\<rparr> (st_repo s) =
      (Inr (), st_repo s1)"
    using prepare_repo[OF p] assms(3) by auto
  have "stored (st_repo s1) = Stored \<lparr>rc_config = yaml, rc_hash = orc_hash c, rc_state = orc_state c\<rparr>"
    using dcr_store_stores[OF st assms(7)[OF y]] prepare_repo[OF p] by simp
  with dcr_update_updates[OF u] repo assms(7)[OF y, of Applied]
  have "stored (st_repo s') = Stored \<lparr>rc_config = yaml, rc_hash = orc_hash c, rc_state = Applied\<rparr>"
    by (auto simp: with_state_def)
  moreover have "entries_follow current new {} s s' \<and> (in_sync current s \<longrightarrow> in_sync new s')"
    using applied_effect[OF p a same assms(6)] .
  ultimately show ?thesis using dyn y by blast
qed

lemma reset_not_applied:
  assumes "handle_remote_config A c current s = (r, s')" and "dep_store A = D"
    and "is_agent_configs_empty c"
  shows "\<not> is_ok r"
proof
  assume "is_ok r"
  then obtain new where r: "r = Inr new" by (auto simp: is_ok_iff)
  have on: "dep_opamp_enabled A"
    using assms(1) r by (auto simp: handle_remote_config_def slift_def split: if_splits)
  let ?s0 = "s\<lparr>st_opamp := st_opamp s @ [report_call Applying (orc_hash c)]\<rparr>"
  obtain s1 s2 where p: "prepare_remote_config A c ?s0 = (Inr new, s1)"
    and a: "apply_remote_config_agents A current new s1 = (Inr (), s2)"
    and f: "finish_ok A (orc_hash c) new s2 = (Inr new, s')"
    using handle_ok_Inr[OF assms(1)[unfolded r] on] .
  have "dcr_delete D (st_repo s) = (Inr (), st_repo s1)" using prepare_repo[OF p] assms(2,3) by simp
  moreover have "dcr_update_state D Applied (st_repo s1) = (Inr (), st_repo s')"
    using finish_ok_Inr[OF f] apply_agents_frame[OF a] assms(2) by simp
  ultimately show False using update_after_delete by fastforce
qed

lemma reset_applied_unreported:
  assumes "validate_apply_store_remote_config A c current
      (s\<lparr>st_opamp := st_opamp s @ [report_call Applying (orc_hash c)]\<rparr>) = (Inr new, s2)"
    and "dep_store A = D" and "is_agent_configs_empty c" and "dep_opamp_enabled A" and "loads_maps A"
    and "dep_client A s (report_call Applying (orc_hash c)) = None"
  shows "\<exists>msg s'. handle_remote_config A c current s = (Inl (ConfigResolve msg), s') \<and>
    st_opamp s' = st_opamp s @ [report_call Applying (orc_hash c)] \<and>
    stored (st_repo s2) = Absent \<and> dcr_load D (st_repo s2) = Inr new \<and>
    entries_follow current new {} s s' \<and> (in_sync current s \<longrightarrow> in_sync new s')"
proof -
  let ?s0 = "s\<lparr>st_opamp := st_opamp s @ [report_call Applying (orc_hash c)]\<rparr>"
  obtain s1 where p: "prepare_remote_config A c ?s0 = (Inr new, s1)"
    and a: "apply_remote_config_agents A current new s1 = (Inr (), s2)"
    using validate_apply_Inr[OF assms(1)] .
  have repo: "dcr_delete D (st_repo s) = (Inr (), st_repo s2)" "dcr_load D (st_repo s2) = Inr new"
    using prepare_repo[OF p] apply_agents_frame[OF a] assms(2,3) by simp_all
  obtain w repo' where w: "dcr_update_state D Applied (st_repo s2) = (w, repo')" by fastforce
  with update_after_delete[OF repo(1)] obtain msg where msg: "w = Inl msg" by blast
  let ?s' = "s2\<lparr>st_repo := repo'\<rparr>"
  have "finish_ok A (orc_hash c) new s2 = (Inl (ConfigResolve msg), ?s')"
    using w msg assms(2) by (simp add: finish_ok_def sbind_def on_repo_def)
  then have "handle_remote_config A c current s = (Inl (ConfigResolve msg), ?s')"
    using assms(1,4,6) by (simp add: handle_remote_config_def sbind_def ac_report_state_def client_call_def)
  moreover have "st_opamp ?s' = st_opamp s @ [report_call Applying (orc_hash c)]"
    using apply_agents_frame[OF a] prepare_frame[OF p] by (simp add: same_agents_def)
  moreover have "same_collection s2 ?s'" by (simp add: same_collection_def)
  ultimately show ?thesis
    using applied_effect[OF p a _ assms(5)] dcr_delete_deletes[OF repo(1)] repo(2) by blast
qed

end

text \<open>An error that names sub-agents comes from applying the configuration.\<close>

lemma handle_building:
  assumes "handle_remote_config D c current s = (Inl (BuildingSubagents errs), s')" and "dep_opamp_enabled D"
  shows "\<exists>new s1 s2.
    prepare_remote_config D c (s\<lparr>st_opamp := st_opamp s @ [report_call Applying (orc_hash c)]\<rparr>) = (Inr new, s1) \<and>
    apply_remote_config_agents D current new s1 = (Inl (BuildingSubagents errs), s2) \<and>
    finish_partial D (orc_hash c) errs s2 = (Inl (BuildingSubagents errs), s')"
  using assms
proof (cases rule: handle_cases)
  case (not_reported e)
  then show ?thesis using assms
    by (auto simp: handle_remote_config_def sbind_def ac_report_state_def client_call_def split: option.splits)
next
  case (rejected e s1)
  from rejected(3) have "e = BuildingSubagents errs"
    by (auto simp: finish_rejected_def Let_def sbind_def ac_report_state_def client_call_def slift_def split: option.splits)
  with prepare_not_building[OF rejected(2)] show ?thesis by simp
next
  case (partial new s1 errs' s2)
  have "errs' = errs"
    using partial(4) by (auto simp: finish_partial_def Let_def sbind_def on_repo_def ac_report_state_def
      client_call_def slift_def map_err_eq_Inl split: option.splits prod.splits sum.splits)
  with partial show ?thesis by blast
next
  case (applied new s1 s2)
  then show ?thesis
    by (auto simp: finish_ok_def sbind_def on_repo_def ac_report_state_def client_call_def
      slift_def map_err_eq_Inl split: option.splits prod.splits sum.splits)
qed

lemma partial_failure_entries:
  assumes "handle_remote_config D c current s = (Inl (BuildingSubagents errs), s')" and "dep_opamp_enabled D"
    and "loads_maps D" and "\<not> is_agent_configs_empty c" and "dynamic_from_remote_config (dep_codec D) c = Inr new"
  shows "entries_follow current new (fst ` set errs) s s'"
  using handle_building[OF assms(1,2)]
proof (elim exE conjE)
  fix new' s1 s2
  assume p: "prepare_remote_config D c (s\<lparr>st_opamp := st_opamp s @ [report_call Applying (orc_hash c)]\<rparr>) = (Inr new', s1)"
    and a: "apply_remote_config_agents D current new' s1 = (Inl (BuildingSubagents errs), s2)"
    and f: "finish_partial D (orc_hash c) errs s2 = (Inl (BuildingSubagents errs), s')"
  have new: "new' = new" using prepare_repo[OF p] assms(4,5) by simp
  have same: "same_collection s s1"
    using same_agents_collection[OF prepare_frame[OF p]] by (simp add: same_collection_def)
  have "amap_ok (adc_agents new)" using prepare_amap[OF p] assms(3) new by (auto simp: loads_maps_def)
  with apply_entries[OF a[unfolded new]] have "entries_follow current new (fst ` set errs) s1 s2"
    by (auto simp: building_result_def split: if_splits)
  then show ?thesis using entries_follow_cong[OF same movesD[OF finish_same_collection(2) f]] by blast
qed

section \<open>Properties\<close>

text \<open>C1. On the host, \<open>Applied\<close> is only reported for a configuration that was applied: when the handling of
  a remote configuration reports \<open>Applied\<close> for its hash, the message was readable; every agent it names
  with a configuration that differs from the current one runs with the agent type it names, every agent
  it names with the current configuration was left alone, and no agent that only the current
  configuration names is held any more; and the file store holds the configuration with that hash and
  the state \<open>Applied\<close>, also when the handling failed afterwards. If moreover the sub-agents were in sync
  with the current configuration before, as they are while no configuration failed halfway, then the
  running sub-agents are exactly those of the new one. The hypotheses on the codecs are that the store
  reads back what it wrote and that agents are read into a map.\<close>

theorem applied_means_applied:
  fixes A :: "(disk, 'j, 'h, 'a, 'v, 's) ac_deps"
  assumes "handle_remote_config A c current s = (r, s')" and "dep_opamp_enabled A"
    and "dep_store A = ac_config_store_ops (host_ac_store os rcodec lcodec dirs has_capability caps codec build)"
    and "st_opamp s' = st_opamp s @ calls" and "report_call Applied (orc_hash c) \<in> set calls"
    and "loads_maps A"
    and "\<And>new yaml st. yaml_config_from_dynamic (dep_codec A) new = Inr yaml \<Longrightarrow> error_message st = None \<Longrightarrow>
      yaml_storable rcodec \<lparr>rc_config = yaml, rc_hash = orc_hash c, rc_state = st\<rparr>"
  shows "\<exists>new yaml. dynamic_from_remote_config (dep_codec A) c = Inr new \<and>
    yaml_config_from_dynamic (dep_codec A) new = Inr yaml \<and>
    host_stored_config rcodec dirs (st_repo s') AgentControl =
      Stored \<lparr>rc_config = yaml, rc_hash = orc_hash c, rc_state = Applied\<rparr> \<and>
    entries_follow current new {} s s' \<and> (in_sync current s \<longrightarrow> in_sync new s')"
  by (rule host_ac.applied_stored[OF assms])

text \<open>A concrete instance: agents \<open>a\<close>, \<open>b\<close>, ... listed one per entry, of which \<open>b\<close> cannot be built.\<close>

definition state_codec :: "string remote_config yaml_codec" where
  "state_codec =
     \<lparr>yc_from_str = \<lambda>s. (case s of [] \<Rightarrow> Inl ''empty''
        | m # h \<Rightarrow> Inr \<lparr>rc_config = [], rc_hash = h,
            rc_state = (if m = CHR ''A'' then Applied else if m = CHR ''P'' then Applying else Failed [])\<rparr>),
      yc_to_string = \<lambda>rc. Inr ((case rc_state rc of Applied \<Rightarrow> CHR ''A'' | Applying \<Rightarrow> CHR ''P''
        | Failed _ \<Rightarrow> CHR ''F'') # rc_hash rc)\<rparr>"

definition sample_dirs :: file_store where
  "sample_dirs = \<lparr>fst_local_dir = [''l''], fst_remote_dir = [''r'']\<rparr>"

definition sample_deps :: "(disk, string, unit, unit, unit, unit) ac_deps" where
  "sample_deps =
     \<lparr>dep_opamp_enabled = True, dep_client = \<lambda>_ _. None, dep_description = \<lambda>_. Inl ''none'', dep_into = id,
      dep_build = \<lambda>_ ident. if ai_id ident = SubAgent (SubAgentID ''b'') then Some ''no binary'' else None,
      dep_store = ac_config_store_ops
        (host_ac_store no_faults state_codec \<lparr>yc_from_str = \<lambda>_. Inr [], yc_to_string = \<lambda>_. Inr []\<rparr> sample_dirs
           (\<lambda>_ _. True) () one_agent_codec
           (\<lambda>_. Inr \<lparr>acc_dynamic = ac_dynamic_config_default, acc_static = ()\<rparr>)),
      dep_codec = one_agent_codec,
      dep_ac_identity = agent_identity_from AgentControl
        \<lparr>ati_name = ''agent-control'', ati_namespace = ''newrelic'', ati_version = ()\<rparr>,
      dep_validate_remote = \<lambda>_ _. Inr (), dep_validate_dynamic = \<lambda>_. Inr (), dep_clean = \<lambda>_ _ _. None,
      dep_update = \<lambda>_ _. None\<rparr>"

definition sample_ac_state :: "(disk, unit, unit, unit) ac_state" where
  "sample_ac_state =
     \<lparr>st_repo = sample_disk, st_running = [], st_live = [], st_next = 0, st_opamp = [], st_broadcast = [],
      st_cleaned = [], st_updates = []\<rparr>"

definition sample_message :: "string list \<Rightarrow> unit opamp_remote_config" where
  "sample_message names =
     \<lparr>orc_agent_id = AgentControl, orc_hash = ''h'', orc_state = Applying, orc_signatures = None,
      orc_config_map = map (\<lambda>n. (''agentConfig-'' @ n, n)) names\<rparr>"

lemma sample_enabled: "dep_opamp_enabled sample_deps"
  by (simp add: sample_deps_def)

lemma sample_loads_maps: "loads_maps sample_deps"
  by (auto simp: loads_maps_def sample_deps_def ac_config_store_ops_def acs_load_def acs_load_config_def
    map_ok_eq_Inr rbind_eq_Inr sanitize_local_dynamic_config_def ac_dynamic_config_default_def amap_ok_def
    dynamic_from_yaml_config_def one_agent_codec_def map_err_Inr_eq Let_def split: option.splits)

lemma sample_in_sync: "in_sync ac_dynamic_config_default sample_ac_state"
  by (simp add: in_sync_def coll_ok_def amap_ok_def sample_ac_state_def ac_dynamic_config_default_def
    running_type_def configured_type_def rmap_def fun_eq_iff)

lemma state_codec_storable:
  assumes "yaml_config_from_dynamic (dep_codec sample_deps) new = Inr yaml" and "error_message st = None"
  shows "yaml_storable state_codec \<lparr>rc_config = yaml, rc_hash = ''h'', rc_state = st\<rparr>"
  using assms
  by (cases st) (auto simp: yaml_storable_def state_codec_def yaml_config_from_dynamic_def sample_deps_def
    one_agent_codec_def rbind_eq_Inr map_err_Inr_eq)

definition sample_run ::
  "string list \<Rightarrow> (agent_control_error + unit ac_dynamic_config) \<times> (disk, unit, unit, unit) ac_state" where
  "sample_run names =
     handle_remote_config sample_deps (sample_message names) ac_dynamic_config_default sample_ac_state"

theorem applied_means_applied_witness:
  "\<exists>new yaml. in_sync new (snd (sample_run [''a'', ''c''])) \<and> map fst (adc_agents new) =
       [SubAgent (SubAgentID ''a''), SubAgent (SubAgentID ''c'')] \<and>
     host_stored_config state_codec sample_dirs (st_repo (snd (sample_run [''a'', ''c'']))) AgentControl =
       Stored \<lparr>rc_config = yaml, rc_hash = ''h'', rc_state = Applied\<rparr>"
proof -
  let ?c = "sample_message [''a'', ''c'']"
  obtain r s' where run: "handle_remote_config sample_deps ?c ac_dynamic_config_default sample_ac_state = (r, s')"
    by (cases "sample_run [''a'', ''c'']") (simp add: sample_run_def)
  have h: "orc_hash ?c = ''h''" by (simp add: sample_message_def)
  have "list_ex (\<lambda>x. x = report_call Applied ''h'') (st_opamp (snd (sample_run [''a'', ''c''])))"
    by code_simp
  then have "report_call Applied (orc_hash ?c) \<in> set (st_opamp s')"
    unfolding sample_run_def run h by (simp only: snd_conv list_ex_iff) (elim bexE, simp only:)
  moreover have "st_opamp s' = st_opamp sample_ac_state @ st_opamp s'" by (simp add: sample_ac_state_def)
  ultimately have "\<exists>new yaml. dynamic_from_remote_config (dep_codec sample_deps) ?c = Inr new \<and>
      yaml_config_from_dynamic (dep_codec sample_deps) new = Inr yaml \<and>
      host_stored_config state_codec sample_dirs (st_repo s') AgentControl =
        Stored \<lparr>rc_config = yaml, rc_hash = orc_hash ?c, rc_state = Applied\<rparr> \<and>
      entries_follow ac_dynamic_config_default new {} sample_ac_state s' \<and>
      (in_sync ac_dynamic_config_default sample_ac_state \<longrightarrow> in_sync new s')"
    using sample_loads_maps sample_enabled state_codec_storable[folded h]
    by (intro applied_means_applied[OF run]) (simp_all only: sample_deps_def ac_deps.simps)
  moreover have "map fst (adc_agents (projr (dynamic_from_remote_config (dep_codec sample_deps) ?c))) =
      [SubAgent (SubAgentID ''a''), SubAgent (SubAgentID ''c'')]"
    by code_simp
  ultimately show ?thesis
    using sample_in_sync unfolding sample_run_def run h snd_conv
    by (elim exE conjE, intro exI conjI) (assumption | erule (1) mp | simp only: sum.sel)+
qed

text \<open>C2. While no configuration fails halfway, the sub-agents that run are those of the current
  configuration: in every state reachable by a start that could build every sub-agent of the initial
  configuration, followed by turns in which every remote configuration was either applied completely
  or rejected before its sub-agents were touched, each agent of the current configuration runs exactly
  once, with its configured agent type, nothing else runs, and nothing is left running outside of the
  collection. When such a run ends, nothing is left running at all.\<close>

theorem clean_runs_in_sync:
  assumes "clean_reach D (current, s)" and "dep_opamp_enabled D" and "loads_maps D"
  shows "running_type s = configured_type (adc_agents current) \<and>
    mset (st_live s) = mset (map snd (st_running s)) \<and> distinct (map fst (st_running s)) \<and>
    (\<forall>ev reason current' s'. ac_step D ev (current, s) = (Some reason, current', s') \<longrightarrow>
       st_live s' = [] \<and> st_running s' = [])"
proof -
  have sync: "in_sync current s" using clean_reach_in_sync[OF assms] by simp
  then have live: "mset (st_live s) = mset (map snd (st_running s))"
    by (simp add: in_sync_def coll_ok_def)
  have "st_live s' = [] \<and> st_running s' = []"
    if "ac_step D ev (current, s) = (Some reason, current', s')" for ev reason current' s'
    using stop_sub_agents_live[of "broadcast AgentControlStopped s"] live
    unfolding shutdown_step[OF that] by (simp add: broadcast_def)
  with sync live show ?thesis by (auto simp: in_sync_def coll_ok_def amap_ok_def)
qed

text \<open>C26. In every run, whatever fails, a sub-agent that Agent Control holds in its collection is
  alive, is held under its own id and at most once, and no two sub-agents ever share an instance.\<close>

theorem every_run_collection:
  assumes "ac_reach D (current, s)"
  shows "distinct (map fst (st_running s)) \<and>
    list_all (\<lambda>(i, sub). ai_id (sa_identity sub) = i \<and> sub \<in> set (st_live s)) (st_running s) \<and>
    distinct (map sa_instance (st_live s))"
proof -
  have weak: "coll_weak s" using ac_reach_coll_weak[OF assms] by simp
  then have "list_all (\<lambda>(i, sub). sub \<in> set (st_live s)) (st_running s)"
    using coll_weak_live by (force simp: list_all_iff)
  with weak show ?thesis by (auto simp: coll_weak_def amap_ok_def list_all_iff)
qed

text \<open>A start with agent \<open>a\<close>, then a remote configuration with the agents \<open>a\<close> and \<open>c\<close>.\<close>

definition sample_initial :: "unit ac_dynamic_config" where
  "sample_initial = ac_dynamic_config_default\<lparr>adc_agents := [(SubAgent (SubAgentID ''a''),
     \<lparr>sac_agent_type = \<lparr>ati_name = ''n'', ati_namespace = ''ns'', ati_version = ()\<rparr>\<rparr>)]\<rparr>"

definition sample_started :: "(disk, unit, unit, unit) ac_state" where
  "sample_started = snd (ac_start sample_deps sample_initial sample_ac_state)"

definition sample_second ::
  "string list \<Rightarrow> (agent_control_error + unit ac_dynamic_config) \<times> (disk, unit, unit, unit) ac_state" where
  "sample_second names =
     handle_remote_config sample_deps (sample_message names) sample_initial sample_started"

lemma sample_clean_start: "clean_reach sample_deps (sample_initial, sample_started)"
proof (rule clean_start)
  show "fresh sample_ac_state" by (simp add: fresh_def sample_ac_state_def)
  show "amap_ok (adc_agents sample_initial)" by (simp add: sample_initial_def amap_ok_def)
  show "is_ok (fst (build_and_run_sub_agents sample_deps (adc_agents sample_initial) sample_ac_state))"
    by code_simp
  have "is_ok (fst (ac_start sample_deps sample_initial sample_ac_state))" by code_simp
  then show "ac_start sample_deps sample_initial sample_ac_state = (Inr (), sample_started)"
    by (cases "ac_start sample_deps sample_initial sample_ac_state") (simp add: sample_started_def is_ok_iff)
qed

lemma sample_started_in_sync: "in_sync sample_initial sample_started"
  using clean_reach_in_sync[OF sample_clean_start sample_enabled sample_loads_maps]
  by (simp only: fst_conv snd_conv)

lemma sample_clean_second:
  "\<exists>new. sample_second [''a'', ''c''] = (Inr new, snd (sample_second [''a'', ''c''])) \<and>
     map fst (adc_agents new) = [SubAgent (SubAgentID ''a''), SubAgent (SubAgentID ''c'')]"
proof -
  have "is_ok (fst (sample_second [''a'', ''c'']))" by code_simp
  then obtain new where new: "fst (sample_second [''a'', ''c'']) = Inr new" unfolding is_ok_iff by (elim exE)
  have "map fst (adc_agents (projr (fst (sample_second [''a'', ''c''])))) =
      [SubAgent (SubAgentID ''a''), SubAgent (SubAgentID ''c'')]" by code_simp
  then have "map fst (adc_agents new) = [SubAgent (SubAgentID ''a''), SubAgent (SubAgentID ''c'')]"
    unfolding new sum.sel .
  with new show ?thesis by (intro exI conjI) (simp_all only: prod_eq_iff fst_conv snd_conv)
qed

lemma sample_clean_reach:
  assumes "sample_second names = (Inr new, s')"
  shows "clean_reach sample_deps (new, s')"
proof (rule clean_step[OF sample_clean_start])
  let ?ev = "OpampInput (RemoteConfigReceived (sample_message names))"
  show "clean_input sample_deps ?ev (sample_initial, sample_started)"
    using assms by (simp add: sample_second_def is_ok_def)
  show "ac_step sample_deps ?ev (sample_initial, sample_started) = (None, new, s')"
    using assms by (simp add: sample_second_def)
qed

theorem clean_runs_in_sync_witness:
  "\<exists>current s. clean_reach sample_deps (current, s) \<and> map fst (adc_agents current) =
      [SubAgent (SubAgentID ''a''), SubAgent (SubAgentID ''c'')] \<and>
    running_type s = configured_type (adc_agents current)"
proof -
  obtain new s' where new: "sample_second [''a'', ''c''] = (Inr new, s')"
    and names: "map fst (adc_agents new) = [SubAgent (SubAgentID ''a''), SubAgent (SubAgentID ''c'')]"
    using sample_clean_second by (elim exE conjE)
  note reach = sample_clean_reach[OF new]
  from clean_runs_in_sync[OF reach sample_enabled sample_loads_maps] reach names show ?thesis
    by (intro exI conjI) (elim conjE, assumption)+
qed

theorem every_run_collection_witness:
  "list_all (\<lambda>(i, sub). ai_id (sa_identity sub) = i \<and> sub \<in> set (st_live sample_started))
     (st_running sample_started) \<and> st_running sample_started \<noteq> []"
proof -
  have "0 < length (st_running sample_started)" by code_simp
  with every_run_collection[OF clean_reach_ac_reach[OF sample_clean_start]] show ?thesis
    by auto
qed

text \<open>C3. A configuration that is handled successfully replaces only what changed, from whatever state: every
  agent of the new configuration whose configuration is not the current one runs with its new agent
  type, every agent whose configuration is the current one keeps the very instance it had, agents that
  only the current configuration names are not held any more, and the entries of all other agents stay
  as they were. If the sub-agents were in sync with the current configuration before, they are then in
  sync with the new one. The reports were \<open>Applying\<close>, then \<open>Applied\<close>, then the effective configuration.\<close>

theorem handle_replaces_changed:
  assumes "handle_remote_config D c current s = (Inr new, s')" and "dep_opamp_enabled D" and "loads_maps D"
  shows "entries_follow current new {} s s' \<and> (in_sync current s \<longrightarrow> in_sync new s') \<and>
    st_opamp s' = st_opamp s @
      [report_call Applying (orc_hash c), report_call Applied (orc_hash c), UpdateEffectiveConfig]"
proof -
  let ?s0 = "s\<lparr>st_opamp := st_opamp s @ [report_call Applying (orc_hash c)]\<rparr>"
  obtain s1 s2 where p: "prepare_remote_config D c ?s0 = (Inr new, s1)"
    and a: "apply_remote_config_agents D current new s1 = (Inr (), s2)"
    and f: "finish_ok D (orc_hash c) new s2 = (Inr new, s')"
    using handle_ok_Inr[OF assms(1,2)] by blast
  have "st_opamp s2 = st_opamp ?s0"
    using apply_agents_frame[OF a] prepare_frame[OF p] by (simp add: same_agents_def)
  then show ?thesis
    using finish_ok_Inr[OF f] handle_ok_in_sync[OF assms] handle_ok_entries[OF assms] by simp
qed

lemma entries_follow_same:
  assumes "entries_follow current new failed s s'" and "map_of (adc_agents current) i = map_of (adc_agents new) i"
    and "i \<in> fst ` set (adc_agents current)"
  shows "map_of (st_running s') i = map_of (st_running s) i"
proof -
  obtain cfg where "map_of (adc_agents current) i = Some cfg"
    using assms(3) by (cases "map_of (adc_agents current) i") (auto simp: map_of_eq_None_iff)
  then show ?thesis using assms(1,2) unfolding entries_follow_def by (auto dest: spec[of _ i])
qed

theorem handle_replaces_changed_witness:
  "\<exists>new. in_sync new (snd (sample_second [''a'', ''c''])) \<and>
     map_of (st_running (snd (sample_second [''a'', ''c'']))) (SubAgent (SubAgentID ''a'')) =
       map_of (st_running sample_started) (SubAgent (SubAgentID ''a''))"
proof -
  obtain new s' where new: "sample_second [''a'', ''c''] = (Inr new, s')"
    using sample_clean_second by (elim exE conjE)
  note handled = handle_replaces_changed[OF new[unfolded sample_second_def] sample_enabled sample_loads_maps]
  note sync = mp[OF conjunct1[OF conjunct2[OF handled]] sample_started_in_sync]
  have "map_of (adc_agents sample_initial) (SubAgent (SubAgentID ''a'')) =
      map_of (adc_agents (projr (fst (sample_second [''a'', ''c''])))) (SubAgent (SubAgentID ''a''))"
    by code_simp
  then have "map_of (adc_agents sample_initial) (SubAgent (SubAgentID ''a'')) =
      map_of (adc_agents new) (SubAgent (SubAgentID ''a''))"
    unfolding new fst_conv sum.sel .
  moreover have "(SubAgent (SubAgentID ''a'')) \<in> fst ` set (adc_agents sample_initial)"
    by (simp add: sample_initial_def)
  ultimately have "map_of (st_running s') (SubAgent (SubAgentID ''a'')) =
       map_of (st_running sample_started) (SubAgent (SubAgentID ''a''))"
    using entries_follow_same[OF conjunct1[OF handled]] by metis
  with sync show ?thesis unfolding new snd_conv by blast
qed



text \<open>C25. A configuration that is not applied is reported, provided the client takes every call: the
  server sees \<open>Applying\<close> and then a failure with a message, after which the sub-agents are as they were,
  or a failure for some agents. The one exception is a configuration that was validated, stored and
  applied, completely or in part, and for which the store then fails to update the state: that error is
  the result, and nothing more is reported.\<close>

theorem failure_reported:
  assumes "handle_remote_config D c current s = (Inl e, s')" and "dep_opamp_enabled D"
    and "\<And>t call. dep_client D t call = None"
  shows "(\<exists>m. st_opamp s' = st_opamp s @
      [report_call Applying (orc_hash c), report_call (Failed m) (orc_hash c)] \<and>
      st_running s' = st_running s \<and> st_live s' = st_live s) \<or>
    (\<exists>m. st_opamp s' = st_opamp s @
      [report_call Applying (orc_hash c), report_call (Failed m) (orc_hash c), UpdateEffectiveConfig] \<and>
      (\<exists>errs. e = BuildingSubagents errs)) \<or>
    (\<exists>v s2 st msg. validate_apply_store_remote_config D c current
        (s\<lparr>st_opamp := st_opamp s @ [report_call Applying (orc_hash c)]\<rparr>) = (v, s2) \<and>
      (is_ok v \<and> st = Applied \<or> (\<exists>errs m. v = Inl (BuildingSubagents errs) \<and> st = Failed m)) \<and>
      dcr_update_state (dep_store D) st (st_repo s2) = (Inl msg, st_repo s') \<and> e = ConfigResolve msg \<and>
      st_opamp s' = st_opamp s @ [report_call Applying (orc_hash c)])"
proof -
  let ?s0 = "s\<lparr>st_opamp := st_opamp s @ [report_call Applying (orc_hash c)]\<rparr>"
  have prep: "st_opamp s1 = st_opamp ?s0 \<and> same_collection s s1"
    if "prepare_remote_config D c ?s0 = (p, s1)" for p s1
    using prepare_frame[OF that] by (simp add: same_agents_def same_collection_def)
  from assms(1,2) show ?thesis
  proof (cases rule: handle_cases)
    case (not_reported e)
    then show ?thesis by (simp add: assms(3))
  next
    case (rejected e' s1)
    from movesD[OF finish_same_collection(3) rejected(3)] finish_rejected_log[OF rejected(3)] prep[OF rejected(2)]
    show ?thesis by (auto simp: same_collection_def)
  next
    case (partial new s1 errs s2)
    have s2: "st_opamp s2 = st_opamp ?s0"
      using apply_agents_frame[OF partial(3)] prep[OF partial(2)] by simp
    have v: "validate_apply_store_remote_config D c current ?s0 = (Inl (BuildingSubagents errs), s2)"
      using partial(2,3) by (simp add: validate_apply_store_split sbind_def)
    have "e = BuildingSubagents errs \<or> (\<exists>m msg. e = ConfigResolve msg \<and> st_opamp s' = st_opamp s2 \<and>
        dcr_update_state (dep_store D) (Failed m) (st_repo s2) = (Inl msg, st_repo s'))"
      using partial(4) assms(3)
      by (auto simp: finish_partial_def Let_def sbind_def on_repo_def ac_report_state_def client_call_def
        slift_def map_err_eq_Inl split: prod.splits sum.splits)
    with s2 v finish_partial_log[OF partial(4)] show ?thesis by auto
  next
    case (applied new s1 s2)
    have s2: "st_opamp s2 = st_opamp ?s0"
      using apply_agents_frame[OF applied(3)] prep[OF applied(2)] by simp
    have v: "validate_apply_store_remote_config D c current ?s0 = (Inr new, s2)"
      using applied(2,3) by (simp add: validate_apply_store_split sbind_def slift_def)
    have "\<exists>msg. e = ConfigResolve msg \<and> st_opamp s' = st_opamp s2 \<and>
        dcr_update_state (dep_store D) Applied (st_repo s2) = (Inl msg, st_repo s')"
      using applied(4) assms(3)
      by (auto simp: finish_ok_def sbind_def on_repo_def ac_report_state_def client_call_def slift_def
        map_err_eq_Inl split: prod.splits sum.splits)
    with s2 v show ?thesis by (auto simp: is_ok_def)
  qed
qed

theorem failure_reported_witness:
  "\<exists>m. drop (length (st_opamp sample_started)) (st_opamp (snd (sample_second [''a'', ''a'']))) =
     [report_call Applying ''h'', report_call (Failed m) ''h'']"
proof -
  let ?c = "sample_message [''a'', ''a'']" and ?s' = "snd (sample_second [''a'', ''a''])"
  have "\<not> is_ok (fst (sample_second [''a'', ''a'']))" by code_simp
  then obtain e where "fst (sample_second [''a'', ''a'']) = Inl e"
    by (cases "fst (sample_second [''a'', ''a''])") (simp_all only: is_ok_def sum.case not_True_eq_False)
  then have run: "handle_remote_config sample_deps ?c sample_initial sample_started = (Inl e, ?s')"
    unfolding sample_second_def by (simp only: prod_eq_iff fst_conv snd_conv)
  have client: "dep_client sample_deps t call = None" for t call by (simp add: sample_deps_def)
  have h: "orc_hash ?c = ''h''" by (simp add: sample_message_def)
  have len: "length (st_opamp ?s') = length (st_opamp sample_started) + 2" by code_simp
  show ?thesis
    using failure_reported[OF run sample_enabled client] len unfolding h
    by (elim disjE exE conjE) (simp_all, rule exI, rule refl)
qed

text \<open>C34. Handling an empty configuration, the request to go back to the local one, never succeeds on the
  host. In particular this holds when it is validated and applied: then no remote configuration is
  stored any more, the sub-agents follow the local configuration that was loaded, and yet the result is
  an error and only \<open>Applying\<close> was reported, since the remote configuration is deleted before its state
  is updated to \<open>Applied\<close>.\<close>

theorem host_reset_never_succeeds:
  fixes A :: "(disk, 'j, 'h, 'a, 'v, 's) ac_deps"
  assumes "dep_store A = ac_config_store_ops (host_ac_store os rcodec lcodec dirs has_capability caps codec build)"
    and "is_agent_configs_empty c" and "dep_opamp_enabled A" and "loads_maps A"
    and "dep_client A s (report_call Applying (orc_hash c)) = None"
  shows "\<not> is_ok (fst (handle_remote_config A c current s)) \<and>
    (\<forall>new s2. validate_apply_store_remote_config A c current
        (s\<lparr>st_opamp := st_opamp s @ [report_call Applying (orc_hash c)]\<rparr>) = (Inr new, s2) \<longrightarrow>
      (\<exists>msg s'. handle_remote_config A c current s = (Inl (ConfigResolve msg), s') \<and>
        st_opamp s' = st_opamp s @ [report_call Applying (orc_hash c)] \<and>
        host_stored_config rcodec dirs (st_repo s2) AgentControl = Absent \<and>
        dcr_load (dep_store A) (st_repo s2) = Inr new \<and>
        entries_follow current new {} s s' \<and> (in_sync current s \<longrightarrow> in_sync new s')))"
proof (intro conjI allI impI)
  obtain r s' where run: "handle_remote_config A c current s = (r, s')" by fastforce
  from host_ac.reset_not_applied[OF run assms(1,2)] show "\<not> is_ok (fst (handle_remote_config A c current s))"
    by (simp add: run)
next
  fix new s2
  assume "validate_apply_store_remote_config A c current
      (s\<lparr>st_opamp := st_opamp s @ [report_call Applying (orc_hash c)]\<rparr>) = (Inr new, s2)"
  from host_ac.reset_applied_unreported[OF this assms] show
    "\<exists>msg s'. handle_remote_config A c current s = (Inl (ConfigResolve msg), s') \<and>
      st_opamp s' = st_opamp s @ [report_call Applying (orc_hash c)] \<and>
      host_stored_config rcodec dirs (st_repo s2) AgentControl = Absent \<and>
      dcr_load (dep_store A) (st_repo s2) = Inr new \<and>
      entries_follow current new {} s s' \<and> (in_sync current s \<longrightarrow> in_sync new s')"
    by (simp only: assms(1))
qed

theorem host_reset_never_succeeds_witness:
  "\<exists>new msg. fst (sample_second []) = Inl (ConfigResolve msg) \<and> in_sync new (snd (sample_second [])) \<and>
     st_running (snd (sample_second [])) = [] \<and> st_running sample_started \<noteq> []"
proof -
  let ?c = "sample_message []"
  let ?s0 = "sample_started\<lparr>st_opamp := st_opamp sample_started @ [report_call Applying (orc_hash ?c)]\<rparr>"
  have store: "dep_store sample_deps = ac_config_store_ops
      (host_ac_store no_faults state_codec \<lparr>yc_from_str = \<lambda>_. Inr [], yc_to_string = \<lambda>_. Inr []\<rparr> sample_dirs
         (\<lambda>_ _. True) () one_agent_codec
         (\<lambda>_. Inr \<lparr>acc_dynamic = ac_dynamic_config_default, acc_static = ()\<rparr>))"
    by (simp only: sample_deps_def ac_deps.simps)
  have empty: "is_agent_configs_empty ?c" by code_simp
  have client: "dep_client sample_deps sample_started (report_call Applying (orc_hash ?c)) = None"
    by (simp only: sample_deps_def ac_deps.simps)
  have "is_ok (fst (validate_apply_store_remote_config sample_deps ?c sample_initial ?s0))" by code_simp
  then obtain new where "fst (validate_apply_store_remote_config sample_deps ?c sample_initial ?s0) = Inr new"
    unfolding is_ok_iff by (elim exE)
  then obtain s2 where applied: "validate_apply_store_remote_config sample_deps ?c sample_initial ?s0 = (Inr new, s2)"
    by (cases "validate_apply_store_remote_config sample_deps ?c sample_initial ?s0") (simp only: fst_conv)
  obtain msg s' where run: "handle_remote_config sample_deps ?c sample_initial sample_started =
      (Inl (ConfigResolve msg), s')" and sync: "in_sync sample_initial sample_started \<longrightarrow> in_sync new s'"
    using conjunct2[OF host_reset_never_succeeds[OF store empty sample_enabled sample_loads_maps client]] applied
    by blast
  have "st_running (snd (sample_second [])) = []" "0 < length (st_running sample_started)" by code_simp+
  with run mp[OF sync sample_started_in_sync] show ?thesis
    unfolding sample_second_def by (intro exI[of _ new] exI[of _ msg] conjI) simp_all
qed

text \<open>C35. After a partial failure the loop goes on with the old configuration as the current one, although
  sub-agents of the new one run: an agent \<open>i\<close> that the failed configuration started, that the old one does
  not name and that the next successfully handled configuration names again is then built a second time.
  The instance that ran leaves the collection without being stopped, so two sub-agents are alive for \<open>i\<close>,
  and whatever happens until and including the end of the loop, the first one is never stopped.\<close>

theorem partial_failure_leaks:
  assumes "ac_reach D (current, s)" and "dep_opamp_enabled D" and "loads_maps D"
    and "handle_remote_config D c1 current s = (Inl (BuildingSubagents errs), s1)"
    and "\<not> is_agent_configs_empty c1" and "dynamic_from_remote_config (dep_codec D) c1 = Inr new1"
    and "(i, cfg) \<in> set (adc_agents new1)" and "i \<notin> fst ` set errs" and "i \<notin> fst ` set (adc_agents current)"
    and "handle_remote_config D c2 current s1 = (Inr new2, s2)" and "i \<in> fst ` set (adc_agents new2)"
  shows "process_events D [OpampInput (RemoteConfigReceived c1), OpampInput (RemoteConfigReceived c2)] (current, s) =
      (None, new2, s2) \<and>
    (\<exists>old sub. map_of (st_running s1) i = Some old \<and> ai_id (sa_identity old) = i \<and>
       map_of (st_running s2) i = Some sub \<and> sub \<in> set (st_live s2) \<and> old \<in> set (st_live s2) \<and> old \<noteq> sub \<and>
       (\<forall>evs reason current' s3. process_events D evs (new2, s2) = (reason, current', s3) \<longrightarrow>
          old \<in> set (st_live s3)))"
proof -
  have weak: "coll_weak s1" "coll_weak s2"
    using ac_reach_coll_weak[OF assms(1)] weak.keeps_handle assms(4,10) by (simp, blast)+
  have none: "map_of (adc_agents current) i = None" using assms(9) by (simp add: map_of_eq_None_iff)
  have "map_of (adc_agents new1) i = Some cfg"
    using assms(7) dynamic_config_agents_union[OF assms(6)] by (auto simp: amap_ok_def)
  moreover have "entries_follow current new1 (fst ` set errs) s s1"
    using partial_failure_entries[OF assms(4,2,3,5,6)] .
  ultimately have "running_type s1 i = Some (sac_agent_type cfg)"
    using none assms(8) unfolding entries_follow_def by (auto dest: spec[of _ i])
  then obtain old where old: "map_of (st_running s1) i = Some old" by (auto simp: running_type_def rmap_def)
  have orphan: "orphaned old s2" using handle_orphans[OF assms(10,2,3) weak(1) old assms(9,11)] .
  obtain cfg2 where "map_of (adc_agents new2) i = Some cfg2"
    using assms(11) by (cases "map_of (adc_agents new2) i") (auto simp: map_of_eq_None_iff)
  then have "running_type s2 i = Some (sac_agent_type cfg2)"
    using handle_ok_entries[OF assms(10,2,3)] none unfolding entries_follow_def by (auto dest: spec[of _ i])
  then obtain sub where sub: "map_of (st_running s2) i = Some sub" by (auto simp: running_type_def rmap_def)
  then have held: "sub \<in> snd ` set (st_running s2)" by (force dest: map_of_SomeD)
  then have "sub \<in> set (st_live s2)" using coll_weak_live[OF weak(2)] by blast
  moreover have "old \<noteq> sub" "old \<in> set (st_live s2)" using orphan held by (auto simp: orphaned_def)
  moreover have "ai_id (sa_identity old) = i"
    using weak(1) old by (auto simp: coll_weak_def list_all_iff dest: map_of_SomeD)
  moreover have "process_events D [OpampInput (RemoteConfigReceived c1), OpampInput (RemoteConfigReceived c2)]
      (current, s) = (None, new2, s2)"
    using assms(4,10) by simp
  ultimately show ?thesis using old sub orphaned_stays_alive[OF _ orphan] by blast
qed

text \<open>The failed configuration adds \<open>c\<close> and \<open>b\<close>, which cannot be built; the next one adds \<open>c\<close> alone.\<close>

definition sample_third ::
  "(agent_control_error + unit ac_dynamic_config) \<times> (disk, unit, unit, unit) ac_state" where
  "sample_third =
     handle_remote_config sample_deps (sample_message [''a'', ''c'']) sample_initial (snd (sample_second [''a'', ''b'', ''c'']))"

definition agent_c :: agent_id where
  "agent_c = SubAgent (SubAgentID ''c'')"

theorem partial_failure_leaks_witness:
  "\<exists>old sub. map_of (st_running (snd (sample_second [''a'', ''b'', ''c'']))) agent_c = Some old \<and>
     map_of (st_running (snd sample_third)) agent_c = Some sub \<and> old \<noteq> sub \<and>
     old \<in> set (st_live (snd sample_third))"
proof -
  let ?c1 = "sample_message [''a'', ''b'', ''c'']" and ?c2 = "sample_message [''a'', ''c'']"
  have "(case fst (sample_second [''a'', ''b'', ''c'']) of
      Inl (BuildingSubagents errs) \<Rightarrow> agent_c \<notin> fst ` set errs | _ \<Rightarrow> False)"
    by code_simp
  then obtain errs where errs: "fst (sample_second [''a'', ''b'', ''c'']) = Inl (BuildingSubagents errs)"
    and c: "agent_c \<notin> fst ` set errs"
    by (auto split: sum.splits agent_control_error.splits)
  have run1: "handle_remote_config sample_deps ?c1 sample_initial sample_started =
      (Inl (BuildingSubagents errs), snd (sample_second [''a'', ''b'', ''c'']))"
    using errs unfolding sample_second_def by (simp only: prod_eq_iff fst_conv snd_conv)
  have "(case dynamic_from_remote_config (dep_codec sample_deps) ?c1 of
      Inr new1 \<Rightarrow> ahas (adc_agents new1) agent_c | _ \<Rightarrow> False)"
    by code_simp
  then obtain new1 cfg where new1: "dynamic_from_remote_config (dep_codec sample_deps) ?c1 = Inr new1"
    "(agent_c, cfg) \<in> set (adc_agents new1)"
    by (auto simp: ahas_iff akeys_def split: sum.splits)
  have "(case fst sample_third of Inr new2 \<Rightarrow> ahas (adc_agents new2) agent_c | _ \<Rightarrow> False)" by code_simp
  then obtain new2 where "fst sample_third = Inr new2" and new2: "agent_c \<in> fst ` set (adc_agents new2)"
    by (auto simp: ahas_iff akeys_def split: sum.splits)
  then have run2: "handle_remote_config sample_deps ?c2 sample_initial (snd (sample_second [''a'', ''b'', ''c''])) =
      (Inr new2, snd sample_third)"
    unfolding sample_third_def by (simp only: prod_eq_iff fst_conv snd_conv)
  have empty: "\<not> is_agent_configs_empty ?c1" by code_simp
  have absent: "agent_c \<notin> fst ` set (adc_agents sample_initial)" by code_simp
  from partial_failure_leaks[OF clean_reach_ac_reach[OF sample_clean_start] sample_enabled sample_loads_maps run1
      empty new1 c absent run2 new2]
  show ?thesis by (elim conjE exE) (intro exI conjI)
qed

end
