(* ===== verification/Instance_Id.thy ===== *)
theory Instance_Id
  imports Data_Store
begin

text \<open>
  Instance ids of the agents (\<open>opamp/instance_id/storer.rs\<close>, \<open>opamp/instance_id/getter.rs\<close>): an id is
  created the first time it is asked for, bound to the identifiers of the host or cluster, persisted,
  and returned from then on. \<open>InstanceID::create\<close> draws an id from the OpAMP library; the parameter
  \<open>create\<close> gives the id drawn in a state of the store. The mutex of the getter makes a \<open>get\<close> one
  step.
\<close>

definition STORE_KEY_INSTANCE_ID :: store_key where
  "STORE_KEY_INSTANCE_ID = ''instance_id''"

record ('i, 'u) data_stored =
  dst_instance_id :: 'u
  dst_identifiers :: 'i

text \<open>\<open>StorerError\<close> wraps the error of the store; it is that error here.\<close>

definition storer_set ::
  "('d, 'e, ('i, 'u) data_stored, 'b, 'v) data_store_ops \<Rightarrow> agent_id \<Rightarrow> ('i, 'u) data_stored \<Rightarrow> 'd
   \<Rightarrow> ('e + unit) \<times> 'd" where
  "storer_set ds i data d = ds_set_remote_data ds i OwnedByAgentControl STORE_KEY_INSTANCE_ID data d"

definition storer_get ::
  "('d, 'e, ('i, 'u) data_stored, 'b, 'v) data_store_ops \<Rightarrow> agent_id \<Rightarrow> 'd
   \<Rightarrow> 'e + ('i, 'u) data_stored option" where
  "storer_get ds i d =
     rbind (ds_get_remote_data ds i STORE_KEY_INSTANCE_ID d)
       (\<lambda>maybe. case maybe of Some data \<Rightarrow> Inr (Some data) | None \<Rightarrow> Inr None)"

definition storer_delete ::
  "('d, 'e, ('i, 'u) data_stored, 'b, 'v) data_store_ops \<Rightarrow> agent_id \<Rightarrow> 'd \<Rightarrow> ('e + unit) \<times> 'd" where
  "storer_delete ds i d = ds_delete_remote_data ds i STORE_KEY_INSTANCE_ID d"

definition instance_id_get ::
  "('d, 'e, ('i, 'u) data_stored, 'b, 'v) data_store_ops \<Rightarrow> ('d \<Rightarrow> 'u) \<Rightarrow> 'i \<Rightarrow> agent_id \<Rightarrow> 'd
   \<Rightarrow> ('e + 'u) \<times> 'd" where
  "instance_id_get ds create identifiers i d =
     (case storer_get ds i d of
        Inl e \<Rightarrow> (Inl e, d)
      | Inr data \<Rightarrow>
          (let renew =
             (let new_data = \<lparr>dst_instance_id = create d, dst_identifiers = identifiers\<rparr>
              in case storer_set ds i new_data d of
                   (Inl e, d') \<Rightarrow> (Inl e, d')
                 | (Inr _, d') \<Rightarrow> (Inr (dst_instance_id new_data), d'))
           in case data of
                None \<Rightarrow> renew
              | Some st \<Rightarrow>
                  if dst_identifiers st = identifiers then (Inr (dst_instance_id st), d) else renew))"

text \<open>A sequence of requests, for any agents.\<close>

definition instance_id_gets ::
  "('d, 'e, ('i, 'u) data_stored, 'b, 'v) data_store_ops \<Rightarrow> ('d \<Rightarrow> 'u) \<Rightarrow> 'i \<Rightarrow> agent_id list \<Rightarrow> 'd \<Rightarrow> 'd" where
  "instance_id_gets ds create identifiers is d =
     fold (\<lambda>i d. snd (instance_id_get ds create identifiers i d)) is d"

text \<open>A data store that holds instance ids.\<close>

locale instance_id_store =
  data_store ds view local_view storable
  for ds :: "('d, 'e, ('i, 'u) data_stored, 'b, 'v) data_store_ops"
    and view :: "'d \<Rightarrow> agent_id \<Rightarrow> store_key \<Rightarrow> ('i, 'u) data_stored stored"
    and local_view :: "'d \<Rightarrow> agent_id \<Rightarrow> store_key \<Rightarrow> 'b stored"
    and storable :: "('i, 'u) data_stored \<Rightarrow> bool"
begin

lemma storer_get_view: "storer_get ds i d = Inr r \<Longrightarrow> view d i STORE_KEY_INSTANCE_ID = stored_of r"
  using get_remote_view
  by (fastforce simp: storer_get_def rbind_def split: sum.splits option.splits)

lemma get_stores:
  assumes "instance_id_get ds create ids i d = (Inr u, d')"
    and "\<And>x. storable \<lparr>dst_instance_id = x, dst_identifiers = ids\<rparr>"
  shows "view d' i STORE_KEY_INSTANCE_ID = Stored \<lparr>dst_instance_id = u, dst_identifiers = ids\<rparr>"
proof -
  from assms(1) obtain data where data: "storer_get ds i d = Inr data"
    by (auto simp: instance_id_get_def split: sum.splits)
  show ?thesis
  proof (cases "\<exists>st. data = Some st \<and> dst_identifiers st = ids")
    case True
    then show ?thesis
      using assms(1) storer_get_view[OF data] data by (auto simp: instance_id_get_def)
  next
    case False
    then obtain u' where "storer_set ds i \<lparr>dst_instance_id = create d, dst_identifiers = ids\<rparr> d = (Inr u', d')"
      and "u = create d"
      using assms(1) data by (auto simp: instance_id_get_def Let_def split: option.splits prod.splits sum.splits)
    then show ?thesis using assms(2) set_stores unfolding storer_set_def by blast
  qed
qed

lemma get_keeps:
  assumes stored: "view d i STORE_KEY_INSTANCE_ID = Stored \<lparr>dst_instance_id = u, dst_identifiers = ids\<rparr>"
    and wf: "agent_id_wf i" "agent_id_wf j"
  shows "view (snd (instance_id_get ds create ids j d)) i STORE_KEY_INSTANCE_ID =
    Stored \<lparr>dst_instance_id = u, dst_identifiers = ids\<rparr>"
proof (cases "storer_get ds j d")
  case (Inl e)
  then show ?thesis using stored by (simp add: instance_id_get_def)
next
  case (Inr data)
  show ?thesis
  proof (cases "j = i")
    case True
    then have "data = Some \<lparr>dst_instance_id = u, dst_identifiers = ids\<rparr>"
      using storer_get_view[OF Inr] stored by (cases data) simp_all
    then show ?thesis using Inr stored by (simp add: instance_id_get_def)
  next
    case False
    have "view d' i STORE_KEY_INSTANCE_ID = view d i STORE_KEY_INSTANCE_ID"
      if "storer_set ds j v d = (w, d')" for v w d'
      using set_keeps_others[of j OwnedByAgentControl STORE_KEY_INSTANCE_ID v d w d' i
          STORE_KEY_INSTANCE_ID] that wf False
      by (auto simp: storer_set_def)
    then show ?thesis using Inr stored
      by (auto simp: instance_id_get_def Let_def split: option.splits prod.splits sum.splits)
  qed
qed

lemma gets_keep:
  assumes "view d i STORE_KEY_INSTANCE_ID = Stored \<lparr>dst_instance_id = u, dst_identifiers = ids\<rparr>"
    and "agent_id_wf i" and "list_all agent_id_wf js"
  shows "view (instance_id_gets ds create ids js d) i STORE_KEY_INSTANCE_ID =
    Stored \<lparr>dst_instance_id = u, dst_identifiers = ids\<rparr>"
  using assms
proof (induction js arbitrary: d)
  case (Cons j js)
  from Cons.prems have "view (snd (instance_id_get ds create ids j d)) i STORE_KEY_INSTANCE_ID =
    Stored \<lparr>dst_instance_id = u, dst_identifiers = ids\<rparr>"
    by (intro get_keeps) simp_all
  with Cons show ?case by (simp add: instance_id_gets_def)
qed (simp add: instance_id_gets_def)

lemma instance_id_stable_lemma:
  assumes "instance_id_get ds create ids i d = (Inr u, d0)"
    and "\<And>x. storable \<lparr>dst_instance_id = x, dst_identifiers = ids\<rparr>"
    and "agent_id_wf i" and "list_all agent_id_wf js"
    and "instance_id_get ds create ids i (instance_id_gets ds create ids js d0) = (Inr u', d2)"
  shows "u' = u"
proof -
  let ?late = "instance_id_gets ds create ids js d0"
  have stored: "view ?late i STORE_KEY_INSTANCE_ID = Stored \<lparr>dst_instance_id = u, dst_identifiers = ids\<rparr>"
    using gets_keep[OF get_stores[OF assms(1,2)] assms(3,4)] .
  from assms(5) obtain data where data: "storer_get ds i ?late = Inr data"
    by (auto simp: instance_id_get_def split: sum.splits)
  with storer_get_view[OF data] stored have "data = Some \<lparr>dst_instance_id = u, dst_identifiers = ids\<rparr>"
    by (cases data) simp_all
  with data assms(5) show ?thesis by (simp add: instance_id_get_def)
qed

end

interpretation file_instance_ids: instance_id_store "file_store_ops os rc lc st" "remote_view rc st"
  "local_file_view lc st" "yaml_storable rc" for os rc lc st
  by unfold_locales

text \<open>C29. On the host, the instance id of an agent is stable: once a request for it succeeded, every
  later successful request with the same identifiers returns the same id, whatever requests for this
  and other agents happened in between, and whichever system calls of those failed. The hypothesis
  is that the YAML library reads back what it writes.\<close>

theorem instance_id_stable:
  fixes ops :: "(disk, io_error, ('i, 'u) data_stored, 'b, 'v) data_store_ops"
  assumes ops: "ops = file_store_ops os rc lc st"
    and "instance_id_get ops create ids i d = (Inr u, d0)"
    and "\<And>x. yaml_storable rc \<lparr>dst_instance_id = x, dst_identifiers = ids\<rparr>"
    and "agent_id_wf i" and "list_all agent_id_wf js"
    and "instance_id_get ops create ids i (instance_id_gets ops create ids js d0) = (Inr u', d2)"
  shows "u' = u"
  using assms(2-6) unfolding ops by (rule file_instance_ids.instance_id_stable_lemma)

definition bool_codec :: "(unit, bool) data_stored yaml_codec" where
  "bool_codec =
     \<lparr>yc_from_str = \<lambda>s. Inr \<lparr>dst_instance_id = (s = ''t''), dst_identifiers = ()\<rparr>,
      yc_to_string = \<lambda>v. Inr (if dst_instance_id v then ''t'' else ''f'')\<rparr>"

lemma bool_codec_storable: "yaml_storable bool_codec \<lparr>dst_instance_id = x, dst_identifiers = ()\<rparr>"
  by (cases x) (simp_all add: yaml_storable_def bool_codec_def)

theorem instance_id_stable_witness:
  "let ops = (file_store_ops no_faults bool_codec
               (\<lparr>yc_from_str = Inl, yc_to_string = (\<lambda>_. Inl [])\<rparr> :: unit yaml_codec)
               \<lparr>fst_local_dir = [''l''], fst_remote_dir = [''r'']\<rparr>
             :: (disk, io_error, (unit, bool) data_stored, unit, unit) data_store_ops);
       create = (\<lambda>d. dk_files d = []);
       d = \<lparr>dk_files = [], dk_dirs = []\<rparr>;
       d0 = snd (instance_id_get ops create () AgentControl d)
   in fst (instance_id_get ops create () AgentControl d) = Inr True \<and>
      fst (instance_id_get ops create () AgentControl
         (instance_id_gets ops create () [SubAgent (SubAgentID ''a''), AgentControl] d0)) = Inr True"
proof -
  let ?ops = "file_store_ops no_faults bool_codec
               (\<lparr>yc_from_str = Inl, yc_to_string = (\<lambda>_. Inl [])\<rparr> :: unit yaml_codec)
               \<lparr>fst_local_dir = [''l''], fst_remote_dir = [''r'']\<rparr>
             :: (disk, io_error, (unit, bool) data_stored, unit, unit) data_store_ops"
  let ?create = "\<lambda>d :: disk. dk_files d = []"
  let ?d = "\<lparr>dk_files = [], dk_dirs = []\<rparr> :: disk"
  let ?mid = "snd (instance_id_get ?ops ?create () AgentControl ?d)"
  let ?late = "instance_id_gets ?ops ?create () [SubAgent (SubAgentID ''a''), AgentControl] ?mid"
  have first: "fst (instance_id_get ?ops ?create () AgentControl ?d) = Inr True"
    by code_simp
  have e1: "instance_id_get ?ops ?create () AgentControl ?d = (Inr True, ?mid)"
    by (rule prod_eqI) (simp_all only: first fst_conv snd_conv)
  have "is_ok (fst (instance_id_get ?ops ?create () AgentControl ?late))"
    by code_simp
  then obtain u where u: "fst (instance_id_get ?ops ?create () AgentControl ?late) = Inr u"
    unfolding is_ok_iff by blast
  have e2: "instance_id_get ?ops ?create () AgentControl ?late =
      (Inr u, snd (instance_id_get ?ops ?create () AgentControl ?late))"
    by (rule prod_eqI) (simp_all only: u fst_conv snd_conv)
  have wf: "agent_id_wf AgentControl" by code_simp
  have wfs: "list_all agent_id_wf [SubAgent (SubAgentID ''a''), AgentControl]" by code_simp
  have "u = True"
    by (rule instance_id_stable[OF refl e1 bool_codec_storable wf wfs e2])
  then show ?thesis unfolding Let_def using first u by blast
qed

end
