(* ===== verification/Health.thy ===== *)
theory Health
  imports Remote_Config_Intake
begin

text \<open>
  The health of an agent: the values (\<open>checkers/health/health_checker.rs\<close>,
  \<open>checkers/health/with_start_time.rs\<close>), their conversion to and from the message sent to the server,
  checks with retries, the thread that checks periodically, and the checkers of the host: the health
  reported by the supervised executables, by an HTTP endpoint and by a file, and their aggregate
  (\<open>checkers/health/on_host\<close>).

  A point in time is the number of nanoseconds since the Unix epoch, negative before it; where the
  source reads the clock the definitions take the time read as the argument \<open>now\<close>.
\<close>

section \<open>Values\<close>

type_synonym sys_time = int

record healthy =
  hl_status_time :: sys_time
  hl_status :: string

record unhealthy =
  uh_status_time :: sys_time
  uh_status :: string
  uh_last_error :: string

datatype health = Healthy healthy | Unhealthy unhealthy

datatype health_checker_error =
    HcGeneric string
  | HcSystemTime string
  | HcMissingK8sObjectField string string string
  | HcInvalidK8sObject string string string
  | HcK8sError string

fun health_checker_error_fmt :: "health_checker_error \<Rightarrow> string" where
  "health_checker_error_fmt (HcGeneric m) = m"
| "health_checker_error_fmt (HcSystemTime m) = ''system time error '' @ m"
| "health_checker_error_fmt (HcMissingK8sObjectField kind name field) =
     kind @ ''/'' @ name @ '' misses field '' @ sq field"
| "health_checker_error_fmt (HcInvalidK8sObject kind name err) =
     kind @ ''/'' @ name @ '' is invalid: '' @ err"
| "health_checker_error_fmt (HcK8sError m) = ''k8s error: '' @ m"

text \<open>The comparison of the source ignores the time of the status.\<close>

definition healthy_eq :: "healthy \<Rightarrow> healthy \<Rightarrow> bool" where
  "healthy_eq a b \<longleftrightarrow> hl_status a = hl_status b"

definition unhealthy_eq :: "unhealthy \<Rightarrow> unhealthy \<Rightarrow> bool" where
  "unhealthy_eq a b \<longleftrightarrow> uh_status a = uh_status b \<and> uh_last_error a = uh_last_error b"

fun health_eq :: "health \<Rightarrow> health \<Rightarrow> bool" where
  "health_eq (Healthy a) (Healthy b) = healthy_eq a b"
| "health_eq (Unhealthy a) (Unhealthy b) = unhealthy_eq a b"
| "health_eq _ _ = False"

definition healthy_new :: "sys_time \<Rightarrow> healthy" where
  "healthy_new now = \<lparr>hl_status_time = now, hl_status = []\<rparr>"

definition unhealthy_new :: "sys_time \<Rightarrow> string \<Rightarrow> unhealthy" where
  "unhealthy_new now err = \<lparr>uh_status_time = now, uh_status = [], uh_last_error = err\<rparr>"

fun health_is_healthy :: "health \<Rightarrow> bool" where
  "health_is_healthy (Healthy _) = True"
| "health_is_healthy (Unhealthy _) = False"

fun health_last_error :: "health \<Rightarrow> string option" where
  "health_last_error (Healthy _) = None"
| "health_last_error (Unhealthy u) = Some (uh_last_error u)"

fun health_status :: "health \<Rightarrow> string" where
  "health_status (Healthy h) = hl_status h"
| "health_status (Unhealthy u) = uh_status u"

fun health_status_time :: "health \<Rightarrow> sys_time" where
  "health_status_time (Healthy h) = hl_status_time h"
| "health_status_time (Unhealthy u) = uh_status_time u"

definition unhealthy_from_error :: "sys_time \<Rightarrow> health_checker_error \<Rightarrow> unhealthy" where
  "unhealthy_from_error now err =
     (unhealthy_new now (health_checker_error_fmt err))\<lparr>uh_status := ''Health check error''\<rparr>"

record health_with_start_time =
  hw_start_time :: sys_time
  hw_health :: health

definition hw_from_healthy :: "healthy \<Rightarrow> sys_time \<Rightarrow> health_with_start_time" where
  "hw_from_healthy h t = \<lparr>hw_start_time = t, hw_health = Healthy h\<rparr>"

definition hw_from_unhealthy :: "unhealthy \<Rightarrow> sys_time \<Rightarrow> health_with_start_time" where
  "hw_from_unhealthy u t = \<lparr>hw_start_time = t, hw_health = Unhealthy u\<rparr>"

abbreviation hw_is_healthy :: "health_with_start_time \<Rightarrow> bool" where
  "hw_is_healthy h \<equiv> health_is_healthy (hw_health h)"

definition hw_eq :: "health_with_start_time \<Rightarrow> health_with_start_time \<Rightarrow> bool" where
  "hw_eq a b \<longleftrightarrow> hw_start_time a = hw_start_time b \<and> health_eq (hw_health a) (hw_health b)"

section \<open>The message sent to the server\<close>

definition sys_time_from_unix_timestamp :: "nat \<Rightarrow> sys_time" where
  "sys_time_from_unix_timestamp nanos = int nanos"

text \<open>A time before the epoch is 0; the count of nanoseconds is cut to 64 bits.\<close>

definition unix_timestamp_from_sys_time :: "sys_time \<Rightarrow> nat" where
  "unix_timestamp_from_sys_time t = (if t < 0 then 0 else nat t) mod 2 ^ 64"

record component_health =
  ch_start_time_unix_nano :: nat
  ch_status_time_unix_nano :: nat
  ch_healthy :: bool
  ch_status :: string
  ch_last_error :: string

definition component_health_from :: "health_with_start_time \<Rightarrow> component_health" where
  "component_health_from h =
     \<lparr>ch_start_time_unix_nano = unix_timestamp_from_sys_time (hw_start_time h),
      ch_status_time_unix_nano = unix_timestamp_from_sys_time (health_status_time (hw_health h)),
      ch_healthy = hw_is_healthy h,
      ch_status = health_status (hw_health h),
      ch_last_error = (case health_last_error (hw_health h) of None \<Rightarrow> [] | Some e \<Rightarrow> e)\<rparr>"

definition health_from_component :: "sys_time \<Rightarrow> component_health \<Rightarrow> health_with_start_time" where
  "health_from_component now c =
     (let start_time = sys_time_from_unix_timestamp (ch_start_time_unix_nano c);
          status_time = sys_time_from_unix_timestamp (ch_status_time_unix_nano c)
      in if ch_healthy c
         then hw_from_healthy
                ((healthy_new now)\<lparr>hl_status := ch_status c, hl_status_time := status_time\<rparr>) start_time
         else hw_from_unhealthy
                ((unhealthy_new now (ch_last_error c))\<lparr>uh_status := ch_status c\<rparr>) start_time)"

section \<open>Checks\<close>

text \<open>\<open>check_health_with_retry\<close>: \<open>check n\<close> is the outcome of the \<open>n\<close>-th attempt; the pauses between
  attempts are left out.\<close>

fun retry_loop ::
  "(nat \<Rightarrow> health_checker_error + health_with_start_time) \<Rightarrow> nat \<Rightarrow> nat
   \<Rightarrow> health_checker_error + health_with_start_time \<Rightarrow> health_checker_error + health_with_start_time" where
  "retry_loop check attempt 0 last_health = last_health"
| "retry_loop check attempt (Suc remaining) last_health =
     (case check attempt of
        Inr h \<Rightarrow> if hw_is_healthy h then Inr h else retry_loop check (Suc attempt) remaining (Inr h)
      | Inl e \<Rightarrow> retry_loop check (Suc attempt) remaining (Inl e))"

definition check_health_with_retry ::
  "(nat \<Rightarrow> health_checker_error + health_with_start_time) \<Rightarrow> nat
   \<Rightarrow> health_checker_error + health_with_start_time" where
  "check_health_with_retry check limit = retry_loop check 1 limit (Inl (HcGeneric ''initial value''))"

text \<open>The thread: one turn per outcome of the checker, with the time read when the check fails and
  whether the cancellation came before the next turn. The result is what is published.\<close>

fun health_checker_thread ::
  "sys_time \<Rightarrow> ((health_checker_error + health_with_start_time) \<times> sys_time \<times> bool) list
   \<Rightarrow> health_with_start_time list" where
  "health_checker_thread start_time [] = []"
| "health_checker_thread start_time ((outcome, now, cancelled) # turns) =
     (let health = (case outcome of
                      Inr h \<Rightarrow> h
                    | Inl err \<Rightarrow> hw_from_unhealthy (unhealthy_from_error now err) start_time)
      in health # (if cancelled then [] else health_checker_thread start_time turns))"

definition noop_check_health ::
  "sys_time \<Rightarrow> sys_time \<Rightarrow> health_checker_error + health_with_start_time" where
  "noop_check_health start_time now = Inr (hw_from_healthy (healthy_new now) start_time)"

section \<open>Checkers of the host\<close>

subsection \<open>Executables\<close>

type_synonym execs_health = "(string, health_with_start_time) amap"

text \<open>The messages waiting in the channel are taken first.\<close>

definition receive_execs_health ::
  "(string \<times> health_with_start_time) list \<Rightarrow> execs_health \<Rightarrow> execs_health" where
  "receive_execs_health msgs m = fold (\<lambda>(name, h) m. AList.update name h m) msgs m"

definition exec_errors :: "execs_health \<Rightarrow> string list" where
  "exec_errors m =
     List.map_filter (\<lambda>(name, h). map_option (\<lambda>e. ''executable '' @ name @ '' failed: '' @ e)
       (health_last_error (hw_health h))) m"

definition earliest_start :: "sys_time \<Rightarrow> execs_health \<Rightarrow> sys_time" where
  "earliest_start now m =
     foldl (\<lambda>t (name, h). if hw_start_time h < t then hw_start_time h else t) now m"

text \<open>The clock is read twice: for the start of the executables and for the time of the status.\<close>

definition exec_check_health ::
  "sys_time \<Rightarrow> sys_time \<Rightarrow> (string \<times> health_with_start_time) list \<Rightarrow> execs_health
   \<Rightarrow> (health_checker_error + health_with_start_time) \<times> execs_health" where
  "exec_check_health now later msgs m =
     (let m' = receive_execs_health msgs m;
          errors = exec_errors m';
          start_time = earliest_start now m'
      in (Inr (if errors \<noteq> []
               then hw_from_unhealthy (unhealthy_new later (join '', '' errors)) start_time
               else hw_from_healthy (healthy_new later) start_time), m'))"

subsection \<open>File\<close>

record file_health_content =
  fhc_healthy :: bool
  fhc_status :: string
  fhc_last_error :: string
  fhc_start_time_unix_nano :: nat
  fhc_status_time_unix_nano :: nat

definition health_from_file_content :: "sys_time \<Rightarrow> file_health_content \<Rightarrow> health_with_start_time" where
  "health_from_file_content now c =
     (let status_time = sys_time_from_unix_timestamp (fhc_status_time_unix_nano c);
          start_time = sys_time_from_unix_timestamp (fhc_start_time_unix_nano c)
      in if fhc_healthy c
         then hw_from_healthy
                ((healthy_new now)\<lparr>hl_status := fhc_status c, hl_status_time := status_time\<rparr>) start_time
         else hw_from_unhealthy
                ((unhealthy_new now (fhc_last_error c))\<lparr>uh_status := fhc_status c, uh_status_time := status_time\<rparr>)
                start_time)"

text \<open>\<open>read\<close> is the outcome of reading the file, \<open>parse\<close> the YAML library.\<close>

definition file_check_health ::
  "string \<Rightarrow> string + string \<Rightarrow> (string \<Rightarrow> string + file_health_content) \<Rightarrow> sys_time
   \<Rightarrow> health_checker_error + health_with_start_time" where
  "file_check_health path read parse now =
     rbind (map_err (\<lambda>e. HcGeneric (''reading health file '' @ sq path @ '': '' @ e)) read) (\<lambda>content.
     rbind (map_err (\<lambda>e. HcGeneric (''parsing health file '' @ sq path @ '': '' @ e)) (parse content))
       (\<lambda>h. Inr (health_from_file_content now h)))"

subsection \<open>HTTP\<close>

text \<open>\<open>String::from_utf8_lossy\<close>: every maximal ill-formed part of the bytes becomes U+FFFD.\<close>

abbreviation utf8_replacement :: "nat list" where
  "utf8_replacement \<equiv> [0xEF, 0xBF, 0xBD]"

abbreviation utf8_second :: "nat \<Rightarrow> nat \<Rightarrow> bool" where
  "utf8_second b1 b2 \<equiv>
     utf8_cont b2 \<and> (b1 = 0xE0 \<longrightarrow> 0xA0 \<le> b2) \<and> (b1 = 0xED \<longrightarrow> b2 \<le> 0x9F) \<and>
     (b1 = 0xF0 \<longrightarrow> 0x90 \<le> b2) \<and> (b1 = 0xF4 \<longrightarrow> b2 \<le> 0x8F)"

text \<open>What the bytes after the first one have to satisfy, and how many of them do.\<close>

definition utf8_tests :: "nat \<Rightarrow> (nat \<Rightarrow> bool) list option" where
  "utf8_tests b1 =
     (if b1 < 0x80 then Some []
      else if 0xC2 \<le> b1 \<and> b1 \<le> 0xDF then Some [\<lambda>b. utf8_cont b]
      else if 0xE0 \<le> b1 \<and> b1 \<le> 0xEF then Some [utf8_second b1, \<lambda>b. utf8_cont b]
      else if 0xF0 \<le> b1 \<and> b1 \<le> 0xF4 then Some [utf8_second b1, \<lambda>b. utf8_cont b, \<lambda>b. utf8_cont b]
      else None)"

fun passing :: "('a \<Rightarrow> bool) list \<Rightarrow> 'a list \<Rightarrow> nat" where
  "passing (t # ts) (b # bs) = (if t b then Suc (passing ts bs) else 0)"
| "passing _ _ = 0"

fun utf8_lossy :: "nat list \<Rightarrow> nat list" where
  "utf8_lossy [] = []"
| "utf8_lossy (b1 # bs) =
     (case utf8_tests b1 of
        None \<Rightarrow> utf8_replacement @ utf8_lossy bs
      | Some ts \<Rightarrow>
          (let k = passing ts bs
           in if k = length ts then b1 # take k bs @ utf8_lossy (drop k bs)
              else utf8_replacement @ utf8_lossy (drop k bs)))"

definition from_utf8_lossy :: "string \<Rightarrow> string" where
  "from_utf8_lossy bytes = map char_of (utf8_lossy (map of_char bytes))"

datatype http_client_error =
    UnsuccessfulResponse nat string
  | HttpClientInternal string

text \<open>\<open>show_status\<close> prints a status code with its reason.\<close>

fun http_client_error_fmt :: "(nat \<Rightarrow> string) \<Rightarrow> http_client_error \<Rightarrow> string" where
  "http_client_error_fmt show_status (UnsuccessfulResponse code body) =
     ''unsuccessful response: '' @ show_status code"
| "http_client_error_fmt show_status (HttpClientInternal m) = ''internal HTTP client error: '' @ m"

definition http_check_health ::
  "(nat \<Rightarrow> string) \<Rightarrow> nat list \<Rightarrow> http_client_error + string \<Rightarrow> sys_time \<Rightarrow> sys_time
   \<Rightarrow> health_checker_error + health_with_start_time" where
  "http_check_health show_status healthy_status_codes response start_time now =
     (case response of
        Inr body \<Rightarrow> Inr (hw_from_healthy ((healthy_new now)\<lparr>hl_status := from_utf8_lossy body\<rparr>) start_time)
      | Inl (UnsuccessfulResponse code body) \<Rightarrow>
          (let status = from_utf8_lossy body in
           if code \<in> set healthy_status_codes
           then Inr (hw_from_healthy ((healthy_new now)\<lparr>hl_status := status\<rparr>) start_time)
           else
             (let last_error = ''Health check failed with HTTP response status code ''
                                 @ show_status code @ '' : '' @ status
              in Inr (hw_from_unhealthy ((unhealthy_new now last_error)\<lparr>uh_status := status\<rparr>) start_time)))
      | Inl other \<Rightarrow> Inl (HcGeneric (http_client_error_fmt show_status other)))"

subsection \<open>Aggregate\<close>

text \<open>The outcomes of the checkers, in their order; a checker after the first that is not healthy is not
  asked.\<close>

fun on_host_check_loop ::
  "sys_time \<Rightarrow> sys_time \<Rightarrow> string \<Rightarrow> (health_checker_error + health_with_start_time) list
   \<Rightarrow> health_checker_error + health_with_start_time" where
  "on_host_check_loop start_time now status [] =
     Inr (hw_from_healthy ((healthy_new now)\<lparr>hl_status := status\<rparr>) start_time)"
| "on_host_check_loop start_time now status (outcome # rest) =
     rbind outcome (\<lambda>h.
       (let status' = (if health_status (hw_health h) \<noteq> [] then health_status (hw_health h) else status)
        in if \<not> hw_is_healthy h then Inr h else on_host_check_loop start_time now status' rest))"

definition on_host_check_health ::
  "sys_time \<Rightarrow> sys_time \<Rightarrow> (health_checker_error + health_with_start_time) list
   \<Rightarrow> health_checker_error + health_with_start_time" where
  "on_host_check_health start_time now outcomes = on_host_check_loop start_time now [] outcomes"

section \<open>Properties\<close>

lemmas health_value_defs = hw_from_healthy_def hw_from_unhealthy_def healthy_new_def unhealthy_new_def

lemma unix_timestamp_roundtrip:
  "0 \<le> t \<Longrightarrow> t < 2 ^ 64 \<Longrightarrow> sys_time_from_unix_timestamp (unix_timestamp_from_sys_time t) = t"
  by (simp add: sys_time_from_unix_timestamp_def unix_timestamp_from_sys_time_def nat_less_iff)

text \<open>The health reported to the server is read back as the same health: for a start time between
  the epoch and the last instant 64 bits of nanoseconds can express, the conversion to the wire and back
  gives a health that the program considers equal, and a healthy status also keeps its time. For an
  unhealthy one the time of the status is lost: it is the time of the conversion.\<close>

theorem component_health_roundtrip:
  assumes "0 \<le> hw_start_time h" and "hw_start_time h < 2 ^ 64"
    and "0 \<le> health_status_time (hw_health h)" and "health_status_time (hw_health h) < 2 ^ 64"
  shows "hw_eq (health_from_component now (component_health_from h)) h \<and>
    health_status_time (hw_health (health_from_component now (component_health_from h))) =
      (if hw_is_healthy h then health_status_time (hw_health h) else now)"
  using assms
  by (cases "hw_health h")
     (simp_all add: health_from_component_def component_health_from_def Let_def health_value_defs hw_eq_def
       healthy_eq_def unhealthy_eq_def unix_timestamp_roundtrip)

theorem component_health_roundtrip_witness:
  "hw_eq (health_from_component 9 (component_health_from
      (hw_from_unhealthy \<lparr>uh_status_time = 5, uh_status = ''s'', uh_last_error = ''e''\<rparr> 3)))
    (hw_from_unhealthy \<lparr>uh_status_time = 5, uh_status = ''s'', uh_last_error = ''e''\<rparr> 3)"
  by (rule conjunct1[OF component_health_roundtrip]) (simp_all add: hw_from_unhealthy_def)

lemma retry_loop_healthy:
  assumes "\<forall>i. attempt \<le> i \<and> i < k \<longrightarrow> (\<forall>h. check i = Inr h \<longrightarrow> \<not> hw_is_healthy h)"
    and "attempt \<le> k" and "k < attempt + remaining" and "check k = Inr h" and "hw_is_healthy h"
  shows "retry_loop check attempt remaining prev = Inr h"
  using assms
proof (induction check attempt remaining prev rule: retry_loop.induct)
  case (2 check attempt remaining prev)
  show ?case
  proof (cases "attempt = k")
    case True
    then show ?thesis using 2 by simp
  next
    case False
    then have next_attempt: "Suc attempt \<le> k" "k < Suc attempt + remaining" using 2 by simp_all
    have rest: "\<forall>i. Suc attempt \<le> i \<and> i < k \<longrightarrow> (\<forall>h. check i = Inr h \<longrightarrow> \<not> hw_is_healthy h)"
      using 2(3) by (meson Suc_leD)
    show ?thesis
    proof (cases "check attempt")
      case (Inl e)
      then show ?thesis using 2(1)[OF Inl rest next_attempt 2(6,7)] by simp
    next
      case (Inr x)
      have "\<not> hw_is_healthy x" using 2(3) False 2(4) Inr by (meson le_neq_implies_less order_refl)
      then show ?thesis using 2(2)[OF Inr _ rest next_attempt 2(6,7)] Inr by simp
    qed
  qed
qed simp

lemma retry_loop_unhealthy:
  assumes "\<forall>i. attempt \<le> i \<and> i < attempt + remaining \<longrightarrow> (\<forall>h. check i = Inr h \<longrightarrow> \<not> hw_is_healthy h)"
  shows "retry_loop check attempt remaining prev =
    (if remaining = 0 then prev else check (attempt + remaining - 1))"
  using assms
proof (induction check attempt remaining prev rule: retry_loop.induct)
  case (2 check attempt remaining prev)
  have rest: "\<forall>i. Suc attempt \<le> i \<and> i < Suc attempt + remaining \<longrightarrow> (\<forall>h. check i = Inr h \<longrightarrow> \<not> hw_is_healthy h)"
  proof (intro allI impI, elim conjE)
    fix i h assume "Suc attempt \<le> i" "i < Suc attempt + remaining" "check i = Inr h"
    then show "\<not> hw_is_healthy h" using 2(3)[rule_format, of i h] by simp
  qed
  show ?case
  proof (cases "check attempt")
    case (Inl e)
    then show ?thesis using 2(1)[OF Inl rest] by simp
  next
    case (Inr x)
    then have "\<not> hw_is_healthy x" using 2(3)[rule_format, of attempt x] by simp
    then show ?thesis using 2(2)[OF Inr _ rest] Inr by simp
  qed
qed simp

text \<open>A check with retries returns the outcome of the first of the attempts that is healthy, and
  otherwise the outcome of the last attempt; with no attempt allowed it is an error.\<close>

theorem retry_returns_first_healthy:
  "check_health_with_retry check limit =
     (if \<exists>i h. 1 \<le> i \<and> i \<le> limit \<and> check i = Inr h \<and> hw_is_healthy h
      then check (LEAST i. 1 \<le> i \<and> (\<exists>h. check i = Inr h \<and> hw_is_healthy h))
      else if limit = 0 then Inl (HcGeneric ''initial value'') else check limit)"
proof (cases "\<exists>i h. 1 \<le> i \<and> i \<le> limit \<and> check i = Inr h \<and> hw_is_healthy h")
  case True
  let ?P = "\<lambda>i. 1 \<le> i \<and> (\<exists>h. check i = Inr h \<and> hw_is_healthy h)"
  from True obtain i where i: "i \<le> limit" "?P i" by auto
  let ?k = "LEAST i. ?P i"
  have k: "?P ?k" using i(2) by (rule LeastI)
  have "?k \<le> i" using i(2) by (rule Least_le)
  then have le: "?k < 1 + limit" using i(1) by simp
  from k obtain h where h: "check ?k = Inr h" "hw_is_healthy h" by auto
  have before: "\<forall>j. 1 \<le> j \<and> j < ?k \<longrightarrow> (\<forall>h. check j = Inr h \<longrightarrow> \<not> hw_is_healthy h)"
    using not_less_Least by blast
  have "retry_loop check 1 limit (Inl (HcGeneric ''initial value'')) = Inr h"
    using retry_loop_healthy[OF before _ le h] k by simp
  then show ?thesis using True h(1) by (simp add: check_health_with_retry_def)
next
  case False
  then have "\<forall>i. 1 \<le> i \<and> i < 1 + limit \<longrightarrow> (\<forall>h. check i = Inr h \<longrightarrow> \<not> hw_is_healthy h)"
    by (metis One_nat_def Suc_eq_plus1_left less_Suc_eq_le)
  from retry_loop_unhealthy[OF this] have "retry_loop check 1 limit prev =
      (if limit = 0 then prev else check limit)" for prev by simp
  then show ?thesis unfolding check_health_with_retry_def if_not_P[OF False] .
qed

definition all_healthy :: "('e + health_with_start_time) list \<Rightarrow> bool" where
  "all_healthy = list_all (\<lambda>r. case r of Inl _ \<Rightarrow> False | Inr h \<Rightarrow> hw_is_healthy h)"

definition last_nonempty :: "string \<Rightarrow> string list \<Rightarrow> string" where
  "last_nonempty d ss = foldl (\<lambda>acc s. if s \<noteq> [] then s else acc) d ss"

lemma on_host_loop_healthy:
  "all_healthy outcomes \<Longrightarrow> on_host_check_loop start_time now status outcomes =
     Inr (hw_from_healthy ((healthy_new now)\<lparr>hl_status :=
       last_nonempty status (map (\<lambda>r. health_status (hw_health (projr r))) outcomes)\<rparr>) start_time)"
proof (induction outcomes arbitrary: status)
  case (Cons r outcomes)
  then obtain h where "r = Inr h" "hw_is_healthy h" by (cases r) (auto simp: all_healthy_def)
  then show ?case using Cons by (simp add: all_healthy_def rbind_def Let_def last_nonempty_def)
qed (simp add: last_nonempty_def)

lemma on_host_loop_first:
  "all_healthy before \<Longrightarrow> (\<forall>h. r = Inr h \<longrightarrow> \<not> hw_is_healthy h) \<Longrightarrow>
   on_host_check_loop start_time now status (before @ r # after) = r"
proof (induction before arbitrary: status)
  case Nil
  then show ?case by (cases r) (auto simp: rbind_def Let_def)
next
  case (Cons x before)
  then obtain h where "x = Inr h" "hw_is_healthy h" by (cases x) (auto simp: all_healthy_def)
  then show ?case using Cons by (simp add: all_healthy_def rbind_def Let_def)
qed

text \<open>The aggregate health of a host is healthy exactly when every checker is, and the health of the
  first checker that is not healthy otherwise (its error when the check failed); a healthy aggregate
  carries the last status that is not empty.\<close>

theorem on_host_health_iff:
  "on_host_check_health start_time now outcomes =
     (if all_healthy outcomes
      then Inr (hw_from_healthy ((healthy_new now)\<lparr>hl_status :=
             last_nonempty [] (map (\<lambda>r. health_status (hw_health (projr r))) outcomes)\<rparr>) start_time)
      else hd (dropWhile (\<lambda>r. all_healthy [r]) outcomes))"
proof (cases "all_healthy outcomes")
  case False
  let ?before = "takeWhile (\<lambda>r. all_healthy [r]) outcomes" and ?rest = "dropWhile (\<lambda>r. all_healthy [r]) outcomes"
  have "\<not> (\<forall>r\<in>set outcomes. all_healthy [r])" using False by (simp add: all_healthy_def list_all_iff)
  then have rest: "?rest \<noteq> []" by (simp add: dropWhile_eq_Nil_conv)
  then obtain r after where r: "?rest = r # after" by (cases ?rest) simp_all
  have bad: "\<not> all_healthy [r]" using hd_dropWhile[OF rest] r by simp
  have "all_healthy ?before" by (auto simp: all_healthy_def list_all_iff dest: set_takeWhileD)
  moreover have "\<forall>h. r = Inr h \<longrightarrow> \<not> hw_is_healthy h" using bad by (auto simp: all_healthy_def)
  moreover have "outcomes = ?before @ r # after" using r takeWhile_dropWhile_id by metis
  ultimately have "on_host_check_health start_time now outcomes = r"
    unfolding on_host_check_health_def using on_host_loop_first by metis
  then show ?thesis using False r by simp
qed (simp add: on_host_check_health_def on_host_loop_healthy)

text \<open>What the executables said last decides: the check is unhealthy exactly when the last message of
  some executable is, and the start time is the earliest one.\<close>

lemma map_of_receive: "map_of (receive_execs_health msgs m) = map_of m ++ map_of (rev msgs)"
proof (induction msgs arbitrary: m)
  case (Cons x msgs)
  obtain k v where x: "x = (k, v)" by (cases x)
  have "map_of (receive_execs_health (x # msgs) m) = map_of (receive_execs_health msgs (AList.update k v m))"
    by (simp add: receive_execs_health_def x)
  also have "\<dots> = map_of m ++ map_of (rev (x # msgs))"
    unfolding Cons.IH by (auto simp: x update_conv' map_add_def fun_eq_iff split: option.splits)
  finally show ?case .
qed (simp add: receive_execs_health_def)

lemma amap_ok_receive: "amap_ok m \<Longrightarrow> amap_ok (receive_execs_health msgs m)"
  by (induction msgs arbitrary: m) (auto simp: receive_execs_health_def)

lemma exec_errors_Nil: "exec_errors m = [] \<longleftrightarrow> list_all (\<lambda>(_, h). hw_is_healthy h) m"
proof (induction m)
  case (Cons x m)
  obtain name h where x: "x = (name, h)" by (cases x)
  show ?case using Cons by (cases "hw_health h") (simp_all add: x exec_errors_def map_filter_simps)
qed (simp add: exec_errors_def map_filter_simps)

lemma earliest_start_Cons:
  "earliest_start now ((name, h) # m) = earliest_start (min now (hw_start_time h)) m"
  by (simp add: earliest_start_def min_def not_less)

lemma earliest_start_Min: "earliest_start now m = Min (insert now (hw_start_time ` snd ` set m))"
proof (induction m arbitrary: now)
  case (Cons x m)
  obtain name h where x: "x = (name, h)" by (cases x)
  have "earliest_start now (x # m) = Min (insert (min now (hw_start_time h)) (hw_start_time ` snd ` set m))"
    unfolding x earliest_start_Cons Cons.IH ..
  then show ?case by (cases "set m = {}") (simp_all add: x min.assoc insert_commute)
qed (simp add: earliest_start_def)

text \<open>The health of the executables follows their last messages: after any messages, the check is
  healthy exactly when the last message of every executable is, whatever was received before, and the
  start time reported is the earliest of the start times of those messages and of the current time.\<close>

theorem exec_health_follows_last_messages:
  assumes "amap_ok m" and "exec_check_health now later msgs m = (Inr r, m')"
  shows "amap_ok m' \<and> map_of m' = map_of m ++ map_of (rev msgs) \<and>
    (hw_is_healthy r \<longleftrightarrow> (\<forall>name h. map_of m' name = Some h \<longrightarrow> hw_is_healthy h)) \<and>
    hw_start_time r = Min (insert now (hw_start_time ` ran (map_of m')))"
proof -
  have m': "m' = receive_execs_health msgs m" using assms(2) by (simp add: exec_check_health_def Let_def)
  have ok: "amap_ok m'" using amap_ok_receive[OF assms(1)] by (simp add: m')
  have r: "r = (if exec_errors m' \<noteq> []
      then hw_from_unhealthy (unhealthy_new later (join '', '' (exec_errors m'))) (earliest_start now m')
      else hw_from_healthy (healthy_new later) (earliest_start now m'))"
    using assms(2) by (auto simp: exec_check_health_def Let_def m')
  have healthy: "hw_is_healthy r \<longleftrightarrow> (\<forall>name h. map_of m' name = Some h \<longrightarrow> hw_is_healthy h)"
  proof -
    have "hw_is_healthy r \<longleftrightarrow> exec_errors m' = []"
      by (simp add: r hw_from_healthy_def hw_from_unhealthy_def)
    also have "\<dots> \<longleftrightarrow> (\<forall>name h. (name, h) \<in> set m' \<longrightarrow> hw_is_healthy h)"
      by (auto simp: exec_errors_Nil list_all_iff)
    finally show ?thesis by (simp add: amap_ok_map_of[OF ok])
  qed
  have ran: "ran (map_of m') = snd ` set m'" using ok by (simp add: amap_ok_def ran_distinct)
  have "hw_start_time r = earliest_start now m'" by (simp add: r hw_from_healthy_def hw_from_unhealthy_def)
  then have "hw_start_time r = Min (insert now (hw_start_time ` ran (map_of m')))"
    unfolding ran earliest_start_Min .
  moreover have "map_of m' = map_of m ++ map_of (rev msgs)" unfolding m' map_of_receive ..
  ultimately show ?thesis using ok healthy by blast
qed

theorem exec_health_follows_last_messages_witness:
  "let ok = hw_from_healthy (healthy_new 1) 4; ko = hw_from_unhealthy (unhealthy_new 1 ''e'') 3;
       (r, m') = exec_check_health 9 10 [(''a'', ko), (''b'', ok), (''a'', ok)] []
   in (\<exists>h. r = Inr h \<and> hw_is_healthy h \<and> hw_start_time h = 4)"
proof -
  let ?ok = "hw_from_healthy (healthy_new 1) 4" and ?ko = "hw_from_unhealthy (unhealthy_new 1 ''e'') 3"
  let ?msgs = "[(''a'', ?ko), (''b'', ?ok), (''a'', ?ok)]"
  obtain h m' where run: "exec_check_health 9 10 ?msgs [] = (Inr h, m')"
    by (simp add: exec_check_health_def Let_def)
  note facts = exec_health_follows_last_messages[OF amap_ok_simps(1) run]
  then have m': "map_of m' = [''a'' \<mapsto> ?ok, ''b'' \<mapsto> ?ok]" by (auto simp: fun_eq_iff)
  then have "hw_is_healthy h" and "hw_start_time h = 4"
    using facts by (auto simp: hw_from_healthy_def split: if_splits)
  with run show ?thesis by (simp add: Let_def)
qed

text \<open>Decoding with replacement never fails and always yields well-formed text, and leaves well-formed
  text as it is.\<close>

lemma utf8_valid_Cons:
  "utf8_valid (b1 # bs) =
     (case utf8_tests b1 of
        None \<Rightarrow> False
      | Some ts \<Rightarrow> passing ts bs = length ts \<and> utf8_valid (drop (length ts) bs))"
  unfolding utf8_valid.simps(2)[of b1 bs]
  by (auto simp: utf8_tests_def simp del: utf8_valid.simps split: list.splits)

lemma passing_take: "passing ts bs = length ts \<Longrightarrow> passing ts (take (length ts) bs @ rest) = length ts"
  by (induction ts bs rule: passing.induct) (auto split: if_splits)

lemma passing_length: "passing ts bs \<le> length bs"
  by (induction ts bs rule: passing.induct) auto

lemma utf8_valid_char:
  assumes "utf8_tests b1 = Some ts" and "passing ts bs = length ts"
  shows "utf8_valid (b1 # take (length ts) bs @ rest) = utf8_valid rest"
  using assms passing_take[OF assms(2), of rest] passing_length[of ts bs]
  by (simp add: utf8_valid_Cons del: utf8_valid.simps)

lemma utf8_valid_replacement: "utf8_valid (utf8_replacement @ bs) = utf8_valid bs"
  by simp

lemma utf8_valid_lossy: "utf8_valid (utf8_lossy bs)"
proof (induction bs rule: utf8_lossy.induct)
  case (2 b1 bs)
  show ?case
  proof (cases "utf8_tests b1")
    case None
    then show ?thesis using 2(1) by simp
  next
    case (Some ts)
    have rest: "utf8_valid (utf8_lossy (drop (passing ts bs) bs))"
    proof (cases "passing ts bs = length ts")
      case True
      then show ?thesis using 2(2)[OF Some refl] by simp
    next
      case False
      then show ?thesis using 2(3)[OF Some refl] by simp
    qed
    show ?thesis
    proof (cases "passing ts bs = length ts")
      case True
      from utf8_valid_char[OF Some True] have "utf8_valid (b1 # take (length ts) bs @ utf8_lossy (drop (length ts) bs))"
        using rest True by simp
      then show ?thesis using Some True by (simp add: Let_def del: utf8_valid.simps)
    next
      case False
      then have "utf8_lossy (b1 # bs) = utf8_replacement @ utf8_lossy (drop (passing ts bs) bs)"
        using Some by (simp add: Let_def)
      then show ?thesis using rest utf8_valid_replacement by metis
    qed
  qed
qed simp

lemma utf8_lossy_valid: "utf8_valid bs \<Longrightarrow> utf8_lossy bs = bs"
proof (induction bs rule: utf8_lossy.induct)
  case (2 b1 bs)
  from 2(4) obtain ts where ts: "utf8_tests b1 = Some ts" "passing ts bs = length ts"
    "utf8_valid (drop (length ts) bs)"
    by (auto simp: utf8_valid_Cons simp del: utf8_valid.simps split: option.splits)
  then show ?case using 2(2)[OF ts(1) ts(2)[symmetric] refl] by (simp add: Let_def)
qed simp

lemma utf8_lossy_set: "set (utf8_lossy bs) \<subseteq> set bs \<union> set utf8_replacement"
proof (induction bs rule: utf8_lossy.induct)
  case (2 b1 bs)
  show ?case
  proof (cases "utf8_tests b1")
    case None
    then show ?thesis using 2(1) by auto
  next
    case (Some ts)
    let ?k = "passing ts bs"
    have rest: "set (utf8_lossy (drop ?k bs)) \<subseteq> set (drop ?k bs) \<union> set utf8_replacement"
      using 2(2,3)[OF Some refl] by blast
    have "set (utf8_lossy (b1 # bs)) \<subseteq>
        insert b1 (set (take ?k bs)) \<union> set utf8_replacement \<union> set (utf8_lossy (drop ?k bs))"
      using Some by (auto simp: Let_def)
    with rest set_drop_subset[of ?k bs] set_take_subset[of ?k bs] show ?thesis by auto
  qed
qed simp

lemma of_char_lossy: "map of_char (from_utf8_lossy body) = utf8_lossy (map of_char body)"
proof -
  have "b < 256" if "b \<in> set (utf8_lossy (map of_char body))" for b :: nat
    using utf8_lossy_set[of "map of_char body"] that by auto
  then show ?thesis unfolding from_utf8_lossy_def by (simp add: map_idI)
qed

text \<open>A health check over HTTP fails only when no response was received; a response makes the agent
  healthy exactly when it is successful or its code is one of the configured ones, and the status is the
  text of the body, which is always well-formed and is the body itself when that is well-formed.\<close>

theorem http_health_outcome:
  "(case http_check_health show_status codes response start_time now of
      Inl _ \<Rightarrow> (\<exists>m. response = Inl (HttpClientInternal m))
    | Inr h \<Rightarrow>
        hw_start_time h = start_time \<and>
        (\<exists>body. (response = Inr body \<or> (\<exists>code. response = Inl (UnsuccessfulResponse code body))) \<and>
           utf8_valid (map of_char (health_status (hw_health h))) \<and>
           (if utf8_valid (map of_char body) then health_status (hw_health h) = body else True)) \<and>
        (hw_is_healthy h \<longleftrightarrow>
           (\<exists>body. response = Inr body) \<or>
           (\<exists>code body. response = Inl (UnsuccessfulResponse code body) \<and> code \<in> set codes)))"
proof -
  have wf: "utf8_valid (map of_char (from_utf8_lossy body))" for body
    by (simp add: of_char_lossy utf8_valid_lossy)
  have same: "from_utf8_lossy body = body" if "utf8_valid (map of_char body)" for body
    using utf8_lossy_valid[OF that] by (simp add: from_utf8_lossy_def)
  show ?thesis
  proof (cases response)
    case (Inr body)
    then show ?thesis using wf same by (simp add: http_check_health_def hw_from_healthy_def)
  next
    case (Inl e)
    then show ?thesis
      using wf same
      by (cases e) (simp_all add: http_check_health_def hw_from_healthy_def hw_from_unhealthy_def Let_def)
  qed
qed

end
