(* ===== verification/Text_Json.thy ===== *)
theory Text_Json
  imports Prelude
begin

text \<open>
  Text and values shared by the configuration of agents: the characters of a UTF-8 string, white space
  and trimming, replacement of a substring, JSON values as \<open>serde_json::Value\<close> holds them, and the
  extension of a hash map by the entries of another.
\<close>

section \<open>Characters\<close>

text \<open>A string is a list of bytes; a character is a byte with the continuation bytes that follow it.\<close>

definition is_cont :: "char \<Rightarrow> bool" where
  "is_cont c \<longleftrightarrow> (128 :: nat) \<le> of_char c \<and> of_char c < (192 :: nat)"

lemma length_dropWhile_less [termination_simp]: "length (dropWhile p s) < Suc (length s)"
  by (simp add: le_imp_less_Suc length_dropWhile_le)

lemma length_strip_prefix [termination_simp]:
  "strip_prefix pat s = Some r \<Longrightarrow> pat \<noteq> [] \<Longrightarrow> length r < length s"
  "strip_prefix pat (c # s) = Some r \<Longrightarrow> pat \<noteq> [] \<Longrightarrow> length r < Suc (length s)"
proof -
  show *: "strip_prefix pat s = Some r \<Longrightarrow> pat \<noteq> [] \<Longrightarrow> length r < length s" for s
    by (simp add: strip_prefix_Some)
  show "strip_prefix pat (c # s) = Some r \<Longrightarrow> pat \<noteq> [] \<Longrightarrow> length r < Suc (length s)"
    using *[of "c # s"] by simp
qed

fun chars :: "string \<Rightarrow> string list" where
  "chars [] = []"
| "chars (c # s) = (c # takeWhile is_cont s) # chars (dropWhile is_cont s)"

text \<open>The characters with the property \<open>White_Space\<close> of Unicode, encoded.\<close>

definition white_space :: "nat list list" where
  "white_space =
     [[0x09], [0x0A], [0x0B], [0x0C], [0x0D], [0x20], [0xC2, 0x85], [0xC2, 0xA0], [0xE1, 0x9A, 0x80],
      [0xE2, 0x80, 0x80], [0xE2, 0x80, 0x81], [0xE2, 0x80, 0x82], [0xE2, 0x80, 0x83], [0xE2, 0x80, 0x84],
      [0xE2, 0x80, 0x85], [0xE2, 0x80, 0x86], [0xE2, 0x80, 0x87], [0xE2, 0x80, 0x88], [0xE2, 0x80, 0x89],
      [0xE2, 0x80, 0x8A], [0xE2, 0x80, 0xA8], [0xE2, 0x80, 0xA9], [0xE2, 0x80, 0xAF], [0xE2, 0x81, 0x9F],
      [0xE3, 0x80, 0x80]]"

definition is_whitespace :: "string \<Rightarrow> bool" where
  "is_whitespace ch \<longleftrightarrow> map of_char ch \<in> set white_space"

text \<open>The longest prefix of characters with a property, and what follows.\<close>

fun span_chars :: "(string \<Rightarrow> bool) \<Rightarrow> string \<Rightarrow> string \<times> string" where
  "span_chars p [] = ([], [])"
| "span_chars p (c # s) =
     (let ch = c # takeWhile is_cont s in
      if p ch then (case span_chars p (dropWhile is_cont s) of (a, b) \<Rightarrow> (ch @ a, b)) else ([], c # s))"

definition trim :: "string \<Rightarrow> string" where
  "trim s = concat (rev (dropWhile is_whitespace (rev (dropWhile is_whitespace (chars s)))))"

text \<open>\<open>trim_start_matches\<close> and \<open>trim_end_matches\<close>.\<close>

fun trim_start_matches :: "string \<Rightarrow> string \<Rightarrow> string" where
  "trim_start_matches pat s =
     (case strip_prefix pat s of
        None \<Rightarrow> s
      | Some r \<Rightarrow> if pat = [] then s else trim_start_matches pat r)"

declare trim_start_matches.simps [simp del]

definition trim_end_char :: "char \<Rightarrow> string \<Rightarrow> string" where
  "trim_end_char c s = rev (dropWhile (\<lambda>d. d = c) (rev s))"

text \<open>\<open>str::replace\<close> for a pattern that is not empty: the occurrences that do not overlap, from the left.\<close>

fun replace_all :: "string \<Rightarrow> string \<Rightarrow> string \<Rightarrow> string" where
  "replace_all pat v [] = []"
| "replace_all pat v (c # s) =
     (if pat = [] then c # s
      else case strip_prefix pat (c # s) of
             Some r \<Rightarrow> v @ replace_all pat v r
           | None \<Rightarrow> c # replace_all pat v s)"

section \<open>JSON values\<close>

text \<open>A floating-point number is kept as the library prints it.\<close>

datatype json_number = IntNumber int | FloatNumber string

datatype json =
    JNull
  | JBool bool
  | JNumber json_number
  | JString string
  | JArray "json list"
  | JObject "(string \<times> json) list"

fun json_get :: "string \<Rightarrow> json \<Rightarrow> json option" where
  "json_get k (JObject m) = map_of m k"
| "json_get k _ = None"

fun json_as_str :: "json \<Rightarrow> string option" where
  "json_as_str (JString s) = Some s"
| "json_as_str _ = None"

fun json_as_array :: "json \<Rightarrow> json list option" where
  "json_as_array (JArray xs) = Some xs"
| "json_as_array _ = None"

fun json_as_object :: "json \<Rightarrow> (string \<times> json) list option" where
  "json_as_object (JObject m) = Some m"
| "json_as_object _ = None"

text \<open>No object has a key twice.\<close>

fun json_ok :: "json \<Rightarrow> bool" where
  "json_ok (JArray xs) = list_all json_ok xs"
| "json_ok (JObject m) = (distinct (map fst m) \<and> list_all (\<lambda>(_, j). json_ok j) m)"
| "json_ok _ = True"

fun json_number_fmt :: "json_number \<Rightarrow> string" where
  "json_number_fmt (IntNumber i) = show_int i"
| "json_number_fmt (FloatNumber s) = s"

section \<open>Extending a map\<close>

definition hm_extend :: "('k, 'v) amap \<Rightarrow> ('k, 'v) amap \<Rightarrow> ('k, 'v) amap" where
  "hm_extend m kvs = fold (\<lambda>(k, v) r. AList.update k v r) kvs m"

abbreviation hm_collect :: "('k, 'v) amap \<Rightarrow> ('k, 'v) amap" where
  "hm_collect \<equiv> hm_extend []"

lemma hm_extend_simps [simp]:
  "hm_extend m [] = m" "hm_extend m ((k, v) # kvs) = hm_extend (AList.update k v m) kvs"
  by (simp_all add: hm_extend_def)

lemma map_of_hm_extend: "map_of (hm_extend m kvs) = map_of m ++ map_of (rev kvs)"
  by (induction kvs arbitrary: m) (auto simp: map_add_def fun_eq_iff split: option.splits)

lemma map_of_hm_extend_distinct: "amap_ok kvs \<Longrightarrow> map_of (hm_extend m kvs) = map_of m ++ map_of kvs"
  unfolding map_of_hm_extend
  by (rule arg_cong[where f = "(++) (map_of m)"]) (auto simp: amap_ok_def simp flip: rev_map intro!: map_of_eqI map_of_is_SomeI)

lemma amap_ok_hm_extend [simp]: "amap_ok m \<Longrightarrow> amap_ok (hm_extend m kvs)"
  by (induction kvs arbitrary: m) auto

section \<open>Lemmas\<close>

lemma span_chars_append: "span_chars p s = (a, b) \<Longrightarrow> s = a @ b"
proof (induction p s arbitrary: a b rule: span_chars.induct)
  case (2 p c s)
  show ?case
  proof (cases "p (c # takeWhile is_cont s)")
    case True
    obtain a' b' where ab: "span_chars p (dropWhile is_cont s) = (a', b')" by fastforce
    from "2.IH"[OF refl True] ab have "s = takeWhile is_cont s @ a' @ b'"
      by (metis takeWhile_dropWhile_id)
    with True ab "2.prems" show ?thesis by (auto simp: Let_def)
  qed (use "2.prems" in \<open>auto simp: Let_def\<close>)
qed simp

text \<open>A property of the characters consumed.\<close>

lemma span_chars_consumed:
  assumes "span_chars p s = (a, b)" and "x \<in> set a"
  obtains c r where "p (c # takeWhile is_cont r)" and "x \<in> set (c # takeWhile is_cont r)"
  using assms
proof (induction p s arbitrary: a b thesis rule: span_chars.induct)
  case (2 p c s)
  show ?case
  proof (cases "p (c # takeWhile is_cont s)")
    case True
    obtain a' b' where ab: "span_chars p (dropWhile is_cont s) = (a', b')" by fastforce
    show ?thesis
    proof (cases "x \<in> set (c # takeWhile is_cont s)")
      case True
      with \<open>p (c # takeWhile is_cont s)\<close> "2.prems"(1) show ?thesis by blast
    next
      case False
      then have "x \<in> set a'" using "2.prems"(2,3) \<open>p (c # takeWhile is_cont s)\<close> ab by (auto simp: Let_def)
      from "2.IH"[OF refl \<open>p (c # takeWhile is_cont s)\<close> _ ab this] "2.prems"(1) show ?thesis by blast
    qed
  qed (use "2.prems" in \<open>auto simp: Let_def\<close>)
qed simp

lemma replace_all_append:
  assumes "\<And>u w. u @ w = s \<Longrightarrow> w \<noteq> [] \<Longrightarrow> strip_prefix pat (w @ t) = None" and "pat \<noteq> []"
  shows "replace_all pat v (s @ t) = s @ replace_all pat v t"
  using assms(1)
proof (induction s)
  case (Cons c s)
  have "strip_prefix pat (c # s @ t) = None" using Cons.prems[of "[]" "c # s"] by simp
  moreover have "replace_all pat v (s @ t) = s @ replace_all pat v t"
    using Cons.prems by (intro Cons.IH) (metis append_Cons)
  ultimately show ?case using assms(2) by simp
qed simp

lemma replace_all_pat: "pat \<noteq> [] \<Longrightarrow> replace_all pat v (pat @ t) = v @ replace_all pat v t"
proof -
  assume "pat \<noteq> []"
  moreover have "strip_prefix pat (pat @ t) = Some t" by (simp add: strip_prefix_Some)
  ultimately show ?thesis by (cases "pat @ t") (auto split: option.splits)
qed

end
