(* ===== verification/K8s_Health.thy ===== *)
theory K8s_Health
  imports Health Text_Json
begin

text \<open>
  Health of Kubernetes resources (\<open>checkers/health/k8s\<close>, \<open>agent_control/health_checker/k8s.rs\<close>): the
  checks of a single DaemonSet, Deployment, StatefulSet, Flux HelmRelease and New Relic Instrumentation,
  the selection of the objects to check, the checkers of a resource and their aggregate. The client of
  the cluster is a parameter: what it lists and fetches, with its errors as text. Objects are records of
  the fields the source reads.
\<close>

section \<open>Objects\<close>

record object_meta =
  om_name :: "string option"
  om_labels :: "(string \<times> string) list option"

record daemon_set_status =
  dss_number_ready :: int
  dss_desired_number_scheduled :: int
  dss_number_unavailable :: "int option"
  dss_updated_number_scheduled :: "int option"

text \<open>The specification of a DaemonSet: its update strategy, and the type of that strategy.\<close>

record daemon_set =
  dset_meta :: object_meta
  dset_spec :: "string option option option"
  dset_status :: "daemon_set_status option"

record deployment_status =
  dps_unavailable_replicas :: "int option"
  dps_available_replicas :: "int option"

text \<open>The specification of a Deployment or StatefulSet: its number of replicas; the status of a
  StatefulSet: its number of ready replicas.\<close>

record deployment =
  dpl_meta :: object_meta
  dpl_spec :: "int option option"
  dpl_status :: "deployment_status option"

record stateful_set =
  sset_meta :: object_meta
  sset_spec :: "int option option"
  sset_status :: "int option option"

record type_meta =
  tm_api_version :: string
  tm_kind :: string

definition helmrelease_v2_type_meta :: type_meta where
  "helmrelease_v2_type_meta = \<lparr>tm_api_version = ''helm.toolkit.fluxcd.io/v2'', tm_kind = ''HelmRelease''\<rparr>"

definition instrumentation_v1beta3_type_meta :: type_meta where
  "instrumentation_v1beta3_type_meta = \<lparr>tm_api_version = ''newrelic.com/v1beta3'', tm_kind = ''Instrumentation''\<rparr>"

definition bq :: "string \<Rightarrow> string" where
  "bq s = CHR 0x60 # s @ [CHR 0x60]"

section \<open>Single objects\<close>

definition get_metadata_name :: "string \<Rightarrow> object_meta \<Rightarrow> health_checker_error + string" where
  "get_metadata_name kind m = ok_or (HcK8sError (kind @ '' does not have .metadata.name'')) (om_name m)"

definition missing_field_error :: "string \<Rightarrow> string \<Rightarrow> string \<Rightarrow> health_checker_error" where
  "missing_field_error kind name field = HcMissingK8sObjectField kind name field"

subsection \<open>DaemonSet\<close>

definition is_daemon_set_update_strategy_rolling_update ::
  "string \<Rightarrow> daemon_set \<Rightarrow> health_checker_error + bool" where
  "is_daemon_set_update_strategy_rolling_update name ds =
     rbind (ok_or (missing_field_error ''DaemonSet'' name ''.spec'') (dset_spec ds)) (\<lambda>spec.
     rbind (ok_or (missing_field_error ''DaemonSet'' name ''.spec.updateStrategy'') spec) (\<lambda>strategy.
     rbind (ok_or (missing_field_error ''DaemonSet'' name ''.spec.updateStrategy.type_'') strategy) (\<lambda>type.
     Inr (type = ''RollingUpdate''))))"

definition option_default :: "'a \<Rightarrow> 'a option \<Rightarrow> 'a" where
  "option_default d x = (case x of None \<Rightarrow> d | Some y \<Rightarrow> y)"

definition check_health_single_daemon_set :: "sys_time \<Rightarrow> daemon_set \<Rightarrow> health_checker_error + health" where
  "check_health_single_daemon_set now ds =
     rbind (get_metadata_name ''DaemonSet'' (dset_meta ds)) (\<lambda>name.
     rbind (ok_or (missing_field_error ''DaemonSet'' name ''.status'') (dset_status ds)) (\<lambda>status.
     if dss_number_ready status < dss_desired_number_scheduled status
     then Inr (Unhealthy (unhealthy_new now (''DaemonSet '' @ bq name @ '': the number of pods ready ''
            @ bq (show_int (dss_number_ready status)) @ '' is less that the desired ''
            @ bq (show_int (dss_desired_number_scheduled status)))))
     else if (case dss_number_unavailable status of None \<Rightarrow> False | Some n \<Rightarrow> n > 0)
     then Inr (Unhealthy (unhealthy_new now (''DaemonSet '' @ bq name @ '': the are ''
            @ show_int (option_default 0 (dss_number_unavailable status)) @ '' unavailable pods'')))
     else
       rbind (is_daemon_set_update_strategy_rolling_update name ds) (\<lambda>rolling.
       let updated = option_default 0 (dss_updated_number_scheduled status) in
       if rolling \<and> updated < dss_desired_number_scheduled status
       then Inr (Unhealthy (unhealthy_new now (''DaemonSet '' @ bq name
              @ '': the number of nodes having an updated and ready replica '' @ bq (show_int updated)
              @ '' is less that the desired '' @ bq (show_int (dss_desired_number_scheduled status)))))
       else Inr (Healthy (healthy_new now)))))"

subsection \<open>Deployment\<close>

definition check_deployment_health :: "sys_time \<Rightarrow> deployment \<Rightarrow> health_checker_error + health" where
  "check_deployment_health now dp =
     rbind (get_metadata_name ''Deployment'' (dpl_meta dp)) (\<lambda>name.
     rbind (ok_or (missing_field_error ''Deployment'' name ''.status'') (dpl_status dp)) (\<lambda>status.
     if (case dps_unavailable_replicas status of None \<Rightarrow> False | Some n \<Rightarrow> n > 0)
     then Inr (Unhealthy (unhealthy_new now (''Deployment '' @ bq name @ '': has ''
            @ show_int (option_default 0 (dps_unavailable_replicas status)) @ '' unavailable replicas'')))
     else
       rbind (ok_or (missing_field_error ''Deployment'' name ''.spec'') (dpl_spec dp)) (\<lambda>spec.
       rbind (ok_or (missing_field_error ''Deployment'' name ''spec.replicas'') spec) (\<lambda>desired.
       let available = option_default 0 (dps_available_replicas status) in
       if available < desired
       then Inr (Unhealthy (unhealthy_new now (''Deployment '' @ bq name @ '': available replicas ''
              @ bq (show_int available) @ '' is less than desired '' @ bq (show_int desired))))
       else Inr (Healthy (healthy_new now))))))"

subsection \<open>StatefulSet\<close>

definition stateful_set_health :: "sys_time \<Rightarrow> stateful_set \<Rightarrow> health_checker_error + health" where
  "stateful_set_health now sts =
     rbind (get_metadata_name ''StatefulSet'' (sset_meta sts)) (\<lambda>name.
     rbind (ok_or (missing_field_error ''StatefulSet'' name ''.spec'') (sset_spec sts)) (\<lambda>spec.
     rbind (ok_or (missing_field_error ''StatefulSet'' name ''.status'') (sset_status sts)) (\<lambda>status.
     let replicas = option_default 1 spec in
     rbind (ok_or (missing_field_error ''StatefulSet'' name ''.status.readyReplicas'') status) (\<lambda>ready.
     if replicas \<noteq> ready
     then Inr (Unhealthy (unhealthy_new now (''StatefulSet '' @ bq name @ '' not ready: replicas ''
            @ bq (show_int replicas) @ '' different from ready_replicas '' @ bq (show_int ready))))
     else Inr (Healthy (healthy_new now))))))"

subsection \<open>HelmRelease\<close>

datatype condition_status = CondTrue | CondFalse | CondUnknown

definition condition_status_from :: "string \<Rightarrow> condition_status" where
  "condition_status_from s =
     (if s = ''True'' then CondTrue else if s = ''False'' then CondFalse else CondUnknown)"

definition get_status :: "string \<Rightarrow> (string \<times> json) list \<Rightarrow> health_checker_error + (string \<times> json) list" where
  "get_status name data =
     ok_or (HcGeneric (''Failed to parse status of HelmRelease '' @ sq name))
       (Option.bind (map_of data ''status'') json_as_object)"

definition get_status_conditions :: "string \<Rightarrow> (string \<times> json) list \<Rightarrow> health_checker_error + json list" where
  "get_status_conditions name status =
     ok_or (HcGeneric (''No conditions found in status of HelmRelease '' @ sq name))
       (Option.bind (map_of status ''conditions'') json_as_array)"

fun find_ready_condition :: "json list \<Rightarrow> json option" where
  "find_ready_condition [] = None"
| "find_ready_condition (cond # rest) =
     (if Option.bind (json_get ''type'' cond) json_as_str = Some ''Ready'' then Some cond
      else find_ready_condition rest)"

definition condition_message :: "json \<Rightarrow> string" where
  "condition_message cond =
     option_default ''No specific message found'' (Option.bind (json_get ''message'' cond) json_as_str)"

definition is_healthy_and_message :: "json list \<Rightarrow> bool \<times> string" where
  "is_healthy_and_message conditions =
     (case find_ready_condition conditions of
        None \<Rightarrow> (False, ''No '' @ sq ''Ready'' @ '' condition was found'')
      | Some cond \<Rightarrow>
          (case map_option condition_status_from (Option.bind (json_get ''status'' cond) json_as_str) of
             Some CondTrue \<Rightarrow> (True, ''HelmRelease is healthy'')
           | Some CondFalse \<Rightarrow> (False, ''HelmRelease not ready: '' @ condition_message cond)
           | Some CondUnknown \<Rightarrow> (False, ''HelmRelease status unknown: '' @ condition_message cond)
           | None \<Rightarrow> (False, ''HelmRelease status missing'')))"

text \<open>\<open>fetched\<close> is what the client returned for the object: its data when it exists.\<close>

definition helm_release_check_health ::
  "string \<Rightarrow> string + json option \<Rightarrow> sys_time \<Rightarrow> sys_time
   \<Rightarrow> health_checker_error + health_with_start_time" where
  "helm_release_check_health name fetched start_time now =
     rbind (map_err (\<lambda>e. HcGeneric (''Error fetching HelmRelease '' @ sq name @ '': '' @ e)) fetched) (\<lambda>obj.
     rbind (ok_or (HcGeneric (''HelmRelease '' @ sq name @ '' not found'')) obj) (\<lambda>data.
     rbind (ok_or (HcGeneric ''HelmRelease data is not an object'') (json_as_object data)) (\<lambda>data.
     rbind (get_status name data) (\<lambda>status.
     rbind (get_status_conditions name status) (\<lambda>conditions.
     let (ok, message) = is_healthy_and_message conditions in
     if ok then Inr (hw_from_healthy (healthy_new now) start_time)
     else Inr (hw_from_unhealthy (unhealthy_new now message) start_time))))))"

subsection \<open>Instrumentation\<close>

record unhealthy_pod_error =
  upe_pod :: string
  upe_last_error :: string

record instrumentation_status =
  is_pods_matching :: nat
  is_pods_healthy :: nat
  is_pods_injected :: nat
  is_pods_not_ready :: nat
  is_pods_outdated :: nat
  is_pods_unhealthy :: nat
  is_unhealthy_pods_errors :: "unhealthy_pod_error list"
  is_entity_guids :: "string list"

definition instrumentation_status_fmt :: "instrumentation_status \<Rightarrow> string" where
  "instrumentation_status_fmt s =
     ''podsMatching:'' @ show_nat (is_pods_matching s) @ '', podsHealthy:'' @ show_nat (is_pods_healthy s)
     @ '', podsInjected:'' @ show_nat (is_pods_injected s) @ '', podsNotReady:'' @ show_nat (is_pods_not_ready s)
     @ '', podsOutdated:'' @ show_nat (is_pods_outdated s) @ '', podsUnhealthy:'' @ show_nat (is_pods_unhealthy s)"

definition instrumentation_is_healthy :: "instrumentation_status \<Rightarrow> bool" where
  "instrumentation_is_healthy s \<longleftrightarrow>
     is_pods_not_ready s = 0 \<and> is_pods_unhealthy s = 0 \<and> is_pods_healthy s > 0 \<and> is_pods_matching s > 0 \<and>
     is_pods_injected s = is_pods_matching s"

definition unhealthy_pod_error_fmt :: "unhealthy_pod_error \<Rightarrow> string" where
  "unhealthy_pod_error_fmt e = ''pod '' @ upe_pod e @ '':'' @ upe_last_error e"

definition instrumentation_last_error :: "instrumentation_status \<Rightarrow> string" where
  "instrumentation_last_error s = join '', '' (map unhealthy_pod_error_fmt (is_unhealthy_pods_errors s))"

definition instrumentation_get_health :: "sys_time \<Rightarrow> instrumentation_status \<Rightarrow> health" where
  "instrumentation_get_health now s =
     (if instrumentation_is_healthy s
      then Healthy ((healthy_new now)\<lparr>hl_status := instrumentation_status_fmt s\<rparr>)
      else Unhealthy ((unhealthy_new now (instrumentation_last_error s))\<lparr>uh_status := instrumentation_status_fmt s\<rparr>))"

text \<open>\<open>from_value\<close> is the JSON library reading the status.\<close>

definition instrumentation_check_health ::
  "(json \<Rightarrow> string + instrumentation_status) \<Rightarrow> string \<Rightarrow> string + json option \<Rightarrow> sys_time \<Rightarrow> sys_time
   \<Rightarrow> health_checker_error + health_with_start_time" where
  "instrumentation_check_health from_value name fetched start_time now =
     rbind (map_err (\<lambda>e. HcGeneric (''instrumentation CR could not be fetched'' @ sq name @ '': '' @ e)) fetched)
       (\<lambda>obj.
     rbind (ok_or (HcGeneric (''Instrumentation '' @ sq name @ '' not found'')) obj) (\<lambda>data.
     rbind (ok_or (HcGeneric ''instrumentation CR data is not an object'') (json_as_object data)) (\<lambda>data.
     rbind (ok_or (HcGeneric ''instrumentation status could not be retrieved'') (map_of data ''status'')) (\<lambda>status.
     rbind (map_err (\<lambda>e. HcGeneric (''could not deserialize a valid instrumentation status: '' @ e)) (from_value status))
       (\<lambda>status.
     Inr \<lparr>hw_start_time = start_time, hw_health = instrumentation_get_health now status\<rparr>)))))"

section \<open>Checkers\<close>

datatype resource_filter = ByName string | ByFluxLabel string

definition LABEL_RELEASE_FLUX :: string where
  "LABEL_RELEASE_FLUX = ''helm.toolkit.fluxcd.io/name''"

definition flux_release_filter :: "string \<Rightarrow> object_meta \<Rightarrow> bool" where
  "flux_release_filter release m =
     (case om_labels m of None \<Rightarrow> False | Some labels \<Rightarrow> map_of labels LABEL_RELEASE_FLUX = Some release)"

definition name_filter :: "string \<Rightarrow> object_meta \<Rightarrow> bool" where
  "name_filter name m = (case om_name m of None \<Rightarrow> False | Some n \<Rightarrow> n = name)"

fun resource_matches :: "resource_filter \<Rightarrow> object_meta \<Rightarrow> bool" where
  "resource_matches (ByName name) m = name_filter name m"
| "resource_matches (ByFluxLabel release) m = flux_release_filter release m"

fun check_health_for_items ::
  "sys_time \<Rightarrow> ('k \<Rightarrow> health_checker_error + health) \<Rightarrow> 'k list \<Rightarrow> health_checker_error + health" where
  "check_health_for_items now check [] = Inr (Healthy (healthy_new now))"
| "check_health_for_items now check (obj # items) =
     rbind (check obj) (\<lambda>h. if \<not> health_is_healthy h then Inr h else check_health_for_items now check items)"

record k8s_client =
  kc_list_daemon_set :: "string \<Rightarrow> string + daemon_set list"
  kc_list_deployment :: "string \<Rightarrow> string + deployment list"
  kc_list_stateful_set :: "string \<Rightarrow> string + stateful_set list"
  kc_get_dynamic_object :: "type_meta \<Rightarrow> string \<Rightarrow> string \<Rightarrow> string + json option"

text \<open>The three kinds of workloads are listed in a namespace and filtered.\<close>

definition workload_check_health ::
  "string + 'k list \<Rightarrow> ('k \<Rightarrow> object_meta) \<Rightarrow> ('k \<Rightarrow> health_checker_error + health) \<Rightarrow> resource_filter
   \<Rightarrow> sys_time \<Rightarrow> sys_time \<Rightarrow> health_checker_error + health_with_start_time" where
  "workload_check_health listed meta check flt start_time now =
     rbind (map_err HcK8sError listed) (\<lambda>items.
     rbind (check_health_for_items now check (filter (\<lambda>x. resource_matches flt (meta x)) items)) (\<lambda>h.
     Inr \<lparr>hw_start_time = start_time, hw_health = h\<rparr>))"

datatype k8s_resource_health_checker =
    CheckHelmRelease type_meta string string
  | CheckNewRelic type_meta string string
  | CheckStatefulSet resource_filter string
  | CheckDaemonSet resource_filter string
  | CheckDeployment resource_filter string

fun resource_check_health ::
  "k8s_client \<Rightarrow> (json \<Rightarrow> string + instrumentation_status) \<Rightarrow> sys_time \<Rightarrow> sys_time \<Rightarrow> k8s_resource_health_checker
   \<Rightarrow> health_checker_error + health_with_start_time" where
  "resource_check_health K from_value start_time now (CheckHelmRelease tm name ns) =
     helm_release_check_health name (kc_get_dynamic_object K tm name ns) start_time now"
| "resource_check_health K from_value start_time now (CheckNewRelic tm name ns) =
     instrumentation_check_health from_value name (kc_get_dynamic_object K tm name ns) start_time now"
| "resource_check_health K from_value start_time now (CheckStatefulSet flt ns) =
     workload_check_health (kc_list_stateful_set K ns) sset_meta (stateful_set_health now) flt start_time now"
| "resource_check_health K from_value start_time now (CheckDaemonSet flt ns) =
     workload_check_health (kc_list_daemon_set K ns) dset_meta (check_health_single_daemon_set now) flt start_time now"
| "resource_check_health K from_value start_time now (CheckDeployment flt ns) =
     workload_check_health (kc_list_deployment K ns) dpl_meta (check_deployment_health now) flt start_time now"

definition health_checkers_for_type_meta ::
  "type_meta \<Rightarrow> string \<Rightarrow> string \<Rightarrow> string option \<Rightarrow> k8s_resource_health_checker list" where
  "health_checkers_for_type_meta tm name ns target =
     (if tm = helmrelease_v2_type_meta then
        (let target_ns = option_default ns target in
         [CheckHelmRelease tm name ns, CheckStatefulSet (ByFluxLabel name) target_ns,
          CheckDaemonSet (ByFluxLabel name) target_ns, CheckDeployment (ByFluxLabel name) target_ns])
      else if tm = instrumentation_v1beta3_type_meta then [CheckNewRelic tm name ns]
      else [])"

datatype k8s_health_resource_kind =
    KindDeployment | KindDaemonSet | KindStatefulSet | KindInstrumentation | KindHelmReleaseWorkload

record k8s_health_check_definition =
  khd_name :: string
  khd_namespace :: string
  khd_kind :: k8s_health_resource_kind
  khd_target_namespace :: "string option"

definition checkers_for_check_definition ::
  "k8s_health_check_definition \<Rightarrow> k8s_resource_health_checker list" where
  "checkers_for_check_definition check =
     (let name = khd_name check; ns = khd_namespace check in
      case khd_kind check of
        KindDeployment \<Rightarrow> [CheckDeployment (ByName name) ns]
      | KindDaemonSet \<Rightarrow> [CheckDaemonSet (ByName name) ns]
      | KindStatefulSet \<Rightarrow> [CheckStatefulSet (ByName name) ns]
      | KindInstrumentation \<Rightarrow> [CheckNewRelic instrumentation_v1beta3_type_meta name ns]
      | KindHelmReleaseWorkload \<Rightarrow>
          (let target_ns = option_default ns (khd_target_namespace check) in
           [CheckHelmRelease helmrelease_v2_type_meta name ns, CheckStatefulSet (ByFluxLabel name) target_ns,
            CheckDaemonSet (ByFluxLabel name) target_ns, CheckDeployment (ByFluxLabel name) target_ns]))"

definition from_checks_definition ::
  "k8s_health_check_definition list \<Rightarrow> k8s_resource_health_checker list option" where
  "from_checks_definition checks =
     (let checkers = concat (map checkers_for_check_definition checks)
      in if checkers = [] then None else Some checkers)"

fun k8s_check_health ::
  "('c \<Rightarrow> health_checker_error + health_with_start_time) \<Rightarrow> sys_time \<Rightarrow> sys_time \<Rightarrow> 'c list
   \<Rightarrow> health_checker_error + health_with_start_time" where
  "k8s_check_health check start_time now [] = Inr (hw_from_healthy (healthy_new now) start_time)"
| "k8s_check_health check start_time now (rhc # rest) =
     rbind (check rhc) (\<lambda>h. if \<not> hw_is_healthy h then Inr h else k8s_check_health check start_time now rest)"

subsection \<open>Agent Control\<close>

datatype health_checker_variants = VariantK8s "k8s_resource_health_checker list" | VariantNoOp

fun variants_check_health ::
  "k8s_client \<Rightarrow> (json \<Rightarrow> string + instrumentation_status) \<Rightarrow> sys_time \<Rightarrow> sys_time \<Rightarrow> health_checker_variants
   \<Rightarrow> health_checker_error + health_with_start_time" where
  "variants_check_health K from_value start_time now (VariantK8s checkers) =
     k8s_check_health (resource_check_health K from_value start_time now) start_time now checkers"
| "variants_check_health K from_value start_time now VariantNoOp = noop_check_health start_time now"

record ac_k8s_config =
  akc_cd_enabled :: bool
  akc_ac_release_name :: "string option"
  akc_cd_release_name :: "string option"
  akc_namespace :: string

definition agent_control_health_checker_builder :: "ac_k8s_config \<Rightarrow> health_checker_variants option" where
  "agent_control_health_checker_builder cfg =
     (if \<not> akc_cd_enabled cfg then Some VariantNoOp
      else
        (let releases = List.map_filter id [akc_ac_release_name cfg, akc_cd_release_name cfg]
         in Some (VariantK8s (concat (map (\<lambda>release.
              health_checkers_for_type_meta helmrelease_v2_type_meta release (akc_namespace cfg)
                (Some (akc_namespace cfg))) releases)))))"

section \<open>Aggregates\<close>

text \<open>The contract of the aggregates: they ask one checker after the other and return the first outcome
  that is an error or not healthy.\<close>

locale health_aggregate =
  fixes outcome :: "'c \<Rightarrow> 'e + 'h" and ok :: "'h \<Rightarrow> bool" and agg :: "'c list \<Rightarrow> 'e + 'h"
  assumes agg_Nil: "\<exists>h. agg [] = Inr h \<and> ok h"
    and agg_Cons: "agg (x # xs) = rbind (outcome x) (\<lambda>h. if \<not> ok h then Inr h else agg xs)"
begin

definition fine :: "'c \<Rightarrow> bool" where
  "fine x \<longleftrightarrow> (\<exists>h. outcome x = Inr h \<and> ok h)"

lemma agg_first: "list_all fine before \<Longrightarrow> \<not> fine x \<Longrightarrow> agg (before @ x # after) = outcome x"
proof (induction before)
  case Nil
  then show ?case
    unfolding append_Nil agg_Cons by (cases "outcome x") (simp_all add: rbind_def fine_def)
next
  case (Cons y before)
  then obtain h where "outcome y = Inr h" "ok h" by (auto simp: fine_def)
  then have "agg ((y # before) @ x # after) = agg (before @ x # after)"
    unfolding append_Cons agg_Cons by (simp add: rbind_def)
  with Cons show ?case by simp
qed

lemma agg_fine: "list_all fine xs \<Longrightarrow> agg xs = agg []"
proof (induction xs)
  case (Cons y xs)
  then obtain h where "outcome y = Inr h" "ok h" by (auto simp: fine_def)
  then have "agg (y # xs) = agg xs" unfolding agg_Cons by (simp add: rbind_def)
  with Cons show ?case by simp
qed simp

lemma agg_healthy_iff: "(\<exists>h. agg xs = Inr h \<and> ok h) \<longleftrightarrow> list_all fine xs"
proof
  assume "list_all fine xs"
  then have "agg xs = agg []" by (rule agg_fine)
  with agg_Nil show "\<exists>h. agg xs = Inr h \<and> ok h" by metis
next
  assume healthy: "\<exists>h. agg xs = Inr h \<and> ok h"
  show "list_all fine xs"
  proof (rule ccontr)
    assume "\<not> list_all fine xs"
    then obtain before x after where "xs = before @ x # after" "list_all fine before" "\<not> fine x"
      using split_list_first_prop[of xs "\<lambda>x. \<not> fine x"] by (auto simp: list_all_iff)
    then show False using agg_first healthy by (metis fine_def)
  qed
qed

end

interpretation items: health_aggregate check health_is_healthy "check_health_for_items now check"
  for check :: "'k \<Rightarrow> health_checker_error + health" and now :: sys_time
  by unfold_locales simp_all

interpretation checkers: health_aggregate check "\<lambda>h. hw_is_healthy h" "k8s_check_health check start_time now"
  for check :: "'c \<Rightarrow> health_checker_error + health_with_start_time" and start_time now :: sys_time
  by unfold_locales (simp_all add: hw_from_healthy_def)

definition reports_healthy :: "health_checker_error + health \<Rightarrow> bool" where
  "reports_healthy r = (case r of Inl _ \<Rightarrow> False | Inr h \<Rightarrow> health_is_healthy h)"

definition reports_hw_healthy :: "health_checker_error + health_with_start_time \<Rightarrow> bool" where
  "reports_hw_healthy r = (case r of Inl _ \<Rightarrow> False | Inr h \<Rightarrow> hw_is_healthy h)"

lemma reports_healthy_iff: "reports_healthy r \<longleftrightarrow> (\<exists>h. r = Inr h \<and> health_is_healthy h)"
  by (cases r) (auto simp: reports_healthy_def)

lemma reports_hw_healthy_iff: "reports_hw_healthy r \<longleftrightarrow> (\<exists>h. r = Inr h \<and> hw_is_healthy h)"
  by (cases r) (auto simp: reports_hw_healthy_def)

lemma items_healthy: "reports_healthy (check_health_for_items now check xs) \<longleftrightarrow> list_all (\<lambda>x. reports_healthy (check x)) xs"
  using items.agg_healthy_iff[of now check xs]
  by (simp add: reports_healthy_iff items.fine_def[abs_def])

lemma checkers_healthy:
  "reports_hw_healthy (k8s_check_health check start_time now xs) \<longleftrightarrow> list_all (\<lambda>x. reports_hw_healthy (check x)) xs"
  using checkers.agg_healthy_iff[of check start_time now xs]
  by (simp add: reports_hw_healthy_iff checkers.fine_def[abs_def])

lemma workload_healthy:
  "reports_hw_healthy (workload_check_health listed meta check flt start_time now) \<longleftrightarrow>
     (\<exists>items. listed = Inr items \<and> (\<forall>x\<in>set items. resource_matches flt (meta x) \<longrightarrow> reports_healthy (check x)))"
proof (cases listed)
  case (Inr items)
  let ?sel = "filter (\<lambda>x. resource_matches flt (meta x)) items"
  have "reports_hw_healthy (workload_check_health listed meta check flt start_time now) \<longleftrightarrow>
      reports_healthy (check_health_for_items now check ?sel)"
    by (auto simp: workload_check_health_def Inr rbind_def reports_hw_healthy_def reports_healthy_def split: sum.splits)
  also have "\<dots> \<longleftrightarrow> (\<forall>x\<in>set items. resource_matches flt (meta x) \<longrightarrow> reports_healthy (check x))"
    by (auto simp: items_healthy list_all_iff)
  finally show ?thesis using Inr by simp
qed (simp add: workload_check_health_def rbind_def reports_hw_healthy_def)

section \<open>Properties\<close>

lemma reports_healthy_simps [simp]:
  "reports_healthy (Inl e) = False" "reports_healthy (Inr h) = health_is_healthy h"
  "reports_healthy (rbind r f) = (\<exists>x. r = Inr x \<and> reports_healthy (f x))"
  by (auto simp: reports_healthy_def rbind_def split: sum.splits)

lemma ok_or_Inr: "ok_or e x = Inr y \<longleftrightarrow> x = Some y"
  by (simp add: ok_or_def split: option.splits)

lemma get_metadata_name_Inr: "get_metadata_name kind m = Inr name \<longleftrightarrow> om_name m = Some name"
  unfolding get_metadata_name_def by (rule ok_or_Inr)

lemma positive_default: "(case x of None \<Rightarrow> False | Some n \<Rightarrow> n > 0) \<longleftrightarrow> \<not> option_default 0 x \<le> (0 :: int)"
  by (cases x) (auto simp: option_default_def)

lemma rolling_update_Inr:
  "is_daemon_set_update_strategy_rolling_update name ds = Inr b \<longleftrightarrow>
     (\<exists>type. dset_spec ds = Some (Some (Some type)) \<and> b = (type = ''RollingUpdate''))"
  unfolding is_daemon_set_update_strategy_rolling_update_def rbind_eq_Inr ok_or_Inr by blast

lemma daemon_set_health_conditions:
  "reports_healthy (check_health_single_daemon_set now ds) \<longleftrightarrow>
     (\<exists>name st type. om_name (dset_meta ds) = Some name \<and> dset_status ds = Some st \<and>
        dset_spec ds = Some (Some (Some type)) \<and>
        dss_desired_number_scheduled st \<le> dss_number_ready st \<and>
        option_default 0 (dss_number_unavailable st) \<le> 0 \<and>
        (if type = ''RollingUpdate''
         then dss_desired_number_scheduled st \<le> option_default 0 (dss_updated_number_scheduled st) else True))"
proof -
  define ru where "ru = ''RollingUpdate''"
  show ?thesis
    unfolding check_health_single_daemon_set_def Let_def reports_healthy_simps get_metadata_name_Inr ok_or_Inr positive_default if_distrib[of reports_healthy]
      rolling_update_Inr health_is_healthy.simps ru_def[symmetric]
    by (cases "om_name (dset_meta ds)"; cases "dset_status ds") (auto simp: not_less)
qed

lemma deployment_health_conditions:
  "reports_healthy (check_deployment_health now dp) \<longleftrightarrow>
     (\<exists>name st desired. om_name (dpl_meta dp) = Some name \<and> dpl_status dp = Some st \<and>
        dpl_spec dp = Some (Some desired) \<and> option_default 0 (dps_unavailable_replicas st) \<le> 0 \<and>
        desired \<le> option_default 0 (dps_available_replicas st))"
  unfolding check_deployment_health_def Let_def reports_healthy_simps get_metadata_name_Inr ok_or_Inr positive_default if_distrib[of reports_healthy]
      health_is_healthy.simps
    by (cases "om_name (dpl_meta dp)"; cases "dpl_status dp") (auto simp: not_less)

lemma stateful_set_health_conditions:
  "reports_healthy (stateful_set_health now sts) \<longleftrightarrow>
     (\<exists>name spec. om_name (sset_meta sts) = Some name \<and> sset_spec sts = Some spec \<and>
        sset_status sts = Some (Some (option_default 1 spec)))"
  unfolding stateful_set_health_def Let_def reports_healthy_simps get_metadata_name_Inr ok_or_Inr if_distrib[of reports_healthy]
      health_is_healthy.simps
    by (cases "om_name (sset_meta sts)"; cases "sset_spec sts") auto

text \<open>When a single workload is healthy: a DaemonSet when it has as many ready pods as desired, no
  unavailable pod and, under the rolling update strategy, as many updated pods as desired; a Deployment
  when it has no unavailable replica and at least the desired number of available ones; a StatefulSet
  when its number of ready replicas is known and is the desired one, which is 1 by default.\<close>

theorem workload_health_conditions:
  "reports_healthy (check_health_single_daemon_set now ds) =
     (\<exists>name st type. om_name (dset_meta ds) = Some name \<and> dset_status ds = Some st \<and>
        dset_spec ds = Some (Some (Some type)) \<and>
        dss_desired_number_scheduled st \<le> dss_number_ready st \<and>
        option_default 0 (dss_number_unavailable st) \<le> 0 \<and>
        (if type = ''RollingUpdate''
         then dss_desired_number_scheduled st \<le> option_default 0 (dss_updated_number_scheduled st) else True))
   \<and> reports_healthy (check_deployment_health now dp) =
     (\<exists>name st desired. om_name (dpl_meta dp) = Some name \<and> dpl_status dp = Some st \<and>
        dpl_spec dp = Some (Some desired) \<and> option_default 0 (dps_unavailable_replicas st) \<le> 0 \<and>
        desired \<le> option_default 0 (dps_available_replicas st))
   \<and> reports_healthy (stateful_set_health now sts) =
     (\<exists>name spec. om_name (sset_meta sts) = Some name \<and> sset_spec sts = Some spec \<and>
        sset_status sts = Some (Some (option_default 1 spec)))"
  by (intro conjI daemon_set_health_conditions deployment_health_conditions stateful_set_health_conditions)

lemma reports_hw_healthy_simps [simp]:
  "reports_hw_healthy (Inl e) = False" "reports_hw_healthy (Inr h) = hw_is_healthy h"
  "reports_hw_healthy (rbind r f) = (\<exists>x. r = Inr x \<and> reports_hw_healthy (f x))"
  by (auto simp: reports_hw_healthy_def rbind_def split: sum.splits)

lemma json_as_Some:
  "json_as_object j = Some m \<longleftrightarrow> j = JObject m" "json_as_array j = Some xs \<longleftrightarrow> j = JArray xs"
  "json_as_str j = Some t \<longleftrightarrow> j = JString t"
  by (cases j; simp)+

lemma condition_status_case:
  "fst (case x of Some CondTrue \<Rightarrow> (True, a) | Some CondFalse \<Rightarrow> (False, b) | Some CondUnknown \<Rightarrow> (False, c)
      | None \<Rightarrow> (False, d)) \<longleftrightarrow> x = Some CondTrue"
  by (auto split: option.splits condition_status.splits)

lemma condition_status_True: "condition_status_from t = CondTrue \<longleftrightarrow> t = ''True''"
proof -
  have "(if p then CondTrue else if q then CondFalse else CondUnknown) = CondTrue \<longleftrightarrow> p" for p q by simp
  then show ?thesis unfolding condition_status_from_def .
qed

lemma ready_condition_status:
  "fst (is_healthy_and_message conds) \<longleftrightarrow>
     (\<exists>cond. find_ready_condition conds = Some cond \<and> json_get ''status'' cond = Some (JString ''True''))"
proof (cases "find_ready_condition conds")
  case None
  then show ?thesis unfolding is_healthy_and_message_def by simp
next
  case (Some cond)
  have "fst (is_healthy_and_message conds) \<longleftrightarrow>
      map_option condition_status_from (Option.bind (json_get ''status'' cond) json_as_str) = Some CondTrue"
    unfolding is_healthy_and_message_def Some option.case by (rule condition_status_case)
  also have "\<dots> \<longleftrightarrow> json_get ''status'' cond = Some (JString ''True'')"
    unfolding map_option_eq_Some bind_eq_Some_conv json_as_Some condition_status_True by blast
  finally show ?thesis unfolding Some by blast
qed

text \<open>When Flux reports a release as ready.\<close>

definition release_ready :: "string + json option \<Rightarrow> bool" where
  "release_ready fetched \<longleftrightarrow>
     (\<exists>data status conds cond. fetched = Inr (Some (JObject data)) \<and>
        map_of data ''status'' = Some (JObject status) \<and> map_of status ''conditions'' = Some (JArray conds) \<and>
        find_ready_condition conds = Some cond \<and> json_get ''status'' cond = Some (JString ''True''))"

lemma helm_release_healthy:
  "reports_hw_healthy (helm_release_check_health name fetched start_time now) \<longleftrightarrow> release_ready fetched"
proof -
  have last: "reports_hw_healthy (let (ok, message) = is_healthy_and_message conds in
      if ok then Inr (hw_from_healthy (healthy_new now) start_time)
      else Inr (hw_from_unhealthy (unhealthy_new now message) start_time)) \<longleftrightarrow> fst (is_healthy_and_message conds)" for conds
    by (cases "is_healthy_and_message conds") (simp add: hw_from_healthy_def hw_from_unhealthy_def)
  show ?thesis
    unfolding helm_release_check_health_def reports_hw_healthy_simps last map_err_eq_Inr ok_or_Inr get_status_def
      get_status_conditions_def bind_eq_Some_conv json_as_Some release_ready_def ready_condition_status
    by blast
qed

lemma list_all_filter: "list_all P (filter Q xs) \<longleftrightarrow> (\<forall>x\<in>set xs. Q x \<longrightarrow> P x)"
  by (auto simp: list_all_iff)

text \<open>What the health of a Flux release means: the aggregate check of a release is healthy exactly
  when Flux reports the release as ready and every StatefulSet, DaemonSet and Deployment that carries
  the label of the release in the target namespace is healthy; a failure to list or to fetch any of them
  makes it not healthy. Workloads without the label are not looked at.\<close>

theorem release_health_iff:
  "reports_hw_healthy (k8s_check_health (resource_check_health K from_value start_time now) start_time now
       (health_checkers_for_type_meta helmrelease_v2_type_meta name ns target)) =
     (release_ready (kc_get_dynamic_object K helmrelease_v2_type_meta name ns) \<and>
      (\<exists>stss dss dps. kc_list_stateful_set K (option_default ns target) = Inr stss \<and>
         kc_list_daemon_set K (option_default ns target) = Inr dss \<and>
         kc_list_deployment K (option_default ns target) = Inr dps \<and>
         list_all (\<lambda>x. reports_healthy (stateful_set_health now x))
           (filter (\<lambda>x. flux_release_filter name (sset_meta x)) stss) \<and>
         list_all (\<lambda>x. reports_healthy (check_health_single_daemon_set now x))
           (filter (\<lambda>x. flux_release_filter name (dset_meta x)) dss) \<and>
         list_all (\<lambda>x. reports_healthy (check_deployment_health now x))
           (filter (\<lambda>x. flux_release_filter name (dpl_meta x)) dps)))"
proof -
  have four: "health_checkers_for_type_meta helmrelease_v2_type_meta name ns target =
      [CheckHelmRelease helmrelease_v2_type_meta name ns, CheckStatefulSet (ByFluxLabel name) (option_default ns target),
       CheckDaemonSet (ByFluxLabel name) (option_default ns target),
       CheckDeployment (ByFluxLabel name) (option_default ns target)]"
    unfolding health_checkers_for_type_meta_def Let_def by (rule if_P) (rule refl)
  show ?thesis
    unfolding checkers_healthy four list.pred_inject resource_check_health.simps helm_release_healthy workload_healthy
      resource_matches.simps list_all_filter
    by (simp only: list.pred_inject(1)) blast
qed

end
