(* ===== verification/Sub_Agent.thy ===== *)
theory Sub_Agent
  imports Opamp_Client Health
begin

text \<open>
  A sub-agent (\<open>sub_agent.rs\<close>, \<open>sub_agent/event_handler/on_health.rs\<close>, \<open>sub_agent/health_checker.rs\<close>): how it
  starts its supervisor from the stored configuration, how it handles remote configurations, and its
  event loop.

  The state is the repository of configurations and the effects so far: the calls to the OpAMP client,
  the events broadcast, the internal events published, and what was done with supervisors. A supervisor
  is known by the effective agent it runs. The type parameters of \<open>SubAgent\<close> are the record \<open>sub_agent\<close>:
  client, parser, repository, assembler and supervisors; those that read the world around them (the
  client, the assembler with its registry, environment and secrets, the supervisors) answer depending on
  the whole state, with the text of their error when they fail.
\<close>

section \<open>State and collaborators\<close>

datatype ('a, 'v) sub_agent_event =
    SubHealthUpdated "'v agent_identity" health_with_start_time
  | SubAgentStarted "'v agent_identity" sys_time
  | SubAgentDescriptionUpdated "'v agent_identity" "'a agent_description"

datatype 'a sub_agent_internal_event =
    SubStopRequested
  | AgentHealthInfo health_with_start_time
  | AgentAttributesUpdated "'a agent_description"

text \<open>What happens to a supervisor; a failed \<open>apply\<close> consumes it.\<close>

datatype 'f supervisor_step =
    SvStarted 'f
  | SvApplied 'f
  | SvApplyFailed 'f
  | SvStopped 'f

record ('r, 'a, 'v, 'f) sub_state =
  ss_repo :: 'r
  ss_opamp :: "(component_health, 'a) opamp_call list"
  ss_broadcast :: "('a, 'v) sub_agent_event list"
  ss_internal :: "'a sub_agent_internal_event list"
  ss_supervisor :: "'f supervisor_step list"

record ('r, 'j, 'c, 'v, 's, 'a, 'f) sub_agent =
  sub_identity :: "'v agent_identity"
  sub_has_client :: bool
  sub_client :: "('r, 'a, 'v, 'f) sub_state \<Rightarrow> (component_health, 'a) opamp_call \<Rightarrow> string option"
  sub_description :: "('r, 'a, 'v, 'f) sub_state \<Rightarrow> string + 'a agent_description"
  sub_into :: "'a agent_description \<Rightarrow> 'a agent_description"
  sub_now :: "('r, 'a, 'v, 'f) sub_state \<Rightarrow> sys_time"
  sub_parse :: "'v agent_identity \<Rightarrow> 's opamp_remote_config \<Rightarrow> string + 'j remote_config option"
  sub_repo :: "('r, 'j, 'c, 'v) config_repository_ops"
  sub_capabilities :: 'c
  sub_assemble :: "('r, 'a, 'v, 'f) sub_state \<Rightarrow> 'v agent_identity \<Rightarrow> 'j yaml_config \<Rightarrow> string + 'f"
  sub_build :: "('r, 'a, 'v, 'f) sub_state \<Rightarrow> 'f \<Rightarrow> string option"
  sub_start :: "('r, 'a, 'v, 'f) sub_state \<Rightarrow> 'f \<Rightarrow> string option"
  sub_apply :: "('r, 'a, 'v, 'f) sub_state \<Rightarrow> 'f \<Rightarrow> 'f \<Rightarrow> string option"

section \<open>Reports\<close>

text \<open>A call to the client whose error, if any, is only logged, and one whose error is returned.\<close>

definition sub_call ::
  "(component_health, 'a) opamp_call \<Rightarrow> ('r, 'a, 'v, 'f) sub_state \<Rightarrow> ('r, 'a, 'v, 'f) sub_state" where
  "sub_call c s = s\<lparr>ss_opamp := ss_opamp s @ [c]\<rparr>"

definition sub_try_call ::
  "('r, 'j, 'c, 'v, 's, 'a, 'f) sub_agent \<Rightarrow> (component_health, 'a) opamp_call
   \<Rightarrow> (('r, 'a, 'v, 'f) sub_state, string, unit) action" where
  "sub_try_call A c s =
     (case sub_client A s c of None \<Rightarrow> Inr () | Some e \<Rightarrow> Inl e, sub_call c s)"

definition sub_report_state ::
  "('r, 'j, 'c, 'v, 's, 'a, 'f) sub_agent \<Rightarrow> config_state \<Rightarrow> hash
   \<Rightarrow> ('r, 'a, 'v, 'f) sub_state \<Rightarrow> ('r, 'a, 'v, 'f) sub_state" where
  "sub_report_state A st h s = (if sub_has_client A then sub_call (report_call st h) s else s)"

definition sub_on_repo ::
  "('r \<Rightarrow> (config_repository_error + unit) \<times> 'r) \<Rightarrow> ('r, 'a, 'v, 'f) sub_state
   \<Rightarrow> ('r, 'a, 'v, 'f) sub_state" where
  "sub_on_repo f s = s\<lparr>ss_repo := snd (f (ss_repo s))\<rparr>"

definition sub_ownership :: "('r, 'j, 'c, 'v, 's, 'a, 'f) sub_agent \<Rightarrow> 'v resource_ownership" where
  "sub_ownership A = OwnedBySubAgent (ai_agent_type_id (sub_identity A))"

definition report_and_persist_state ::
  "('r, 'j, 'c, 'v, 's, 'a, 'f) sub_agent \<Rightarrow> config_state \<Rightarrow> hash
   \<Rightarrow> ('r, 'a, 'v, 'f) sub_state \<Rightarrow> ('r, 'a, 'v, 'f) sub_state" where
  "report_and_persist_state A st h s =
     sub_on_repo (cr_update_state (sub_repo A) (ai_id (sub_identity A)) (sub_ownership A) st)
       (sub_report_state A st h s)"

definition publish_health_event ::
  "health_with_start_time \<Rightarrow> ('r, 'a, 'v, 'f) sub_state \<Rightarrow> ('r, 'a, 'v, 'f) sub_state" where
  "publish_health_event h s = s\<lparr>ss_internal := ss_internal s @ [AgentHealthInfo h]\<rparr>"

definition report_unhealthy_from_error ::
  "('r, 'j, 'c, 'v, 's, 'a, 'f) sub_agent \<Rightarrow> string
   \<Rightarrow> ('r, 'a, 'v, 'f) sub_state \<Rightarrow> ('r, 'a, 'v, 'f) sub_state" where
  "report_unhealthy_from_error A err s =
     publish_health_event (hw_from_unhealthy (unhealthy_new (sub_now A s) err) (sub_now A s)) s"

definition check_and_report_config_failed ::
  "'s opamp_remote_config \<Rightarrow> ('r, 'a, 'v, 'f) sub_state \<Rightarrow> bool \<times> ('r, 'a, 'v, 'f) sub_state" where
  "check_and_report_config_failed c s =
     (case error_message (orc_state c) of
        None \<Rightarrow> (False, s)
      | Some m \<Rightarrow> (True, sub_call (report_call (Failed m) (orc_hash c)) s))"

definition sv_step :: "'f supervisor_step \<Rightarrow> ('r, 'a, 'v, 'f) sub_state \<Rightarrow> ('r, 'a, 'v, 'f) sub_state" where
  "sv_step x s = s\<lparr>ss_supervisor := ss_supervisor s @ [x]\<rparr>"

definition stop_supervisor ::
  "'f option \<Rightarrow> ('r, 'a, 'v, 'f) sub_state \<Rightarrow> ('r, 'a, 'v, 'f) sub_state" where
  "stop_supervisor sv s = (case sv of None \<Rightarrow> s | Some f \<Rightarrow> sv_step (SvStopped f) s)"

section \<open>Start\<close>

text \<open>Starting the supervisor for an effective agent that was assembled and built, or not.\<close>

definition init_started ::
  "('r, 'j, 'c, 'v, 's, 'a, 'f) sub_agent \<Rightarrow> string + 'f \<Rightarrow> ('r, 'a, 'v, 'f) sub_state
   \<Rightarrow> (string + 'f) \<times> ('r, 'a, 'v, 'f) sub_state" where
  "init_started A not_started s =
     (case not_started of
        Inl e \<Rightarrow> (Inl e, s)
      | Inr f \<Rightarrow>
          (let s = (if sub_has_client A then sub_call UpdateEffectiveConfig s else s) in
           case sub_start A s f of
             None \<Rightarrow> (Inr f, sv_step (SvStarted f) s)
           | Some e \<Rightarrow> (Inl (''could not start the supervisor: '' @ e), s)))"

definition init_supervisor ::
  "('r, 'j, 'c, 'v, 's, 'a, 'f) sub_agent \<Rightarrow> ('r, 'a, 'v, 'f) sub_state
   \<Rightarrow> 'f option \<times> ('r, 'a, 'v, 'f) sub_state" where
  "init_supervisor A s =
     (let maybe_persisted_config =
        (case load_remote_fallback_local (sub_repo A) (ai_id (sub_identity A)) (sub_capabilities A) (ss_repo s) of
           Inl _ \<Rightarrow> None
         | Inr c \<Rightarrow> c)
      in case maybe_persisted_config of
           None \<Rightarrow> (None, if sub_has_client A then sub_call UpdateEffectiveConfig s else s)
         | Some config \<Rightarrow>
             (let effective_agent =
                map_err (\<lambda>e. ''effective agent cannot be assembled from YAML config: '' @ e)
                  (sub_assemble A s (sub_identity A) (get_yaml_config config));
                  not_started =
                rbind effective_agent (\<lambda>f.
                  case sub_build A s f of
                    None \<Rightarrow> Inr f
                  | Some e \<Rightarrow> Inl (''could not build the supervisor: '' @ e));
                  (started, s) = init_started A not_started s;
                  s = (case config of
                         RemoteConfig rc \<Rightarrow>
                           if rc_is_applying rc
                           then report_and_persist_state A
                                  (case started of Inr _ \<Rightarrow> Applied | Inl e \<Rightarrow> Failed e) (rc_hash rc) s
                           else s
                       | LocalConfig _ \<Rightarrow> s)
              in case started of
                   Inr f \<Rightarrow> (Some f, s)
                 | Inl e \<Rightarrow> (None, report_unhealthy_from_error A e s)))"

section \<open>Remote configurations\<close>

definition start_new_supervisor_reporting_config_and_state ::
  "('r, 'j, 'c, 'v, 's, 'a, 'f) sub_agent \<Rightarrow> hash \<Rightarrow> 'f \<Rightarrow> ('r, 'a, 'v, 'f) sub_state
   \<Rightarrow> 'f option \<times> ('r, 'a, 'v, 'f) sub_state" where
  "start_new_supervisor_reporting_config_and_state A h f s =
     (let s = sub_call UpdateEffectiveConfig s in
      case sub_start A s f of
        None \<Rightarrow> (Some f, report_and_persist_state A Applied h (sv_step (SvStarted f) s))
      | Some e \<Rightarrow> (None, report_and_persist_state A (Failed e) h (report_unhealthy_from_error A e s)))"

definition build_and_start_supervisor_from_effective_agent ::
  "('r, 'j, 'c, 'v, 's, 'a, 'f) sub_agent \<Rightarrow> 'f \<Rightarrow> hash \<Rightarrow> ('r, 'a, 'v, 'f) sub_state
   \<Rightarrow> 'f option \<times> ('r, 'a, 'v, 'f) sub_state" where
  "build_and_start_supervisor_from_effective_agent A f h s =
     (case sub_build A s f of
        None \<Rightarrow> start_new_supervisor_reporting_config_and_state A h f s
      | Some e \<Rightarrow> (None, sub_report_state A (Failed (''could not build the supervisor: '' @ e)) h s))"

definition apply_config_to_existing_supervisor ::
  "('r, 'j, 'c, 'v, 's, 'a, 'f) sub_agent \<Rightarrow> hash \<Rightarrow> 'f \<Rightarrow> 'f \<Rightarrow> ('r, 'a, 'v, 'f) sub_state
   \<Rightarrow> 'f option \<times> ('r, 'a, 'v, 'f) sub_state" where
  "apply_config_to_existing_supervisor A h old f s =
     (let s = sub_call UpdateEffectiveConfig s in
      case sub_apply A s old f of
        None \<Rightarrow> (Some f, report_and_persist_state A Applied h (sv_step (SvApplied f) s))
      | Some e \<Rightarrow>
          (None, report_and_persist_state A (Failed e) h
                   (report_unhealthy_from_error A e (sv_step (SvApplyFailed old) s))))"

definition report_reset_to_broken_local ::
  "('r, 'j, 'c, 'v, 's, 'a, 'f) sub_agent \<Rightarrow> hash \<Rightarrow> ('r, 'a, 'v, 'f) sub_state
   \<Rightarrow> ('r, 'a, 'v, 'f) sub_state" where
  "report_reset_to_broken_local A h s = sub_call UpdateEffectiveConfig (sub_report_state A Applied h s)"

definition apply_or_build_and_start_supervisor ::
  "('r, 'j, 'c, 'v, 's, 'a, 'f) sub_agent \<Rightarrow> 'j yaml_config \<Rightarrow> 'j remote_config option \<Rightarrow> hash \<Rightarrow> 'f option
   \<Rightarrow> ('r, 'a, 'v, 'f) sub_state \<Rightarrow> 'f option \<times> ('r, 'a, 'v, 'f) sub_state" where
  "apply_or_build_and_start_supervisor A yaml maybe_remote h old s =
     (case sub_assemble A s (sub_identity A) yaml of
        Inr f \<Rightarrow>
          (let s = (case maybe_remote of
                      Some rc \<Rightarrow>
                        sub_on_repo (cr_store_remote (sub_repo A) (ai_id (sub_identity A)) (sub_ownership A) rc) s
                    | None \<Rightarrow> s)
           in case old of
                Some previous \<Rightarrow> apply_config_to_existing_supervisor A h previous f s
              | None \<Rightarrow> build_and_start_supervisor_from_effective_agent A f h s)
      | Inl e \<Rightarrow>
          (if maybe_remote = None
           then (None, stop_supervisor old (report_reset_to_broken_local A h s))
           else (old, sub_report_state A (Failed (''invalid config: '' @ e)) h s)))"

definition stop_supervisor_and_report_no_config ::
  "('r, 'j, 'c, 'v, 's, 'a, 'f) sub_agent \<Rightarrow> 'f option \<Rightarrow> 's opamp_remote_config
   \<Rightarrow> ('r, 'a, 'v, 'f) sub_state \<Rightarrow> 'f option \<times> ('r, 'a, 'v, 'f) sub_state" where
  "stop_supervisor_and_report_no_config A old c s =
     (None, sub_call UpdateEffectiveConfig (sub_report_state A Applied (orc_hash c) (stop_supervisor old s)))"

definition reset_to_local_config ::
  "('r, 'j, 'c, 'v, 's, 'a, 'f) sub_agent \<Rightarrow> 's opamp_remote_config \<Rightarrow> 'f option
   \<Rightarrow> ('r, 'a, 'v, 'f) sub_state \<Rightarrow> 'f option \<times> ('r, 'a, 'v, 'f) sub_state" where
  "reset_to_local_config A c old s =
     (let s = sub_on_repo (cr_delete_remote (sub_repo A) (ai_id (sub_identity A))) s;
          maybe_local = (case cr_load_local (sub_repo A) (ai_id (sub_identity A)) (ss_repo s) of
                           Inl _ \<Rightarrow> None
                         | Inr l \<Rightarrow> l)
      in case maybe_local of
           Some l \<Rightarrow> apply_or_build_and_start_supervisor A (get_yaml_config l) None (orc_hash c) old s
         | None \<Rightarrow> stop_supervisor_and_report_no_config A old c s)"

definition sub_handle_remote_config ::
  "('r, 'j, 'c, 'v, 's, 'a, 'f) sub_agent \<Rightarrow> 's opamp_remote_config \<Rightarrow> 'f option
   \<Rightarrow> ('r, 'a, 'v, 'f) sub_state \<Rightarrow> 'f option \<times> ('r, 'a, 'v, 'f) sub_state" where
  "sub_handle_remote_config A c old s =
     (let known =
        (case cr_get_remote_config (sub_repo A) (ai_id (sub_identity A)) (ss_repo s) of
           Inr (Some rc) \<Rightarrow>
             if orc_hash c = rc_hash rc \<and> \<not> is_applying (rc_state rc) then Some rc else None
         | _ \<Rightarrow> None)
      in case known of
           Some rc \<Rightarrow> (old, sub_report_state A (rc_state rc) (rc_hash rc) s)
         | None \<Rightarrow>
             (let (failed, s) = check_and_report_config_failed c s in
              if failed then (old, s)
              else
                (let s = sub_report_state A Applying (orc_hash c) s in
                 case sub_parse A (sub_identity A) c of
                   Inr (Some rc) \<Rightarrow>
                     apply_or_build_and_start_supervisor A (rc_config rc) (Some rc) (orc_hash c) old s
                 | Inr None \<Rightarrow> reset_to_local_config A c old s
                 | Inl e \<Rightarrow> (old, sub_report_state A (Failed e) (orc_hash c) s))))"

section \<open>Event loop\<close>

definition is_health_state_equal_to_previous_state :: "health option \<Rightarrow> health \<Rightarrow> bool" where
  "is_health_state_equal_to_previous_state previous current =
     (case (previous, current) of
        (Some (Healthy _), Healthy _) \<Rightarrow> True
      | (Some prev, _) \<Rightarrow> health_eq prev current
      | _ \<Rightarrow> False)"

definition on_health ::
  "('r, 'j, 'c, 'v, 's, 'a, 'f) sub_agent \<Rightarrow> health_with_start_time
   \<Rightarrow> (('r, 'a, 'v, 'f) sub_state, string, unit) action" where
  "on_health A h =
     sbind (if sub_has_client A then sub_try_call A (SetHealth (component_health_from h)) else slift (Inr ()))
       (\<lambda>_ s. (Inr (), s\<lparr>ss_broadcast := ss_broadcast s @ [SubHealthUpdated (sub_identity A) h]\<rparr>))"

definition sub_get_description ::
  "('r, 'j, 'c, 'v, 's, 'a, 'f) sub_agent \<Rightarrow> (('r, 'a, 'v, 'f) sub_state, string, 'a agent_description) action" where
  "sub_get_description A s = (sub_description A s, sub_call GetAgentDescription s)"

datatype ('a, 's) sub_input =
    SubOpamp "'s opamp_event"
  | SubOpampChannelClosed
  | SubInternal "'a sub_agent_internal_event"
  | SubInternalChannelClosed
  | SubUptimeTick

text \<open>One turn of the loop: whether it goes on, the supervisor, the health last seen, which only decides
  what is logged, and the state.\<close>

fun sub_step ::
  "('r, 'j, 'c, 'v, 's, 'a, 'f) sub_agent \<Rightarrow> ('a, 's) sub_input
   \<Rightarrow> 'f option \<times> health option \<times> ('r, 'a, 'v, 'f) sub_state
   \<Rightarrow> bool \<times> 'f option \<times> health option \<times> ('r, 'a, 'v, 'f) sub_state" where
  "sub_step A SubOpampChannelClosed (sv, prev, s) = (False, sv, prev, s)"
| "sub_step A (SubOpamp (RemoteConfigReceived c)) (sv, prev, s) =
     (if sub_has_client A
      then (case sub_handle_remote_config A c sv s of (sv', s') \<Rightarrow> (True, sv', prev, s'))
      else (True, sv, prev, s))"
| "sub_step A (SubOpamp Connected) (sv, prev, s) = (True, sv, prev, s)"
| "sub_step A (SubOpamp (ConnectFailed code msg)) (sv, prev, s) = (True, sv, prev, s)"
| "sub_step A SubInternalChannelClosed (sv, prev, s) = (False, sv, prev, s)"
| "sub_step A (SubInternal SubStopRequested) (sv, prev, s) = (False, None, prev, stop_supervisor sv s)"
| "sub_step A (SubInternal (AgentHealthInfo h)) (sv, prev, s) =
     (True, sv, Some (hw_health h), snd (on_health A h s))"
| "sub_step A (SubInternal (AgentAttributesUpdated attrs)) (sv, prev, s) =
     (True, sv, prev,
      (\<lambda>s. s\<lparr>ss_broadcast := ss_broadcast s @ [SubAgentDescriptionUpdated (sub_identity A) attrs]\<rparr>)
        (if sub_has_client A
         then snd (update_opamp_attributes (sub_get_description A)
                     (\<lambda>d. sub_try_call A (SetAgentDescription d)) (sub_into A) attrs s)
         else s))"
| "sub_step A SubUptimeTick (sv, prev, s) = (True, sv, prev, s)"

fun sub_loop ::
  "('r, 'j, 'c, 'v, 's, 'a, 'f) sub_agent \<Rightarrow> ('a, 's) sub_input list
   \<Rightarrow> 'f option \<times> health option \<times> ('r, 'a, 'v, 'f) sub_state
   \<Rightarrow> bool \<times> 'f option \<times> health option \<times> ('r, 'a, 'v, 'f) sub_state" where
  "sub_loop A [] x = (True, x)"
| "sub_loop A (ev # evs) x =
     (case sub_step A ev x of (continue, x') \<Rightarrow> if continue then sub_loop A evs x' else (False, x'))"

definition stop_opamp_client ::
  "('r, 'j, 'c, 'v, 's, 'a, 'f) sub_agent \<Rightarrow> (('r, 'a, 'v, 'f) sub_state, string, unit) action" where
  "stop_opamp_client A = (if sub_has_client A then sub_try_call A StopClient else slift (Inr ()))"

text \<open>The runtime over the events received so far: \<open>None\<close> while it is still running, and otherwise the
  result of the thread.\<close>

definition sub_runtime ::
  "('r, 'j, 'c, 'v, 's, 'a, 'f) sub_agent \<Rightarrow> ('a, 's) sub_input list \<Rightarrow> ('r, 'a, 'v, 'f) sub_state
   \<Rightarrow> (string + unit) option \<times> ('r, 'a, 'v, 'f) sub_state" where
  "sub_runtime A inputs s =
     (case init_supervisor A s of
        (sv, s) \<Rightarrow>
          (let s = s\<lparr>ss_broadcast := ss_broadcast s @ [SubAgentStarted (sub_identity A) (sub_now A s)]\<rparr> in
           case sub_loop A inputs (sv, None, s) of
             (True, _, _, s) \<Rightarrow> (None, s)
           | (False, _, _, s) \<Rightarrow> (case stop_opamp_client A s of (r, s) \<Rightarrow> (Some r, s))))"

end
