(* ===== verification/Sub_Agent_Handling.thy ===== *)
theory Sub_Agent_Handling
  imports Sub_Agent Agent_Control_Loop
begin

text \<open>
  What a sub-agent guarantees: it never runs two supervisors and stops the one it runs, rejected
  configurations leave the supervisor alone, what it reports as applied is what runs, and a restart
  resumes what ran before.
\<close>

section \<open>At most one supervisor\<close>

text \<open>What runs after a sequence of steps, and \<open>None\<close> for a sequence that is not allowed: a supervisor may
  only be started when none runs, and only the running one may be changed or stopped.\<close>

fun sv_next :: "'f option option \<Rightarrow> 'f supervisor_step \<Rightarrow> 'f option option" where
  "sv_next (Some None) (SvStarted f) = Some (Some f)"
| "sv_next (Some (Some g)) (SvApplied f) = Some (Some f)"
| "sv_next (Some (Some g)) (SvApplyFailed f) = (if f = g then Some None else None)"
| "sv_next (Some (Some g)) (SvStopped f) = (if f = g then Some None else None)"
| "sv_next _ _ = None"

definition sv_track :: "'f supervisor_step list \<Rightarrow> 'f option option" where
  "sv_track steps = foldl sv_next (Some None) steps"

lemma sv_track_snoc [simp]: "sv_track (steps @ [x]) = sv_next (sv_track steps) x"
  by (simp add: sv_track_def)

lemma sv_track_Nil [simp]: "sv_track [] = Some None"
  by (simp add: sv_track_def)

text \<open>Reports do not touch supervisors.\<close>

lemma ss_supervisor_reports [simp]:
  "ss_supervisor (sub_call c s) = ss_supervisor s"
  "ss_supervisor (sub_report_state A st h s) = ss_supervisor s"
  "ss_supervisor (sub_on_repo f s) = ss_supervisor s"
  "ss_supervisor (report_and_persist_state A st h s) = ss_supervisor s"
  "ss_supervisor (publish_health_event h' s) = ss_supervisor s"
  "ss_supervisor (report_unhealthy_from_error A e s) = ss_supervisor s"
  "ss_supervisor (report_reset_to_broken_local A h s) = ss_supervisor s"
  "ss_supervisor (sv_step x s) = ss_supervisor s @ [x]"
  by (simp_all add: sub_call_def sub_report_state_def sub_on_repo_def report_and_persist_state_def
    publish_health_event_def report_unhealthy_from_error_def report_reset_to_broken_local_def sv_step_def)

lemma track_stop:
  "sv_track (ss_supervisor s) = Some sv \<Longrightarrow> sv_track (ss_supervisor (stop_supervisor sv s)) = Some None"
  by (cases sv) (simp_all add: stop_supervisor_def)

lemma track_start_new:
  "sv_track (ss_supervisor s) = Some None \<Longrightarrow> start_new_supervisor_reporting_config_and_state A h f s = (sv, s') \<Longrightarrow>
   sv_track (ss_supervisor s') = Some sv"
  by (auto simp: start_new_supervisor_reporting_config_and_state_def Let_def split: option.splits)

lemma track_build:
  "sv_track (ss_supervisor s) = Some None \<Longrightarrow> build_and_start_supervisor_from_effective_agent A f h s = (sv, s') \<Longrightarrow>
   sv_track (ss_supervisor s') = Some sv"
  using track_start_new
  by (auto simp: build_and_start_supervisor_from_effective_agent_def split: option.splits)

lemma track_apply:
  "sv_track (ss_supervisor s) = Some (Some g) \<Longrightarrow> apply_config_to_existing_supervisor A h g f s = (sv, s') \<Longrightarrow>
   sv_track (ss_supervisor s') = Some sv"
  by (auto simp: apply_config_to_existing_supervisor_def Let_def split: option.splits)

lemma track_apply_or_build:
  assumes "sv_track (ss_supervisor s) = Some old"
    and "apply_or_build_and_start_supervisor A yaml rc h old s = (sv, s')"
  shows "sv_track (ss_supervisor s') = Some sv"
proof (cases "sub_assemble A s (sub_identity A) yaml")
  case (Inl e)
  then show ?thesis
    using assms track_stop[of "report_reset_to_broken_local A h s" old]
    by (auto simp: apply_or_build_and_start_supervisor_def split: if_splits)
next
  case (Inr f)
  let ?s = "case rc of None \<Rightarrow> s
    | Some rc \<Rightarrow> sub_on_repo (cr_store_remote (sub_repo A) (ai_id (sub_identity A)) (sub_ownership A) rc) s"
  have track: "sv_track (ss_supervisor ?s) = Some old" using assms(1) by (cases rc) simp_all
  show ?thesis
  proof (cases old)
    case None
    then show ?thesis
      using assms(2) track track_build[of ?s A f h sv s']
      by (cases rc) (simp_all add: apply_or_build_and_start_supervisor_def Inr)
  next
    case (Some g)
    then show ?thesis
      using assms(2) track track_apply[of ?s g A h f sv s']
      by (cases rc) (simp_all add: apply_or_build_and_start_supervisor_def Inr)
  qed
qed

lemma track_reset:
  assumes "sv_track (ss_supervisor s) = Some old" and "reset_to_local_config A c old s = (sv, s')"
  shows "sv_track (ss_supervisor s') = Some sv"
proof -
  let ?s = "sub_on_repo (cr_delete_remote (sub_repo A) (ai_id (sub_identity A))) s"
  have track: "sv_track (ss_supervisor ?s) = Some old" using assms(1) by simp
  consider l where "apply_or_build_and_start_supervisor A (get_yaml_config l) None (orc_hash c) old ?s = (sv, s')"
    | "stop_supervisor_and_report_no_config A old c ?s = (sv, s')"
    using assms(2) by (auto simp: reset_to_local_config_def Let_def split: sum.splits option.splits)
  then show ?thesis
  proof cases
    case 1
    then show ?thesis using track_apply_or_build[OF track] by blast
  next
    case 2
    then show ?thesis
      using track_stop[OF track] by (auto simp: stop_supervisor_and_report_no_config_def)
  qed
qed

text \<open>The hash of the configuration is not one that was handled already.\<close>

definition sub_new_config ::
  "('r, 'j, 'c, 'v, 's, 'a, 'f) sub_agent \<Rightarrow> 's opamp_remote_config \<Rightarrow> ('r, 'a, 'v, 'f) sub_state \<Rightarrow> bool" where
  "sub_new_config A c s =
     (case cr_get_remote_config (sub_repo A) (ai_id (sub_identity A)) (ss_repo s) of
        Inr (Some rc) \<Rightarrow> orc_hash c \<noteq> rc_hash rc \<or> is_applying (rc_state rc)
      | _ \<Rightarrow> True)"

text \<open>The five ways in which a remote configuration can be handled.\<close>

lemma sub_handle_cases:
  assumes "sub_handle_remote_config A c old s = (sv, s')"
  obtains (known) rc where "cr_get_remote_config (sub_repo A) (ai_id (sub_identity A)) (ss_repo s) = Inr (Some rc)"
      "orc_hash c = rc_hash rc" "\<not> is_applying (rc_state rc)" "sv = old"
      "s' = sub_report_state A (rc_state rc) (rc_hash rc) s"
    | (failed) m where "sub_new_config A c s" "error_message (orc_state c) = Some m" "sv = old"
        "s' = sub_call (report_call (Failed m) (orc_hash c)) s"
    | (invalid) e where "sub_new_config A c s" "error_message (orc_state c) = None" "sub_parse A (sub_identity A) c = Inl e" "sv = old"
        "s' = sub_report_state A (Failed e) (orc_hash c) (sub_report_state A Applying (orc_hash c) s)"
    | (reset) "sub_new_config A c s" "error_message (orc_state c) = None" "sub_parse A (sub_identity A) c = Inr None"
        "reset_to_local_config A c old (sub_report_state A Applying (orc_hash c) s) = (sv, s')"
    | (valid) rc where "sub_new_config A c s" "error_message (orc_state c) = None" "sub_parse A (sub_identity A) c = Inr (Some rc)"
        "apply_or_build_and_start_supervisor A (rc_config rc) (Some rc) (orc_hash c) old
           (sub_report_state A Applying (orc_hash c) s) = (sv, s')"
proof -
  let ?known = "case cr_get_remote_config (sub_repo A) (ai_id (sub_identity A)) (ss_repo s) of
           Inr (Some rc) \<Rightarrow> if orc_hash c = rc_hash rc \<and> \<not> is_applying (rc_state rc) then Some rc else None
         | _ \<Rightarrow> None"
  show thesis
  proof (cases ?known)
    case (Some rc)
    then show thesis
      using assms known[of rc]
      by (auto simp: sub_handle_remote_config_def Let_def split: sum.splits option.splits if_splits)
  next
    case None
    then have fresh: "sub_new_config A c s"
      by (auto simp: sub_new_config_def split: sum.splits option.splits if_splits)
    show thesis
    proof (cases "error_message (orc_state c)")
      case (Some m)
      then show thesis
        using assms None fresh failed[of m]
        by (simp add: sub_handle_remote_config_def check_and_report_config_failed_def)
    next
      case ok: None
      have h: "(case sub_parse A (sub_identity A) c of
            Inr (Some rc) \<Rightarrow> apply_or_build_and_start_supervisor A (rc_config rc) (Some rc) (orc_hash c) old
              (sub_report_state A Applying (orc_hash c) s)
          | Inr None \<Rightarrow> reset_to_local_config A c old (sub_report_state A Applying (orc_hash c) s)
          | Inl e \<Rightarrow> (old, sub_report_state A (Failed e) (orc_hash c) (sub_report_state A Applying (orc_hash c) s)))
          = (sv, s')"
        using assms None ok
        by (simp add: sub_handle_remote_config_def check_and_report_config_failed_def Let_def)
      show thesis
      proof (cases "sub_parse A (sub_identity A) c")
        case (Inl e)
        then show thesis using fresh ok h invalid[of e] by simp
      next
        case (Inr rc)
        then show thesis using fresh ok h reset valid by (cases rc) simp_all
      qed
    qed
  qed
qed

lemma track_handle:
  assumes "sv_track (ss_supervisor s) = Some old" and "sub_handle_remote_config A c old s = (sv, s')"
  shows "sv_track (ss_supervisor s') = Some sv"
  using assms(2)
proof (cases rule: sub_handle_cases)
  case reset
  show ?thesis using track_reset[OF _ reset(4)] assms(1) by simp
next
  case (valid rc)
  show ?thesis using track_apply_or_build[OF _ valid(4)] assms(1) by simp
qed (use assms(1) in simp_all)

lemma track_init:
  assumes "ss_supervisor s = []" and "init_supervisor A s = (sv, s')"
  shows "sv_track (ss_supervisor s') = Some sv"
proof -
  have started: "sv_track (ss_supervisor s1) = Some (case r of Inl _ \<Rightarrow> None | Inr f \<Rightarrow> Some f)"
    if "init_started A ns s = (r, s1)" for ns r s1
    using that assms(1) by (auto simp: init_started_def Let_def sv_track_def split: sum.splits option.splits if_splits)
  show ?thesis
  proof (cases "load_remote_fallback_local (sub_repo A) (ai_id (sub_identity A)) (sub_capabilities A) (ss_repo s)")
    case (Inl e)
    then show ?thesis using assms by (auto simp: init_supervisor_def)
  next
    case (Inr cfg)
    show ?thesis
    proof (cases cfg)
      case None
      then show ?thesis using assms Inr by (auto simp: init_supervisor_def)
    next
      case (Some config)
      let ?ns = "rbind (map_err (\<lambda>e. ''effective agent cannot be assembled from YAML config: '' @ e)
          (sub_assemble A s (sub_identity A) (get_yaml_config config)))
        (\<lambda>f. case sub_build A s f of None \<Rightarrow> Inr f | Some e \<Rightarrow> Inl (''could not build the supervisor: '' @ e))"
      obtain r s1 where r: "init_started A ?ns s = (r, s1)" by fastforce
      have "ss_supervisor s' = ss_supervisor s1 \<and> sv = (case r of Inl _ \<Rightarrow> None | Inr f \<Rightarrow> Some f)"
        using assms(2) Inr Some r unfolding init_supervisor_def
        by (auto simp: Let_def split: sum.splits config.splits if_splits)
      with started[OF r] show ?thesis by simp
    qed
  qed
qed

lemma ss_supervisor_on_health [simp]: "ss_supervisor (snd (on_health A h s)) = ss_supervisor s"
  by (auto simp: on_health_def sbind_def sub_try_call_def slift_def split: option.splits)

lemma ss_supervisor_attributes [simp]:
  "ss_supervisor (snd (update_opamp_attributes (sub_get_description A)
     (\<lambda>d. sub_try_call A (SetAgentDescription d)) into attrs s)) = ss_supervisor s"
  by (simp add: update_opamp_attributes_def sub_get_description_def sbind_def sub_try_call_def split: sum.splits)

lemma track_step:
  assumes "sv_track (ss_supervisor s) = Some sv" and "sub_step A ev (sv, prev, s) = (continues, sv', prev', s')"
  shows "sv_track (ss_supervisor s') = Some sv' \<and>
    (\<not> continues \<longrightarrow> ev = SubInternal SubStopRequested \<and> sv' = None \<or>
       ev = SubOpampChannelClosed \<or> ev = SubInternalChannelClosed) \<and>
    (ev = SubInternal SubStopRequested \<longrightarrow> \<not> continues)"
  using assms track_handle track_stop
  by (cases "(A, ev, (sv, prev, s))" rule: sub_step.cases) (auto split: if_splits prod.splits)

lemma track_loop:
  assumes "sv_track (ss_supervisor s) = Some sv" and "sub_loop A inputs (sv, prev, s) = (continues, sv', prev', s')"
  shows "sv_track (ss_supervisor s') = Some sv' \<and>
    (\<not> continues \<longrightarrow> SubOpampChannelClosed \<notin> set inputs \<longrightarrow> SubInternalChannelClosed \<notin> set inputs \<longrightarrow> sv' = None) \<and>
    (SubInternal SubStopRequested \<in> set inputs \<longrightarrow> \<not> continues)"
  using assms
proof (induction inputs arbitrary: sv prev s)
  case (Cons ev inputs)
  obtain go sv1 prev1 s1 where step: "sub_step A ev (sv, prev, s) = (go, sv1, prev1, s1)"
    by (cases "sub_step A ev (sv, prev, s)")
  note track = track_step[OF Cons.prems(1) step]
  show ?case
  proof (cases go)
    case True
    then have "sub_loop A inputs (sv1, prev1, s1) = (continues, sv', prev', s')"
      using Cons.prems(2) step by simp
    from Cons.IH[OF _ this] track True show ?thesis by auto
  next
    case False
    then have "continues = False \<and> sv' = sv1 \<and> s' = s1" using Cons.prems(2) step by simp
    with track False show ?thesis by auto
  qed
qed simp

text \<open>C7. A sub-agent never runs two supervisors: in every run of its loop a supervisor is only started
  while none runs, and only the one that runs is changed or stopped. Once a stop is requested the loop
  ends, and unless it ended because a channel was closed, it holds no supervisor any more.\<close>

theorem one_supervisor:
  assumes "ss_supervisor s = []" and "sub_runtime A inputs s = (r, s')"
  shows "\<exists>sv. sv_track (ss_supervisor s') = Some sv \<and>
    (r \<noteq> None \<longrightarrow> SubOpampChannelClosed \<notin> set inputs \<longrightarrow> SubInternalChannelClosed \<notin> set inputs \<longrightarrow> sv = None) \<and>
    (SubInternal SubStopRequested \<in> set inputs \<longrightarrow> r \<noteq> None)"
proof -
  obtain sv0 s0 where init: "init_supervisor A s = (sv0, s0)" by fastforce
  let ?s0 = "s0\<lparr>ss_broadcast := ss_broadcast s0 @ [SubAgentStarted (sub_identity A) (sub_now A s0)]\<rparr>"
  obtain continues sv prev s1 where loop: "sub_loop A inputs (sv0, None, ?s0) = (continues, sv, prev, s1)"
    by (cases "sub_loop A inputs (sv0, None, ?s0)")
  have "sv_track (ss_supervisor ?s0) = Some sv0" using track_init[OF assms(1) init] by simp
  note track = track_loop[OF this loop]
  have stop: "ss_supervisor (snd (stop_opamp_client A s1)) = ss_supervisor s1"
    by (simp add: stop_opamp_client_def sub_try_call_def slift_def)
  show ?thesis
  proof (cases continues)
    case True
    then have "r = None \<and> s' = s1" using assms(2) init loop by (simp add: sub_runtime_def Let_def)
    with track True show ?thesis by auto
  next
    case False
    then have "r = Some (fst (stop_opamp_client A s1)) \<and> s' = snd (stop_opamp_client A s1)"
      using assms(2) init loop by (auto simp: sub_runtime_def Let_def split: prod.splits)
    with track False stop show ?thesis by auto
  qed
qed

section \<open>Rejected and applied configurations\<close>

lemma sub_report_state_client:
  "sub_has_client A \<Longrightarrow> sub_report_state A st h s = sub_call (report_call st h) s"
  by (simp add: sub_report_state_def)

lemma sub_call_fields [simp]:
  "ss_opamp (sub_call c s) = ss_opamp s @ [c]" "ss_repo (sub_call c s) = ss_repo s"
  by (simp_all add: sub_call_def)

lemma ss_repo_reports [simp]:
  "ss_repo (sub_report_state A st h s) = ss_repo s"
  "ss_repo (sub_on_repo f s) = snd (f (ss_repo s))"
  "ss_repo (sv_step x s) = ss_repo s"
  "ss_repo (report_unhealthy_from_error A e s) = ss_repo s"
  "ss_repo (report_and_persist_state A st h s) =
     snd (cr_update_state (sub_repo A) (ai_id (sub_identity A)) (sub_ownership A) st (ss_repo s))"
  by (simp_all add: sub_report_state_def sub_call_def sub_on_repo_def sv_step_def publish_health_event_def
    report_unhealthy_from_error_def report_and_persist_state_def)

lemma ss_opamp_quiet [simp]:
  "ss_opamp (sub_on_repo f s) = ss_opamp s"
  "ss_opamp (sv_step x s) = ss_opamp s"
  "ss_opamp (stop_supervisor sv s) = ss_opamp s"
  "ss_opamp (report_unhealthy_from_error A e s) = ss_opamp s"
  by (simp_all add: sub_on_repo_def sv_step_def stop_supervisor_def publish_health_event_def
    report_unhealthy_from_error_def split: option.splits)


text \<open>What is reported while an effective agent is applied or started.\<close>

lemma apply_existing_result:
  assumes "apply_config_to_existing_supervisor A h old f s = (sv, s')" and "sub_has_client A"
  obtains (applied) "sv = Some f" "ss_repo s' =
        snd (cr_update_state (sub_repo A) (ai_id (sub_identity A)) (sub_ownership A) Applied (ss_repo s))"
    | (failed) e where "sv = None" "ss_opamp s' = ss_opamp s @ [UpdateEffectiveConfig, report_call (Failed e) h]"
  using assms by (auto simp: apply_config_to_existing_supervisor_def Let_def report_and_persist_state_def
    sub_report_state_client split: option.splits)

lemma build_result:
  assumes "build_and_start_supervisor_from_effective_agent A f h s = (sv, s')" and "sub_has_client A"
  obtains (applied) "sv = Some f" "ss_repo s' =
        snd (cr_update_state (sub_repo A) (ai_id (sub_identity A)) (sub_ownership A) Applied (ss_repo s))"
    | (failed) e calls where "sv = None" "ss_opamp s' = ss_opamp s @ calls @ [report_call (Failed e) h]"
        "set calls \<subseteq> {UpdateEffectiveConfig}"
  using assms by (fastforce simp: build_and_start_supervisor_from_effective_agent_def
    start_new_supervisor_reporting_config_and_state_def Let_def report_and_persist_state_def
    sub_report_state_client split: option.splits)

text \<open>The state when an effective agent assembled from a configuration is applied or started.\<close>

abbreviation stored_first ::
  "('r, 'j, 'c, 'v, 's, 'a, 'f) sub_agent \<Rightarrow> 'j remote_config option \<Rightarrow> ('r, 'a, 'v, 'f) sub_state
   \<Rightarrow> ('r, 'a, 'v, 'f) sub_state" where
  "stored_first A maybe_remote s \<equiv>
     (case maybe_remote of
        None \<Rightarrow> s
      | Some rc \<Rightarrow> sub_on_repo (cr_store_remote (sub_repo A) (ai_id (sub_identity A)) (sub_ownership A) rc) s)"

lemma apply_or_build_applied:
  assumes run: "apply_or_build_and_start_supervisor A yaml rc h old s = (sv, s')" and "sub_has_client A"
    and f: "sub_assemble A s (sub_identity A) yaml = Inr f"
    and calls: "ss_opamp s' = ss_opamp s @ calls" "report_call Applied h \<in> set calls"
  shows "sv = Some f \<and> ss_repo s' =
    snd (cr_update_state (sub_repo A) (ai_id (sub_identity A)) (sub_ownership A) Applied
      (ss_repo (stored_first A rc s)))"
proof -
  have opamp: "ss_opamp (stored_first A rc s) = ss_opamp s" by (cases rc) simp_all
  have "(case old of
          Some previous \<Rightarrow> apply_config_to_existing_supervisor A h previous f (stored_first A rc s)
        | None \<Rightarrow> build_and_start_supervisor_from_effective_agent A f h (stored_first A rc s)) = (sv, s')"
    using run f by (simp add: apply_or_build_and_start_supervisor_def Let_def split: option.splits)
  then consider g where "apply_config_to_existing_supervisor A h g f (stored_first A rc s) = (sv, s')"
    | "build_and_start_supervisor_from_effective_agent A f h (stored_first A rc s) = (sv, s')"
    by (cases old) auto
  then show ?thesis
  proof cases
    case 1
    then show ?thesis using assms(2)
    proof (cases rule: apply_existing_result)
      case (failed e)
      then show ?thesis using calls opamp report_call_state by auto
    qed simp
  next
    case 2
    then show ?thesis using assms(2)
    proof (cases rule: build_result)
      case (failed e calls')
      then show ?thesis using calls opamp report_call_state by auto
    qed simp
  qed
qed

lemma apply_or_build_log:
  assumes "apply_or_build_and_start_supervisor A yaml rc h old s = (sv, s')"
  shows "\<exists>calls. ss_opamp s' = ss_opamp s @ calls"
  using assms
  by (auto simp: apply_or_build_and_start_supervisor_def apply_config_to_existing_supervisor_def
    build_and_start_supervisor_from_effective_agent_def start_new_supervisor_reporting_config_and_state_def
    report_reset_to_broken_local_def report_and_persist_state_def sub_report_state_def Let_def
    split: sum.splits option.splits if_splits)

lemma applied_after_applying:
  assumes "ss_opamp s1 = ss_opamp s @ [report_call Applying h]" and "ss_opamp s' = ss_opamp s1 @ calls'"
    and "ss_opamp s' = ss_opamp s @ calls" and "report_call Applied h \<in> set calls"
  shows "report_call Applied h \<in> set calls'"
proof -
  have "calls = report_call Applying h # calls'" using assms(1-3) by simp
  with assms(4) report_call_state show ?thesis by auto
qed

lemma valid_applied:
  assumes "apply_or_build_and_start_supervisor A (rc_config rc) (Some rc) (orc_hash c) old
      (sub_report_state A Applying (orc_hash c) s) = (sv, s')" and "sub_has_client A"
    and "ss_opamp s' = ss_opamp s @ calls" and "report_call Applied (orc_hash c) \<in> set calls"
  shows "\<exists>f. sub_assemble A (sub_report_state A Applying (orc_hash c) s) (sub_identity A) (rc_config rc) = Inr f \<and>
    sv = Some f \<and> ss_repo s' =
    snd (cr_update_state (sub_repo A) (ai_id (sub_identity A)) (sub_ownership A) Applied
      (snd (cr_store_remote (sub_repo A) (ai_id (sub_identity A)) (sub_ownership A) rc (ss_repo s))))"
proof -
  let ?s = "sub_report_state A Applying (orc_hash c) s"
  have s1: "ss_opamp ?s = ss_opamp s @ [report_call Applying (orc_hash c)]"
    using assms(2) by (simp add: sub_report_state_client)
  obtain calls' where calls': "ss_opamp s' = ss_opamp ?s @ calls'" using apply_or_build_log[OF assms(1)] by blast
  note applied = applied_after_applying[OF s1 calls' assms(3,4)]
  show ?thesis
  proof (cases "sub_assemble A ?s (sub_identity A) (rc_config rc)")
    case (Inl e)
    then have "ss_opamp s' = ss_opamp ?s @ [report_call (Failed (''invalid config: '' @ e)) (orc_hash c)]"
      using assms(1,2) by (auto simp: apply_or_build_and_start_supervisor_def sub_report_state_client)
    with calls' have "calls' = [report_call (Failed (''invalid config: '' @ e)) (orc_hash c)]" by simp
    with applied report_call_state show ?thesis by auto
  next
    case (Inr f)
    from apply_or_build_applied[OF assms(1,2) Inr calls' applied] Inr show ?thesis by simp
  qed
qed

text \<open>C5. What \<open>Applied\<close> means when a sub-agent reports it for the hash of a message it handles. Either the
  message repeats the hash of the stored configuration, whose stored state is \<open>Applied\<close>: then this state is
  only reported again, and the supervisor, whether or not one runs, and the store stay as they are. Or
  the parser accepted the message: if it has values, the supervisor now runs the effective agent
  assembled from exactly those values; if it is empty, the supervisor runs what the local configuration
  gives, and none runs when there is no usable local configuration.\<close>

theorem sub_applied_runs:
  assumes "sub_handle_remote_config A c old s = (sv, s')" and "sub_has_client A"
    and "ss_opamp s' = ss_opamp s @ calls" and "report_call Applied (orc_hash c) \<in> set calls"
    and "s1 = sub_report_state A Applying (orc_hash c) s"
    and "s2 = sub_on_repo (cr_delete_remote (sub_repo A) (ai_id (sub_identity A))) s1"
  shows "(\<exists>rc. cr_get_remote_config (sub_repo A) (ai_id (sub_identity A)) (ss_repo s) = Inr (Some rc) \<and>
       rc_hash rc = orc_hash c \<and> rc_state rc = Applied \<and> sv = old \<and>
       s' = sub_report_state A Applied (orc_hash c) s) \<or>
    (\<exists>rc f. sub_new_config A c s \<and> sub_parse A (sub_identity A) c = Inr (Some rc) \<and>
       sub_assemble A s1 (sub_identity A) (rc_config rc) = Inr f \<and> sv = Some f) \<or>
    (sub_new_config A c s \<and> sub_parse A (sub_identity A) c = Inr None \<and>
     sv = (case cr_load_local (sub_repo A) (ai_id (sub_identity A)) (ss_repo s2) of
             Inr (Some l) \<Rightarrow> (case sub_assemble A s2 (sub_identity A) (get_yaml_config l) of
                               Inr f \<Rightarrow> Some f | Inl _ \<Rightarrow> None)
           | _ \<Rightarrow> None))"
  using assms(1)
proof (cases rule: sub_handle_cases)
  case (known rc)
  have "calls = [report_call (rc_state rc) (rc_hash rc)]" using known(5) assms(2,3) by (simp add: sub_report_state_client)
  then have "rc_state rc = Applied" using assms(4) report_call_state by (cases "rc_state rc") auto
  then show ?thesis using known by auto
next
  case (failed m)
  then show ?thesis using assms(3,4) report_call_state by auto
next
  case (invalid e)
  then show ?thesis using assms(2-4) report_call_state by (auto simp: sub_report_state_client)
next
  case (valid rc)
  from valid_applied[OF valid(4) assms(2-4)] valid(1,3) show ?thesis unfolding assms(5) by blast
next
  case reset
  let ?i = "ai_id (sub_identity A)"
  have opamp: "ss_opamp s2 = ss_opamp s @ [report_call Applying (orc_hash c)]"
    using assms(2) by (simp add: assms(5,6) sub_report_state_client)
  have run: "reset_to_local_config A c old s1 = (sv, s')" using reset(4) by (simp only: assms(5))
  show ?thesis
  proof (cases "cr_load_local (sub_repo A) ?i (ss_repo s2)")
    case (Inl e)
    then show ?thesis
      using reset(1,3) run by (auto simp: reset_to_local_config_def assms(6) stop_supervisor_and_report_no_config_def)
  next
    case loaded: (Inr l)
    show ?thesis
    proof (cases l)
      case None
      then show ?thesis
        using reset(1,3) run loaded
        by (auto simp: reset_to_local_config_def assms(6) stop_supervisor_and_report_no_config_def)
    next
      case (Some config)
      then have start: "apply_or_build_and_start_supervisor A (get_yaml_config config) None (orc_hash c) old s2 = (sv, s')"
        using run loaded by (simp add: reset_to_local_config_def assms(6))
      obtain calls' where calls': "ss_opamp s' = ss_opamp s2 @ calls'" using apply_or_build_log[OF start] by blast
      note applied = applied_after_applying[OF opamp calls' assms(3,4)]
      show ?thesis
      proof (cases "sub_assemble A s2 (sub_identity A) (get_yaml_config config)")
        case (Inl e)
        then show ?thesis
          using start reset(1,3) loaded Some by (simp add: apply_or_build_and_start_supervisor_def)
      next
        case (Inr f)
        from apply_or_build_applied[OF start assms(2) Inr calls' applied] reset(1,3) loaded Some Inr
        show ?thesis by simp
      qed
    qed
  qed
qed

section \<open>Restarts\<close>

text \<open>C6. On the host, what was applied survives a restart, provided that both writes to the store succeeded
  (the code ignores their errors) and that the store can be read when the sub-agent starts again. After
  a remote configuration with values was handled and reported as \<open>Applied\<close>, the store holds it with that
  state, and the supervisor runs the effective agent assembled from it. A sub-agent started later on the
  same store assembles its effective agent from the same values, whatever the assembler then makes of
  them; if it is assembled, built and started, it runs, the effective configuration is reported, and the
  state is not reported again. Receiving the same configuration once more only reports \<open>Applied\<close> again,
  without touching the supervisor or the store.\<close>

theorem host_restart_resumes:
  fixes A :: "(disk, 'j, 'c, 'v, 's, 'a, 'f) sub_agent"
  assumes "sub_repo A = host_repo os rcodec lcodec dirs has_capability"
    and "sub_parse A = (\<lambda>ident c. map_err show_err (remote_config_parse from_str validators ident c))"
    and "sub_has_client A" and "i = ai_id (sub_identity A)"
    and "sub_handle_remote_config A c old s = (sv, s')" and "sub_new_config A c s"
    and "ss_opamp s' = ss_opamp s @ calls" and "report_call Applied (orc_hash c) \<in> set calls"
    and "sub_parse A (sub_identity A) c = Inr (Some rc)"
    and "cr_store_remote (sub_repo A) i (sub_ownership A) rc (ss_repo s) = (Inr u, d)"
    and "cr_update_state (sub_repo A) i (sub_ownership A) Applied d = (Inr w, d')"
    and "yaml_storable rcodec rc" and "yaml_storable rcodec (with_state rc Applied)"
    and "host_remote_on has_capability (sub_capabilities A)"
    and "load_remote_fallback_local (sub_repo A) i (sub_capabilities A) d' = Inr x"
    and "cr_get_remote_config (sub_repo A) i d' = Inr y"
    and "ss_repo t = d'"
  shows "ss_repo s' = d' \<and> host_stored_config rcodec dirs d' i = Stored (with_state rc Applied) \<and>
    (\<exists>f. sub_assemble A (sub_report_state A Applying (orc_hash c) s) (sub_identity A) (rc_config rc) = Inr f \<and>
       sv = Some f) \<and>
    (\<forall>f. sub_assemble A t (sub_identity A) (rc_config rc) = Inr f \<longrightarrow> sub_build A t f = None \<longrightarrow>
       sub_start A (sub_call UpdateEffectiveConfig t) f = None \<longrightarrow>
       init_supervisor A t = (Some f, sv_step (SvStarted f) (sub_call UpdateEffectiveConfig t))) \<and>
    sub_handle_remote_config A c sv t = (sv, sub_report_state A Applied (orc_hash c) t)"
proof -
  note a = assms(10-16)[unfolded assms(1)]
  from host.store_remote_stores[OF a(1,3)] have d: "host_stored_config rcodec dirs d i = Stored rc" .
  with host.update_state_updates[OF a(2)] a(4)
  have d': "host_stored_config rcodec dirs d' i = Stored (with_state rc Applied)" by auto
  have x: "x = Some (RemoteConfig (with_state rc Applied))" by (rule host.fallback_stored[OF a(5) d' a(6)])
  have y: "y = Some (with_state rc Applied)" using host.get_remote_config_view[OF a(7)] d' by (cases y) auto
  have hash: "rc_hash rc = orc_hash c"
    using assms(9) unfolding assms(2)
    by (auto simp: map_err_eq_Inr remote_config_parse_Inr extract_remote_config_values_iff split: if_splits)
  obtain f where f: "sub_assemble A (sub_report_state A Applying (orc_hash c) s) (sub_identity A) (rc_config rc) = Inr f"
      "sv = Some f" "ss_repo s' = d'"
    using assms(5)
  proof (cases rule: sub_handle_cases)
    case (known rc')
    then show ?thesis using assms(6) by (simp add: sub_new_config_def)
  next
    case (failed m)
    then show ?thesis using assms(7,8) report_call_state by auto
  next
    case (valid rc')
    with assms(9) have "rc' = rc" by simp
    from valid_applied[OF valid(4)[unfolded this] assms(3,7,8)] assms(4,10,11) that show ?thesis by auto
  qed (use assms(9) in simp_all)
  have resumed: "init_supervisor A t = (Some f, sv_step (SvStarted f) (sub_call UpdateEffectiveConfig t))"
    if "sub_assemble A t (sub_identity A) (rc_config rc) = Inr f" "sub_build A t f = None"
      "sub_start A (sub_call UpdateEffectiveConfig t) f = None" for f
  proof -
    have "load_remote_fallback_local (sub_repo A) (ai_id (sub_identity A)) (sub_capabilities A) (ss_repo t) =
        Inr (Some (RemoteConfig (with_state rc Applied)))" using assms(4,15,17) x by simp
    moreover have "get_yaml_config (RemoteConfig (with_state rc Applied)) = rc_config rc"
      "\<not> rc_is_applying (with_state rc Applied)"
      by (simp_all add: with_state_def rc_is_applying_def is_applying_def)
    ultimately show ?thesis
      using that assms(3) by (simp add: init_supervisor_def init_started_def Let_def)
  qed
  have "cr_get_remote_config (sub_repo A) (ai_id (sub_identity A)) (ss_repo t) = Inr (Some (with_state rc Applied))"
    using assms(4,16,17) y by simp
  then have again: "sub_handle_remote_config A c sv t = (sv, sub_report_state A Applied (orc_hash c) t)"
    using hash by (simp add: sub_handle_remote_config_def with_state_def is_applying_def)
  from f d' resumed again show ?thesis by (intro conjI exI[of _ f] allI impI) simp_all
qed

section \<open>A concrete sub-agent\<close>

text \<open>Its agent type has the one variable \<open>k\<close>; the store writes the state and the hash of a configuration.\<close>

definition k_codec :: "unit remote_config yaml_codec" where
  "k_codec =
     \<lparr>yc_from_str = \<lambda>s. (case s of [] \<Rightarrow> Inl ''empty''
        | m # h \<Rightarrow> Inr \<lparr>rc_config = [(''k'', ())], rc_hash = h,
            rc_state = (if m = CHR ''A'' then Applied else if m = CHR ''P'' then Applying else Failed [])\<rparr>),
      yc_to_string = \<lambda>rc. Inr ((case rc_state rc of Applied \<Rightarrow> CHR ''A'' | Applying \<Rightarrow> CHR ''P''
        | Failed _ \<Rightarrow> CHR ''F'') # rc_hash rc)\<rparr>"

definition sample_sub :: "(disk, unit, unit, unit, unit, unit, string) sub_agent" where
  "sample_sub =
     \<lparr>sub_identity = agent_identity_from (SubAgent (SubAgentID ''a''))
        \<lparr>ati_name = ''agent'', ati_namespace = ''newrelic'', ati_version = ()\<rparr>,
      sub_has_client = True, sub_client = \<lambda>_ _. None, sub_description = \<lambda>_. Inl ''none'', sub_into = id,
      sub_now = \<lambda>_. 0,
      sub_parse = \<lambda>ident c. map_err (\<lambda>_. ''invalid'')
        (remote_config_parse (\<lambda>s. if s = ''?'' then Inl ''not YAML'' else Inr [(s, ())]) [] ident c),
      sub_repo = host_repo no_faults k_codec empty_codec sample_dirs (\<lambda>_ _. True),
      sub_capabilities = (),
      sub_assemble = \<lambda>_ _ y. if map fst y = [''k''] then Inr ''k'' else Inl ''unknown variable'',
      sub_build = \<lambda>_ _. None, sub_start = \<lambda>_ _. None, sub_apply = \<lambda>_ _ _. None\<rparr>"

definition sample_sub_state :: "(disk, unit, unit, string) sub_state" where
  "sample_sub_state =
     \<lparr>ss_repo = sample_disk, ss_opamp = [], ss_broadcast = [], ss_internal = [], ss_supervisor = []\<rparr>"

definition sample_sub_message :: "string \<Rightarrow> unit opamp_remote_config" where
  "sample_sub_message body =
     \<lparr>orc_agent_id = SubAgent (SubAgentID ''a''), orc_hash = ''h'', orc_state = Applying, orc_signatures = None,
      orc_config_map = [(''agentConfig'', body)]\<rparr>"

definition sample_sub_run :: "string \<Rightarrow> string option \<times> (disk, unit, unit, string) sub_state" where
  "sample_sub_run body = sub_handle_remote_config sample_sub (sample_sub_message body) None sample_sub_state"

lemma sample_sub_new: "sub_new_config sample_sub (sample_sub_message body) sample_sub_state"
proof -
  have "cr_get_remote_config (sub_repo sample_sub) (ai_id (sub_identity sample_sub)) (ss_repo sample_sub_state) = Inr None"
    by code_simp
  then show ?thesis by (simp add: sub_new_config_def)
qed

theorem one_supervisor_witness:
  "let inputs = [SubOpamp (RemoteConfigReceived (sample_sub_message ''k'')), SubInternal SubStopRequested] in
   length (ss_supervisor (snd (sub_runtime sample_sub inputs sample_sub_state))) = 2 \<and>
   sv_track (ss_supervisor (snd (sub_runtime sample_sub inputs sample_sub_state))) = Some None"
proof -
  define inputs :: "(unit, unit) sub_input list" where
    "inputs = [SubOpamp (RemoteConfigReceived (sample_sub_message ''k'')), SubInternal SubStopRequested]"
  let ?run = "sub_runtime sample_sub inputs sample_sub_state"
  have len: "length (ss_supervisor (snd ?run)) = 2" unfolding inputs_def by code_simp
  have start: "ss_supervisor sample_sub_state = []" by (simp add: sample_sub_state_def)
  have "SubOpampChannelClosed \<notin> set inputs \<and> SubInternalChannelClosed \<notin> set inputs \<and>
      SubInternal SubStopRequested \<in> set inputs" by (simp add: inputs_def)
  with one_supervisor[OF start, of sample_sub inputs "fst ?run" "snd ?run"]
  have "sv_track (ss_supervisor (snd ?run)) = Some None" by auto
  with len show ?thesis unfolding Let_def inputs_def[symmetric] by blast
qed


theorem sub_applied_runs_witness:
  "fst (sample_sub_run ''k'') = Some ''k''"
proof -
  define c where "c = sample_sub_message ''k''"
  define rc :: "unit remote_config" where "rc = \<lparr>rc_config = [(''k'', ())], rc_hash = ''h'', rc_state = Applying\<rparr>"
  define k where "k = ''k''"
  let ?run = "sample_sub_run ''k''"
  have run: "sub_handle_remote_config sample_sub c None sample_sub_state = (fst ?run, snd ?run)"
    unfolding c_def sample_sub_run_def by (rule prod.collapse[symmetric])
  have h: "orc_hash c = ''h''" unfolding c_def by (simp add: sample_sub_message_def)
  have "list_ex (\<lambda>x. x = report_call Applied ''h'') (ss_opamp (snd ?run))" by code_simp
  then have reported: "report_call Applied (orc_hash c) \<in> set (ss_opamp (snd ?run))"
    unfolding h by (simp only: list_ex_iff) (elim bexE, simp only:)
  have calls: "ss_opamp (snd ?run) = ss_opamp sample_sub_state @ ss_opamp (snd ?run)"
    by (simp add: sample_sub_state_def)
  have client: "sub_has_client sample_sub" by (simp add: sample_sub_def)
  let ?s1 = "sub_report_state sample_sub Applying (orc_hash c) sample_sub_state"
  have "cr_get_remote_config (sub_repo sample_sub) (ai_id (sub_identity sample_sub)) (ss_repo sample_sub_state) = Inr None"
    by code_simp
  moreover have "sub_parse sample_sub (sub_identity sample_sub) c = Inr (Some rc)"
    "sub_assemble sample_sub ?s1 (sub_identity sample_sub) (rc_config rc) = Inr k"
    unfolding c_def rc_def k_def by code_simp+
  ultimately have "fst ?run = Some k" using sub_applied_runs[OF run client calls reported refl refl] by auto
  then show ?thesis unfolding k_def .
qed

definition sample_rc :: "unit remote_config" where
  "sample_rc = \<lparr>rc_config = [(''k'', ())], rc_hash = ''h'', rc_state = Applying\<rparr>"

lemma k_codec_storable: "yaml_storable k_codec sample_rc" "yaml_storable k_codec (with_state sample_rc Applied)"
  by (simp_all add: yaml_storable_def k_codec_def sample_rc_def with_state_def)

theorem host_restart_resumes_witness:
  "let s' = snd (sample_sub_run ''k'') in
   host_stored_config k_codec sample_dirs (ss_repo s') (SubAgent (SubAgentID ''a'')) =
     Stored (with_state sample_rc Applied) \<and>
   fst (init_supervisor sample_sub (sample_sub_state\<lparr>ss_repo := ss_repo s'\<rparr>)) = fst (sample_sub_run ''k'')"
proof -
  define c where "c = sample_sub_message ''k''"
  define i where "i = ai_id (sub_identity sample_sub)"
  let ?run = "sample_sub_run ''k''" and ?A = sample_sub
  define d where "d = snd (cr_store_remote (sub_repo ?A) i (sub_ownership ?A) sample_rc (ss_repo sample_sub_state))"
  define d' where "d' = snd (cr_update_state (sub_repo ?A) i (sub_ownership ?A) Applied d)"
  define t where "t = sample_sub_state\<lparr>ss_repo := d'\<rparr>"
  have repo: "sub_repo ?A = host_repo no_faults k_codec empty_codec sample_dirs (\<lambda>_ _. True)"
    by (simp only: sample_sub_def sub_agent.simps)
  have parser: "sub_parse ?A = (\<lambda>ident c. map_err (\<lambda>_. ''invalid'')
      (remote_config_parse (\<lambda>s. if s = ''?'' then Inl ''not YAML'' else Inr [(s, ())]) [] ident c))"
    by (simp only: sample_sub_def sub_agent.simps)
  have client: "sub_has_client ?A" by (simp add: sample_sub_def)
  have run: "sub_handle_remote_config ?A c None sample_sub_state = (fst ?run, snd ?run)"
    unfolding c_def sample_sub_run_def by (rule prod.collapse[symmetric])
  have h: "orc_hash c = ''h''" unfolding c_def by (simp add: sample_sub_message_def)
  have "list_ex (\<lambda>x. x = report_call Applied ''h'') (ss_opamp (snd ?run))" by code_simp
  then have reported: "report_call Applied (orc_hash c) \<in> set (ss_opamp (snd ?run))"
    unfolding h by (simp only: list_ex_iff) (elim bexE, simp only:)
  have calls: "ss_opamp (snd ?run) = ss_opamp sample_sub_state @ ss_opamp (snd ?run)"
    by (simp add: sample_sub_state_def)
  have parse: "sub_parse ?A (sub_identity ?A) c = Inr (Some sample_rc)" unfolding c_def by code_simp
  have store: "fst (cr_store_remote (sub_repo ?A) i (sub_ownership ?A) sample_rc (ss_repo sample_sub_state)) = Inr ()"
    unfolding i_def by code_simp
  have upd: "fst (cr_update_state (sub_repo ?A) i (sub_ownership ?A) Applied d) = Inr ()"
    unfolding i_def d_def by code_simp
  have on: "host_remote_on (\<lambda>_ _. True) (sub_capabilities ?A)"
    by (simp add: host_remote_on_def remote_on_def has_remote_management_def)
  have "is_ok (load_remote_fallback_local (sub_repo ?A) i (sub_capabilities ?A) d')"
    "is_ok (cr_get_remote_config (sub_repo ?A) i d')"
    unfolding i_def d_def d'_def by code_simp+
  then obtain x y where x: "load_remote_fallback_local (sub_repo ?A) i (sub_capabilities ?A) d' = Inr x"
    and y: "cr_get_remote_config (sub_repo ?A) i d' = Inr y" unfolding is_ok_iff by (elim exE)
  have t: "ss_repo t = d'" by (simp add: t_def)
  have ok: "sub_build ?A u f = None" "sub_start ?A u f = None"
      "sub_assemble ?A u = sub_assemble ?A v" for u v f by (simp_all add: sample_sub_def)
  note r = host_restart_resumes[OF repo parser client i_def run sample_sub_new[of "''k''", folded c_def] calls reported
    parse fst_pairI[OF store, folded d_def] fst_pairI[OF upd, folded d'_def] k_codec_storable on x y t]
  have id: "i = SubAgent (SubAgentID ''a'')" unfolding i_def by code_simp
  note stored = conjunct1[OF r] conjunct1[OF conjunct2[OF r]]
  from r obtain f where f: "sub_assemble ?A t (sub_identity ?A) (rc_config sample_rc) = Inr f" "fst ?run = Some f"
    unfolding ok(3)[of "sub_report_state ?A Applying (orc_hash c) sample_sub_state" t] by (elim conjE exE)
  with r ok have "fst (init_supervisor ?A t) = fst ?run" by simp
  with stored show ?thesis unfolding Let_def id t_def by (simp only: simp_thms)
qed

end
