(* ===== verification/Backoff.thy ===== *)
theory Backoff
  imports Complex_Main Health "HOL-Library.Word"
begin

text \<open>
  Retries and the delays between them: the restart policy of supervised executables
  (\<open>sub_agent/on_host/command/restart_policy.rs\<close>), retries with exponential backoff
  (\<open>utils/retry.rs\<close>) and the gate that suppresses attempts after failures (\<open>utils/backoff_gate.rs\<close>).

  Durations and instants are natural numbers of nanoseconds; a duration is at most \<open>duration_max\<close>, and
  multiplying one beyond that panics, which is the value \<open>None\<close>. Counters have the width of the source
  (\<open>usize\<close> is 64 bits wide) and wrap around as in a release build.
\<close>

section \<open>Durations\<close>

type_synonym duration = nat

type_synonym instant = nat

definition duration_max :: duration where
  "duration_max = (2 ^ 64 - 1) * 10 ^ 9 + 999999999"

definition from_secs :: "nat \<Rightarrow> duration" where
  "from_secs n = n * 10 ^ 9"

definition duration_checked_mul :: "duration \<Rightarrow> 32 word \<Rightarrow> duration option" where
  "duration_checked_mul d n = (if d * unat n \<le> duration_max then Some (d * unat n) else None)"

section \<open>Restart policies\<close>

record backoff =
  bo_last_retry :: instant
  bo_tries :: "64 word"
  bo_initial_delay :: duration
  bo_max_retries :: "64 word"
  bo_last_retry_interval :: duration

datatype backoff_strategy =
    FixedBackoff backoff
  | LinearBackoff backoff
  | ExponentialBackoff backoff

record restart_policy =
  rp_backoff :: backoff_strategy

definition LAST_RETRY_INTERVAL :: duration where
  "LAST_RETRY_INTERVAL = from_secs 30"

definition backoff_default :: "instant \<Rightarrow> backoff" where
  "backoff_default now =
     \<lparr>bo_last_retry = now, bo_tries = 0, bo_initial_delay = from_secs 1, bo_max_retries = 0,
      bo_last_retry_interval = LAST_RETRY_INTERVAL\<rparr>"

definition restart_policy_default :: "instant \<Rightarrow> restart_policy" where
  "restart_policy_default now = \<lparr>rp_backoff = FixedBackoff (backoff_default now)\<rparr>"

fun strategy_backoff :: "backoff_strategy \<Rightarrow> backoff" where
  "strategy_backoff (FixedBackoff b) = b"
| "strategy_backoff (LinearBackoff b) = b"
| "strategy_backoff (ExponentialBackoff b) = b"

fun with_backoff :: "backoff_strategy \<Rightarrow> backoff \<Rightarrow> backoff_strategy" where
  "with_backoff (FixedBackoff _) b = FixedBackoff b"
| "with_backoff (LinearBackoff _) b = LinearBackoff b"
| "with_backoff (ExponentialBackoff _) b = ExponentialBackoff b"

definition max_retries :: "backoff_strategy \<Rightarrow> 64 word" where
  "max_retries st = bo_max_retries (strategy_backoff st)"

definition should_backoff :: "instant \<Rightarrow> backoff \<Rightarrow> bool \<times> backoff" where
  "should_backoff now b =
     (let b = (if now - bo_last_retry b > bo_last_retry_interval b then b\<lparr>bo_tries := 0\<rparr> else b)
      in (bo_max_retries b = 0 \<or> bo_tries b < bo_max_retries b, b))"

definition should_retry :: "instant \<Rightarrow> restart_policy \<Rightarrow> bool \<times> restart_policy" where
  "should_retry now p =
     (case should_backoff now (strategy_backoff (rp_backoff p)) of
        (r, b) \<Rightarrow> (r, p\<lparr>rp_backoff := with_backoff (rp_backoff p) b\<rparr>))"

text \<open>The delays. Multiplying for \<open>linear\<close> is done on 32-bit floating-point numbers: a non-negative number is
  rounded to 24 significant bits, to the even neighbour in case of a tie. No number is below the normal
  range, and one above it is above the range of a duration as well.\<close>

fun floor_log2 :: "nat \<Rightarrow> nat" where
  "floor_log2 n = (if n \<le> 1 then 0 else Suc (floor_log2 (n div 2)))"

declare floor_log2.simps [simp del]

definition rat_log2 :: "rat \<Rightarrow> int" where
  "rat_log2 q =
     (case quotient_of q of
        (n, d) \<Rightarrow>
          let k = int (floor_log2 (nat n)) - int (floor_log2 (nat d))
          in if 2 powi k \<le> q then k else k - 1)"

definition round_half_even :: "rat \<Rightarrow> int" where
  "round_half_even q =
     (let f = \<lfloor>q\<rfloor>; r = q - of_int f
      in if r < 1 / 2 \<or> r = 1 / 2 \<and> even f then f else f + 1)"

definition f32_round :: "rat \<Rightarrow> rat" where
  "f32_round q =
     (if q \<le> 0 then 0
      else let ulp = 2 powi (rat_log2 q - 23) in of_int (round_half_even (q / ulp)) * ulp)"

definition as_secs_f32 :: "duration \<Rightarrow> rat" where
  "as_secs_f32 d =
     f32_round (f32_round (of_nat (d div 10 ^ 9)) + f32_round (f32_round (of_nat (d mod 10 ^ 9)) / 10 ^ 9))"

definition from_secs_f32 :: "rat \<Rightarrow> duration option" where
  "from_secs_f32 q = (if q < 2 ^ 64 then Some (nat (round_half_even (q * 10 ^ 9))) else None)"

definition fixed_delay :: "64 word \<Rightarrow> duration \<Rightarrow> duration option" where
  "fixed_delay _ initial_delay = Some initial_delay"

definition linear_delay :: "64 word \<Rightarrow> duration \<Rightarrow> duration option" where
  "linear_delay tries initial_delay =
     from_secs_f32 (f32_round (f32_round (of_nat (unat tries)) * as_secs_f32 initial_delay))"

definition exponential_delay :: "64 word \<Rightarrow> duration \<Rightarrow> duration option" where
  "exponential_delay tries initial_delay =
     duration_checked_mul initial_delay ((2 :: 32 word) ^ unat (max (ucast tries :: 32 word) 1 - 1))"

fun strategy_delay :: "backoff_strategy \<Rightarrow> duration option" where
  "strategy_delay (FixedBackoff b) = fixed_delay (bo_tries b) (bo_initial_delay b)"
| "strategy_delay (LinearBackoff b) = linear_delay (bo_tries b) (bo_initial_delay b)"
| "strategy_delay (ExponentialBackoff b) = exponential_delay (bo_tries b) (bo_initial_delay b)"

text \<open>After the delay: the clock is read when the sleep is over.\<close>

definition after_backoff :: "instant \<Rightarrow> restart_policy \<Rightarrow> restart_policy" where
  "after_backoff now p =
     (let b = strategy_backoff (rp_backoff p)
      in p\<lparr>rp_backoff := with_backoff (rp_backoff p) (b\<lparr>bo_last_retry := now, bo_tries := bo_tries b + 1\<rparr>)\<rparr>)"

datatype backoff_strategy_type = BackoffFixed | BackoffLinear | BackoffExponential

definition backoff_strategy_type_from_str :: "string \<Rightarrow> string + backoff_strategy_type" where
  "backoff_strategy_type_from_str s =
     (if s = ''fixed'' then Inr BackoffFixed
      else if s = ''linear'' then Inr BackoffLinear
      else if s = ''exponential'' then Inr BackoffExponential
      else Inl s)"

record backoff_strategy_config =
  bsc_backoff_type :: backoff_strategy_type
  bsc_backoff_delay :: duration
  bsc_max_retries :: "64 word"
  bsc_last_retry_interval :: duration

definition realize_backoff_config :: "instant \<Rightarrow> backoff_strategy_config \<Rightarrow> backoff" where
  "realize_backoff_config now i =
     (backoff_default now)\<lparr>bo_initial_delay := bsc_backoff_delay i, bo_max_retries := bsc_max_retries i,
       bo_last_retry_interval := bsc_last_retry_interval i\<rparr>"

definition backoff_strategy_from :: "instant \<Rightarrow> backoff_strategy_config \<Rightarrow> backoff_strategy" where
  "backoff_strategy_from now c =
     (case bsc_backoff_type c of
        BackoffFixed \<Rightarrow> FixedBackoff (realize_backoff_config now c)
      | BackoffLinear \<Rightarrow> LinearBackoff (realize_backoff_config now c)
      | BackoffExponential \<Rightarrow> ExponentialBackoff (realize_backoff_config now c))"

definition restart_policy_from :: "instant \<Rightarrow> backoff_strategy_config \<Rightarrow> restart_policy" where
  "restart_policy_from now c = \<lparr>rp_backoff = backoff_strategy_from now c\<rparr>"

section \<open>Retries\<close>

text \<open>The operation and the sleep act on a state \<open>'w\<close>. The second argument of the loops is the last error.\<close>

fun retry_times ::
  "('w \<Rightarrow> ('e + 'a) \<times> 'w) \<Rightarrow> ('w \<Rightarrow> 'w) \<Rightarrow> nat \<Rightarrow> 'e option \<Rightarrow> 'w \<Rightarrow> ('e + 'a) option \<times> 'w" where
  "retry_times f pause 0 err w = (map_option Inl err, w)"
| "retry_times f pause (Suc n) err w =
     (case f w of
        (Inr x, w) \<Rightarrow> (Some (Inr x), w)
      | (Inl e, w) \<Rightarrow> retry_times f pause n (Some e) (pause w))"

definition retry ::
  "nat \<Rightarrow> ('w \<Rightarrow> ('e + 'a) \<times> 'w) \<Rightarrow> ('w \<Rightarrow> 'w) \<Rightarrow> 'w \<Rightarrow> ('e + 'a) option \<times> 'w" where
  "retry max_attempts f pause w = retry_times f pause (if max_attempts = 0 then 1 else max_attempts) None w"

record backoff_policy =
  bp_max_attempts :: "64 word"
  bp_base_delay :: duration
  bp_max_delay :: duration
  bp_jitter :: bool

definition u32_checked_pow :: "32 word \<Rightarrow> 32 word \<Rightarrow> 32 word option" where
  "u32_checked_pow b e = (if unat b ^ unat e < 2 ^ 32 then Some (b ^ unat e) else None)"

definition u32_max :: "32 word" where
  "u32_max = 4294967295"

definition delay_for_attempt :: "backoff_policy \<Rightarrow> 32 word \<Rightarrow> duration" where
  "delay_for_attempt p attempt =
     (if attempt = 0 then 0
      else
        (let multiplier = (case u32_checked_pow 2 (attempt - 1) of Some m \<Rightarrow> m | None \<Rightarrow> u32_max);
             candidate = (case duration_checked_mul (bp_base_delay p) multiplier of
                            Some d \<Rightarrow> d | None \<Rightarrow> bp_max_delay p)
         in min candidate (bp_max_delay p)))"

text \<open>The remainder is taken on 64-bit integers; the increment wraps, and a remainder by zero panics.\<close>

definition full_jitter :: "sys_time \<Rightarrow> duration \<Rightarrow> duration option" where
  "full_jitter now d =
     (let cap_nanos = (word_of_nat d :: 64 word);
          now_nanos = (if now < 0 then 0 else word_of_int now :: 64 word)
      in if cap_nanos = 0 then Some 0
         else if cap_nanos + 1 = 0 then None
         else Some (unat (now_nanos mod (cap_nanos + 1))))"

definition delay_with_jitter :: "sys_time \<Rightarrow> backoff_policy \<Rightarrow> 32 word \<Rightarrow> duration option" where
  "delay_with_jitter now p attempt =
     (let delay = delay_for_attempt p attempt
      in if bp_jitter p then full_jitter now delay else Some delay)"

text \<open>The attempts are numbered from 1; the first argument of the loop counts those that are left. A panic while
  a delay is computed ends the loop without a result.\<close>

fun retry_with_backoff_loop ::
  "backoff_policy \<Rightarrow> ('w \<Rightarrow> sys_time) \<Rightarrow> (duration \<Rightarrow> 'w \<Rightarrow> 'w) \<Rightarrow> ('w \<Rightarrow> ('e + 'a) \<times> 'w)
   \<Rightarrow> nat \<Rightarrow> nat \<Rightarrow> 'e option \<Rightarrow> 'w \<Rightarrow> ('e + 'a) option \<times> 'w" where
  "retry_with_backoff_loop p wall pause f 0 attempt err w = (map_option Inl err, w)"
| "retry_with_backoff_loop p wall pause f (Suc n) attempt err w =
     (case f w of
        (Inr x, w) \<Rightarrow> (Some (Inr x), w)
      | (Inl e, w) \<Rightarrow>
          if attempt < unat (bp_max_attempts p)
          then (case delay_with_jitter (wall w) p (word_of_nat attempt) of
                  None \<Rightarrow> (None, w)
                | Some d \<Rightarrow> retry_with_backoff_loop p wall pause f n (attempt + 1) (Some e) (pause d w))
          else retry_with_backoff_loop p wall pause f n (attempt + 1) (Some e) w)"

definition retry_with_backoff ::
  "backoff_policy \<Rightarrow> ('w \<Rightarrow> sys_time) \<Rightarrow> (duration \<Rightarrow> 'w \<Rightarrow> 'w) \<Rightarrow> ('w \<Rightarrow> ('e + 'a) \<times> 'w)
   \<Rightarrow> 'w \<Rightarrow> ('e + 'a) option \<times> 'w" where
  "retry_with_backoff p wall pause f w =
     retry_with_backoff_loop p wall pause f (unat (bp_max_attempts p)) 1 None w"

section \<open>The gate\<close>

datatype suppression_reason =
    InCooldown "32 word"
  | CapReached "32 word"

record 'k gate_state =
  gs_key :: "'k option"
  gs_consecutive_failures :: "32 word"
  gs_next_attempt_at :: "instant option"

definition gate_default :: "'k gate_state" where
  "gate_default = \<lparr>gs_key = None, gs_consecutive_failures = 0, gs_next_attempt_at = None\<rparr>"

definition reset_if_key_changed :: "'k \<Rightarrow> 'k gate_state \<Rightarrow> 'k gate_state" where
  "reset_if_key_changed key st =
     (if gs_key st \<noteq> Some key
      then \<lparr>gs_key = Some key, gs_consecutive_failures = 0, gs_next_attempt_at = None\<rparr>
      else st)"

text \<open>The clock is read once for each of the two guards.\<close>

definition gate_check ::
  "backoff_policy \<Rightarrow> instant \<Rightarrow> instant \<Rightarrow> 'k \<Rightarrow> 'k gate_state
   \<Rightarrow> suppression_reason option \<times> 'k gate_state" where
  "gate_check p now now' key st =
     (let st = reset_if_key_changed key st in
      (case gs_next_attempt_at st of
         None \<Rightarrow> None
       | Some t \<Rightarrow>
           if now < t \<and> bp_max_attempts p \<le> ucast (gs_consecutive_failures st)
           then Some (CapReached (gs_consecutive_failures st))
           else if now' < t then Some (InCooldown (gs_consecutive_failures st))
           else None, st))"

definition u32_saturating_add :: "32 word \<Rightarrow> 32 word \<Rightarrow> 32 word" where
  "u32_saturating_add a b = (if unat a + unat b < 2 ^ 32 then a + b else u32_max)"

definition record_failure ::
  "backoff_policy \<Rightarrow> sys_time \<Rightarrow> instant \<Rightarrow> 'k \<Rightarrow> 'k gate_state \<Rightarrow> 'k gate_state option" where
  "record_failure p jitter_now now key st =
     (let st = reset_if_key_changed key st;
          failures = u32_saturating_add (gs_consecutive_failures st) 1
      in map_option (\<lambda>delay. st\<lparr>gs_consecutive_failures := failures, gs_next_attempt_at := Some (now + delay)\<rparr>)
           (delay_with_jitter jitter_now p failures))"

text \<open>Running an operation through the gate: what it returns, or why it was not run. \<open>clock\<close> reads the monotonic
  clock and \<open>wall\<close> the system clock; both depend on the state.\<close>

definition guarded ::
  "backoff_policy \<Rightarrow> ('w \<Rightarrow> instant) \<Rightarrow> ('w \<Rightarrow> sys_time) \<Rightarrow> 'k \<Rightarrow> ('w \<Rightarrow> ('e + 'a) \<times> 'w)
   \<Rightarrow> 'k gate_state \<Rightarrow> 'w \<Rightarrow> ((suppression_reason + 'e + 'a) \<times> 'k gate_state \<times> 'w) option" where
  "guarded p clock wall key op st w =
     (case gate_check p (clock w) (clock w) key st of
        (Some suppression, st) \<Rightarrow> Some (Inl suppression, st, w)
      | (None, st) \<Rightarrow>
          (case op w of
             (Inr x, w) \<Rightarrow> Some (Inr (Inr x), gate_default, w)
           | (Inl e, w) \<Rightarrow>
               map_option (\<lambda>st. (Inr (Inl e), st, w)) (record_failure p (wall w) (clock w) key st)))"

section \<open>Delays in closed form\<close>

lemma unat_u32_power2: "unat ((2 :: 32 word) ^ n) = 2 ^ n mod 2 ^ 32"
proof -
  have "(2 :: 32 word) ^ n = of_nat (2 ^ n)" by simp
  then show ?thesis by (simp only: unat_of_nat) simp
qed

lemma u32_pow_two:
  "(case u32_checked_pow 2 e of Some m \<Rightarrow> unat m | None \<Rightarrow> unat u32_max) = min (2 ^ unat e) (2 ^ 32 - 1)"
proof (cases "unat e < 32")
  case True
  then have "(2 :: nat) ^ unat e \<le> 2 ^ 31" by (intro power_increasing) simp_all
  moreover from calculation have "unat ((2 :: 32 word) ^ unat e) = 2 ^ unat e" by (simp add: unat_u32_power2)
  ultimately show ?thesis by (simp add: u32_checked_pow_def)
next
  case False
  then have "(2 :: nat) ^ 32 \<le> 2 ^ unat e" by (intro power_increasing) simp_all
  then show ?thesis by (simp add: u32_checked_pow_def u32_max_def)
qed

lemma delay_for_attempt_eq:
  assumes "bp_max_delay p \<le> duration_max" and "attempt \<noteq> 0"
  shows "delay_for_attempt p attempt =
    min (bp_base_delay p * min (2 ^ (unat attempt - 1)) (2 ^ 32 - 1)) (bp_max_delay p)"
proof -
  define m where "m = (case u32_checked_pow 2 (attempt - 1) of Some m \<Rightarrow> m | None \<Rightarrow> u32_max)"
  have "unat (attempt - 1) = unat attempt - 1" using assms(2) by (simp add: unat_minus_one)
  with u32_pow_two[of "attempt - 1"] have m: "unat m = min (2 ^ (unat attempt - 1)) (2 ^ 32 - 1)"
    by (simp add: m_def split: option.splits)
  have "delay_for_attempt p attempt = min (bp_base_delay p * unat m) (bp_max_delay p)"
    using assms by (auto simp: delay_for_attempt_def duration_checked_mul_def Let_def m_def[symmetric])
  then show ?thesis unfolding m .
qed

lemma full_jitter_bound:
  assumes "d < 2 ^ 64 - 1"
  shows "\<exists>j \<le> d. full_jitter now d = Some j"
proof -
  let ?cap = "word_of_nat d :: 64 word"
  have cap: "unat ?cap = d" using assms by (simp add: unat_of_nat)
  have suc: "unat (?cap + 1) = d + 1" using assms cap by (simp add: unat_word_ariths)
  then have "?cap + 1 \<noteq> 0" by (metis Suc_eq_plus1 nat.distinct(1) unat_0)
  moreover have "unat (n mod (?cap + 1)) \<le> d" for n :: "64 word"
    using suc by (simp add: unat_mod)
  ultimately show ?thesis by (auto simp: full_jitter_def Let_def)
qed

text \<open>C33. The delay of an exponential restart policy, in a build without overflow checks: it doubles from one retry to the
  next up to 32 retries, panicking when it is no duration any more, and from then on it is zero.\<close>

theorem exponential_delay_eq:
  assumes "unat tries < 2 ^ 32"
  shows "exponential_delay tries d =
    (if unat tries \<le> 32
     then let delay = d * 2 ^ (unat tries - 1) in if delay \<le> duration_max then Some delay else None
     else Some 0)"
proof -
  let ?t = "ucast tries :: 32 word"
  have t: "unat ?t = unat tries" using assms by (simp add: unsigned_ucast_eq take_bit_nat_eq_self)
  have e: "unat (max ?t 1 - 1) = unat tries - 1"
  proof (cases "tries = 0")
    case False
    then have "?t \<noteq> 0" using t by (metis unat_0_iff)
    then have "1 \<le> ?t" by (simp add: word_le_nat_alt Suc_le_eq unat_gt_0)
    then have "max ?t 1 = ?t" by (rule max_absorb1)
    with \<open>?t \<noteq> 0\<close> t show ?thesis by (simp add: unat_minus_one)
  qed simp
  show ?thesis
  proof (cases "unat tries \<le> 32")
    case True
    then have "(2 :: nat) ^ (unat tries - 1) \<le> 2 ^ 31" by (intro power_increasing) simp_all
    then have "unat ((2 :: 32 word) ^ (unat tries - 1)) = 2 ^ (unat tries - 1)" by (simp add: unat_u32_power2)
    with True e show ?thesis by (simp add: exponential_delay_def duration_checked_mul_def Let_def)
  next
    case False
    then have "(2 :: nat) ^ 32 dvd 2 ^ (unat tries - 1)" by (intro le_imp_power_dvd) simp
    then have "unat ((2 :: 32 word) ^ (unat tries - 1)) = 0" by (simp add: unat_u32_power2 mod_eq_0_iff_dvd)
    with False e show ?thesis by (simp add: exponential_delay_def duration_checked_mul_def)
  qed
qed

theorem exponential_delay_eq_witness:
  "exponential_delay 10 (from_secs 2) = Some (from_secs 1024) \<and> exponential_delay 33 (from_secs 2) = Some 0"
  using exponential_delay_eq[of 10 "from_secs 2"] exponential_delay_eq[of 33 "from_secs 2"]
  by (simp add: from_secs_def duration_max_def)

text \<open>Whole numbers below \<open>2 ^ 24\<close> are not rounded.\<close>

lemma floor_log2_bound: "n < 2 ^ Suc k \<Longrightarrow> floor_log2 n \<le> k"
proof (induction k arbitrary: n)
  case 0
  then show ?case by (subst floor_log2.simps) simp
next
  case (Suc k)
  then have "n div 2 < 2 ^ Suc k" by simp
  with Suc.IH[of "n div 2"] show ?case by (subst floor_log2.simps) simp
qed

lemma round_half_even_of_int [simp]: "round_half_even (of_int k) = k"
  by (simp add: round_half_even_def)

lemma f32_round_of_nat:
  assumes "n < 2 ^ 24"
  shows "f32_round (of_nat n) = of_nat n"
proof (cases "n = 0")
  case False
  let ?e = "rat_log2 (of_nat n) - 23"
  have q: "quotient_of (of_nat n) = (int n, 1)"
    using quotient_of_int[of "int n"] by simp
  have "floor_log2 n \<le> 23" using assms by (intro floor_log2_bound) simp
  moreover have "floor_log2 1 = 0" by (simp add: floor_log2.simps)
  ultimately have "?e \<le> 0" using q by (simp add: rat_log2_def Let_def)
  then obtain k where e: "?e = - int k" by (metis neg_equal_iff_equal minus_minus nonneg_eq_int neg_0_le_iff_le)
  have "of_nat n / (2 :: rat) powi ?e = of_int (int (n * 2 ^ k))" by (simp add: e power_int_minus divide_inverse)
  then have "of_int (round_half_even (of_nat n / 2 powi ?e)) = (of_nat n :: rat) / 2 powi ?e"
    by (simp only: round_half_even_of_int)
  with False show ?thesis by (simp add: f32_round_def Let_def)
qed (simp add: f32_round_def)

lemma from_secs_f32_of_nat:
  assumes "m < 2 ^ 64"
  shows "from_secs_f32 (of_nat m) = Some (from_secs m)"
proof -
  have "(of_nat m :: rat) < of_nat (2 ^ 64)" using assms by (subst of_nat_less_iff)
  moreover have "of_nat m * 10 ^ 9 = (of_int (int (m * 10 ^ 9)) :: rat)" by simp
  then have "round_half_even (of_nat m * 10 ^ 9) = int (m * 10 ^ 9)" by (simp only: round_half_even_of_int)
  ultimately show ?thesis by (simp add: from_secs_f32_def from_secs_def)
qed

lemma linear_delay_whole_seconds:
  assumes "unat tries * n < 2 ^ 24" and "tries \<noteq> 0"
  shows "linear_delay tries (from_secs n) = Some (from_secs (unat tries * n))"
proof -
  have t: "1 \<le> unat tries" using assms(2) by (simp add: Suc_le_eq unat_gt_0)
  then have n: "n < 2 ^ 24" using assms(1) by (metis le_less_trans mult_le_mono1 mult_1)
  have d: "as_secs_f32 (from_secs n) = of_nat n"
    using n by (simp add: as_secs_f32_def from_secs_def f32_round_of_nat f32_round_of_nat[of 0, simplified])
  show ?thesis
  proof (cases "n = 0")
    case True
    then show ?thesis using d by (simp add: linear_delay_def from_secs_f32_def from_secs_def f32_round_def round_half_even_def)
  next
    case False
    then have "unat tries < 2 ^ 24" using assms(1) by (metis One_nat_def Suc_leI le_less_trans mult.right_neutral mult_le_mono2 neq0_conv)
    then have r: "f32_round (f32_round (of_nat (unat tries)) * as_secs_f32 (from_secs n)) = of_nat (unat tries * n)"
      using f32_round_of_nat[OF assms(1)] by (simp only: f32_round_of_nat d of_nat_mult)
    show ?thesis unfolding linear_delay_def r using assms(1) by (intro from_secs_f32_of_nat) simp
  qed
qed

section \<open>The schedule of the gate\<close>

text \<open>Failures recorded one after the other, each with the times the two clocks showed.\<close>

fun gate_failures ::
  "backoff_policy \<Rightarrow> 'k \<Rightarrow> (sys_time \<times> instant) list \<Rightarrow> 'k gate_state \<Rightarrow> 'k gate_state option" where
  "gate_failures p key [] st = Some st"
| "gate_failures p key ((wall, now) # ts) st = Option.bind (record_failure p wall now key st) (gate_failures p key ts)"

definition gate_delay :: "backoff_policy \<Rightarrow> nat \<Rightarrow> duration" where
  "gate_delay p n = min (bp_base_delay p * min (2 ^ (n - 1)) (2 ^ 32 - 1)) (bp_max_delay p)"

lemma unat_u32_saturating_add: "unat (u32_saturating_add w 1) = min (unat w + 1) (2 ^ 32 - 1)"
proof (cases "unat w + 1 < 2 ^ 32")
  case True
  then show ?thesis by (simp add: u32_saturating_add_def unat_word_ariths)
next
  case False
  then show ?thesis by (simp add: u32_saturating_add_def u32_max_def)
qed

lemma record_failure_result:
  fixes key :: 'k and st :: "'k gate_state"
  assumes "bp_max_delay p < 2 ^ 64 - 1"
  defines "n \<equiv> min (unat (gs_consecutive_failures (reset_if_key_changed key st)) + 1) (2 ^ 32 - 1)"
  obtains st' t where "record_failure p wall now key st = Some st'"
    and "gs_key st' = Some key" and "unat (gs_consecutive_failures st') = n"
    and "gs_next_attempt_at st' = Some t" and "now \<le> t" and "t \<le> now + gate_delay p n"
    and "\<not> bp_jitter p \<longrightarrow> t = now + gate_delay p n"
proof -
  let ?f = "u32_saturating_add (gs_consecutive_failures (reset_if_key_changed key st)) 1"
  have n: "unat ?f = n" unfolding n_def by (rule unat_u32_saturating_add)
  then have "?f \<noteq> 0" by (auto simp: n_def)
  then have delay: "delay_for_attempt p ?f = gate_delay p n"
    using assms(1) n by (subst delay_for_attempt_eq) (simp_all add: gate_delay_def duration_max_def)
  obtain d where d: "delay_with_jitter wall p ?f = Some d" "d \<le> gate_delay p n"
      "\<not> bp_jitter p \<Longrightarrow> d = gate_delay p n"
  proof (cases "bp_jitter p")
    case True
    have "gate_delay p n < 2 ^ 64 - 1" using assms(1) by (simp add: gate_delay_def)
    from full_jitter_bound[OF this, of wall] True delay that show ?thesis
      by (auto simp: delay_with_jitter_def Let_def)
  next
    case False
    with delay that show ?thesis by (simp add: delay_with_jitter_def)
  qed
  have key: "gs_key (reset_if_key_changed key st) = Some key" by (simp add: reset_if_key_changed_def)
  show thesis
    by (rule that[of "(reset_if_key_changed key st)\<lparr>gs_consecutive_failures := ?f, gs_next_attempt_at := Some (now + d)\<rparr>"
          "now + d"])
      (use d n key in \<open>simp_all add: record_failure_def Let_def\<close>)
qed

lemma gate_failures_result:
  assumes "bp_max_delay p < 2 ^ 64 - 1" and "ts \<noteq> []"
    and "n = min (unat (gs_consecutive_failures (reset_if_key_changed key st)) + length ts) (2 ^ 32 - 1)"
  shows "\<exists>st' t. gate_failures p key ts st = Some st' \<and> gs_key st' = Some key \<and>
    unat (gs_consecutive_failures st') = n \<and> gs_next_attempt_at st' = Some t \<and>
    snd (last ts) \<le> t \<and> t \<le> snd (last ts) + gate_delay p n \<and>
    (\<not> bp_jitter p \<longrightarrow> t = snd (last ts) + gate_delay p n)"
  using assms(2,3)
proof (induction ts arbitrary: st)
  case (Cons x ts)
  obtain wall now where x: "x = (wall, now)" by (cases x)
  let ?k = "unat (gs_consecutive_failures (reset_if_key_changed key st))"
  obtain st1 t where st1: "record_failure p wall now key st = Some st1" "gs_key st1 = Some key"
      "unat (gs_consecutive_failures st1) = min (?k + 1) (2 ^ 32 - 1)" "gs_next_attempt_at st1 = Some t"
      "now \<le> t" "t \<le> now + gate_delay p (min (?k + 1) (2 ^ 32 - 1))"
      "\<not> bp_jitter p \<longrightarrow> t = now + gate_delay p (min (?k + 1) (2 ^ 32 - 1))"
    by (rule record_failure_result[OF assms(1), where key = key and st = st and wall = wall and now = now])
      (rule that; assumption)
  show ?case
  proof (cases "ts = []")
    case True
    then show ?thesis using Cons.prems x st1 by simp
  next
    case False
    have "reset_if_key_changed key st1 = st1" using st1(2) by (simp add: reset_if_key_changed_def)
    then have "n = min (unat (gs_consecutive_failures (reset_if_key_changed key st1)) + length ts) (2 ^ 32 - 1)"
      using Cons.prems(2) st1(3) by simp
    from Cons.IH[OF False this] show ?thesis using x st1(1) False by simp
  qed
qed simp

text \<open>C32. The gate follows an exponential schedule: after \<open>n\<close> failures in a row for one key, with up to \<open>2 ^ 32 - 1\<close>
  counted, attempts for that key are suppressed until an instant at most \<open>min (base * 2 ^ (n - 1)) max\<close>
  after the last failure, exactly that without jitter, and allowed from then on. The reason says
  whether the maximal number of attempts has been reached. Any other key is allowed at once. No arithmetic
  overflows, provided that the maximal delay is below \<open>2 ^ 64 - 1\<close> nanoseconds.\<close>

theorem gate_schedule:
  assumes "bp_max_delay p < 2 ^ 64 - 1" and "ts \<noteq> []" and "gs_key st \<noteq> Some key"
    and "n = min (length ts) (2 ^ 32 - 1)"
  shows "\<exists>st' t. gate_failures p key ts st = Some st' \<and> snd (last ts) \<le> t \<and>
    t \<le> snd (last ts) + min (bp_base_delay p * min (2 ^ (n - 1)) (2 ^ 32 - 1)) (bp_max_delay p) \<and>
    (\<not> bp_jitter p \<longrightarrow>
       t = snd (last ts) + min (bp_base_delay p * min (2 ^ (n - 1)) (2 ^ 32 - 1)) (bp_max_delay p)) \<and>
    (\<forall>now. fst (gate_check p now now key st') =
       (if t \<le> now then None
        else Some (if unat (bp_max_attempts p) \<le> n then CapReached (word_of_nat n) else InCooldown (word_of_nat n)))) \<and>
    (\<forall>now key'. key' \<noteq> key \<longrightarrow> fst (gate_check p now now key' st') = None)"
proof -
  have "gs_consecutive_failures (reset_if_key_changed key st) = 0" using assms(3) by (simp add: reset_if_key_changed_def)
  then obtain st' t where st': "gate_failures p key ts st = Some st'" "gs_key st' = Some key"
      "unat (gs_consecutive_failures st') = n" "gs_next_attempt_at st' = Some t"
      "snd (last ts) \<le> t" "t \<le> snd (last ts) + gate_delay p n"
      "\<not> bp_jitter p \<longrightarrow> t = snd (last ts) + gate_delay p n"
    using gate_failures_result[OF assms(1,2), of n key st] assms(4) by auto
  have n: "gs_consecutive_failures st' = word_of_nat n" unfolding st'(3)[symmetric] by simp
  have "unat (ucast (gs_consecutive_failures st') :: 64 word) = n"
    using st'(3) assms(4) by (simp add: unsigned_ucast_eq take_bit_nat_eq_self)
  then have cap: "bp_max_attempts p \<le> ucast (gs_consecutive_failures st') \<longleftrightarrow> unat (bp_max_attempts p) \<le> n"
    by (simp add: word_le_nat_alt)
  have "fst (gate_check p now now key st') = (if t \<le> now then None
      else Some (if unat (bp_max_attempts p) \<le> n then CapReached (word_of_nat n) else InCooldown (word_of_nat n)))" for now
    using st'(2,4) n cap by (auto simp: gate_check_def reset_if_key_changed_def Let_def)
  moreover have "fst (gate_check p now now key' st') = None" if "key' \<noteq> key" for now key'
    using st'(2) that by (simp add: gate_check_def reset_if_key_changed_def Let_def)
  ultimately show ?thesis using st'(1,5-7) unfolding gate_delay_def by blast
qed

theorem gate_schedule_witness:
  "let p = \<lparr>bp_max_attempts = 2, bp_base_delay = from_secs 5, bp_max_delay = from_secs 60, bp_jitter = False\<rparr>;
       st = gate_failures p True [(0, from_secs 1), (0, from_secs 10), (0, from_secs 30)] gate_default
   in \<exists>st'. st = Some st' \<and> fst (gate_check p (from_secs 49) (from_secs 49) True st') = Some (CapReached 3) \<and>
        fst (gate_check p (from_secs 50) (from_secs 50) True st') = None"
proof -
  let ?p = "\<lparr>bp_max_attempts = 2, bp_base_delay = from_secs 5, bp_max_delay = from_secs 60, bp_jitter = False\<rparr>"
  let ?ts = "[(0, from_secs 1), (0, from_secs 10), (0, from_secs 30)]"
  have "\<exists>st' t. gate_failures ?p True ?ts gate_default = Some st' \<and> t = from_secs 30 + from_secs 20 \<and>
      (\<forall>now. fst (gate_check ?p now now True st') = (if t \<le> now then None else Some (CapReached 3)))"
    using gate_schedule[of ?p ?ts gate_default True 3] by (auto simp: gate_default_def from_secs_def)
  then show ?thesis by (auto simp: Let_def from_secs_def)
qed

end
