(* ===== verification/On_Host_Process.thy ===== *)
theory On_Host_Process
  imports Backoff
begin

text \<open>
  The thread that runs one executable of a host sub-agent: starting it, waiting until it ends or the
  supervisor is stopped, shutting it down, restarting it as its restart policy says, and the health it
  reports (\<open>start_process_thread\<close>, \<open>wait_exit\<close>, \<open>wait_restart\<close>, \<open>handle_exit\<close> and \<open>HealthHandler\<close> of
  \<open>sub_agent/on_host/supervisor.rs\<close>, \<open>sub_agent/on_host/command/command_os.rs\<close>,
  \<open>sub_agent/on_host/command/executable_data.rs\<close>, \<open>event/cancellation.rs\<close>).

  The operating system and the channel that carries the cancellation are the record \<open>proc_env\<close>: what each
  call answers depends on a state \<open>'w\<close> of the world, which the call changes. The thread logs what it does.
  Its loops may run forever, for as long as the executable does; they are partial functions and not
  returning is \<open>None\<close>.
\<close>

section \<open>The environment\<close>

record exit_status =
  es_code :: "int option"
  es_fmt :: string

definition exit_success :: "exit_status \<Rightarrow> bool" where
  "exit_success st \<longleftrightarrow> es_code st = Some 0"

text \<open>\<open>px_spawn\<close> starts the process with its loggers, \<open>px_running\<close> is whether \<open>try_wait\<close> finds it still running,
  and \<open>px_cancelled d\<close> waits for a cancellation for up to the duration \<open>d\<close>.\<close>

record 'w proc_env =
  px_time :: "'w \<Rightarrow> instant"
  px_sys_time :: "'w \<Rightarrow> sys_time"
  px_cancelled :: "duration \<Rightarrow> 'w \<Rightarrow> bool \<times> 'w"
  px_spawn :: "'w \<Rightarrow> (string + unit) \<times> 'w"
  px_running :: "'w \<Rightarrow> bool \<times> 'w"
  px_terminate :: "'w \<Rightarrow> (string + unit) \<times> 'w"
  px_kill :: "'w \<Rightarrow> (string + unit) \<times> 'w"
  px_sleep :: "duration \<Rightarrow> 'w \<Rightarrow> 'w"
  px_wait :: "'w \<Rightarrow> (string + exit_status) \<times> 'w"

datatype proc_event =
    ProcSpawned
  | ProcSpawnFailed
  | ProcCancelSeen
  | ProcKilled
  | ProcHealth health_with_start_time

record 'w proc_state =
  ps_world :: 'w
  ps_log :: "proc_event list"

definition on_world :: "('w \<Rightarrow> 'x \<times> 'w) \<Rightarrow> 'w proc_state \<Rightarrow> 'x \<times> 'w proc_state" where
  "on_world f s = (case f (ps_world s) of (x, w) \<Rightarrow> (x, s\<lparr>ps_world := w\<rparr>))"

definition proc_log :: "proc_event \<Rightarrow> 'w proc_state \<Rightarrow> 'w proc_state" where
  "proc_log e s = s\<lparr>ps_log := ps_log s @ [e]\<rparr>"

definition is_cancelled_with_timeout :: "'w proc_env \<Rightarrow> duration \<Rightarrow> 'w proc_state \<Rightarrow> bool \<times> 'w proc_state" where
  "is_cancelled_with_timeout E d s =
     (case on_world (px_cancelled E d) s of (c, s) \<Rightarrow> (c, if c then proc_log ProcCancelSeen s else s))"

definition is_cancelled :: "'w proc_env \<Rightarrow> 'w proc_state \<Rightarrow> bool \<times> 'w proc_state" where
  "is_cancelled E = is_cancelled_with_timeout E 0"

record executable_data =
  ed_id :: string
  ed_bin :: string
  ed_args :: "string list"
  ed_env :: "(string \<times> string) list"
  ed_restart_policy :: restart_policy
  ed_shutdown_timeout :: duration

definition DEFAULT_SHUTDOWN_TIMEOUT :: duration where
  "DEFAULT_SHUTDOWN_TIMEOUT = from_secs 10"

definition executable_data_new :: "instant \<Rightarrow> string \<Rightarrow> string \<Rightarrow> executable_data" where
  "executable_data_new now i bin =
     \<lparr>ed_id = i, ed_bin = bin, ed_args = [], ed_env = [], ed_restart_policy = restart_policy_default now,
      ed_shutdown_timeout = DEFAULT_SHUTDOWN_TIMEOUT\<rparr>"

section \<open>Health\<close>

text \<open>The handler of one instance of the process carries the time it was made at.\<close>

definition publish_health :: "sys_time \<Rightarrow> health \<Rightarrow> 'w proc_state \<Rightarrow> 'w proc_state" where
  "publish_health start h = proc_log (ProcHealth \<lparr>hw_start_time = start, hw_health = h\<rparr>)"

definition publish_healthy :: "'w proc_env \<Rightarrow> sys_time \<Rightarrow> 'w proc_state \<Rightarrow> 'w proc_state" where
  "publish_healthy E start s = publish_health start (Healthy (healthy_new (px_sys_time E (ps_world s)))) s"

definition publish_unhealthy :: "'w proc_env \<Rightarrow> sys_time \<Rightarrow> string \<Rightarrow> 'w proc_state \<Rightarrow> 'w proc_state" where
  "publish_unhealthy E start err s =
     publish_health start (Unhealthy (unhealthy_new (px_sys_time E (ps_world s)) err)) s"

definition publish_unhealthy_with_status ::
  "'w proc_env \<Rightarrow> sys_time \<Rightarrow> string \<Rightarrow> string \<Rightarrow> 'w proc_state \<Rightarrow> 'w proc_state" where
  "publish_unhealthy_with_status E start err status s =
     publish_health start
       (Unhealthy ((unhealthy_new (px_sys_time E (ps_world s)) err)\<lparr>uh_status := status\<rparr>)) s"

section \<open>Shutting a process down\<close>

definition POLL_INTERVAL :: duration where
  "POLL_INTERVAL = 100 * 10 ^ 6"

partial_function (option) running_until ::
  "'w proc_env \<Rightarrow> instant \<Rightarrow> 'w proc_state \<Rightarrow> (bool \<times> 'w proc_state) option" where
  "running_until E deadline s =
     (if px_time E (ps_world s) < deadline
      then (case on_world (px_running E) s of
              (running, s) \<Rightarrow>
                if running
                then running_until E deadline (s\<lparr>ps_world := px_sleep E POLL_INTERVAL (ps_world s)\<rparr>)
                else Some (False, s))
      else Some (True, s))"

definition is_running_after_timeout ::
  "'w proc_env \<Rightarrow> duration \<Rightarrow> 'w proc_state \<Rightarrow> (bool \<times> 'w proc_state) option" where
  "is_running_after_timeout E d s = running_until E (px_time E (ps_world s) + d) s"

definition shutdown ::
  "'w proc_env \<Rightarrow> duration \<Rightarrow> 'w proc_state \<Rightarrow> ((string + unit) \<times> 'w proc_state) option" where
  "shutdown E timeout s =
     (case on_world (px_terminate E) s of
        (graceful, s) \<Rightarrow>
          Option.bind (case graceful of
                         Inl _ \<Rightarrow> Some (True, s)
                       | Inr _ \<Rightarrow> is_running_after_timeout E timeout s)
            (\<lambda>(force, s).
               if force
               then (case on_world (px_kill E) s of
                       (Inr _, s) \<Rightarrow> Some (Inr (), proc_log ProcKilled s)
                     | (Inl e, s) \<Rightarrow> Some (Inl e, s))
               else Some (Inr (), s)))"

section \<open>Waiting for a process\<close>

definition WAIT_FOR_EXIT_TIMEOUT :: duration where
  "WAIT_FOR_EXIT_TIMEOUT = from_secs 1"

definition HEALTHY_DELAY :: duration where
  "HEALTHY_DELAY = from_secs 10"

text \<open>The loop returns whether the wait was cancelled and whether the process was already reported as healthy.\<close>

partial_function (option) wait_exit_loop ::
  "'w proc_env \<Rightarrow> duration \<Rightarrow> sys_time \<Rightarrow> instant \<Rightarrow> bool \<Rightarrow> bool \<Rightarrow> 'w proc_state
   \<Rightarrow> (bool \<times> bool \<times> 'w proc_state) option" where
  "wait_exit_loop E timeout start deadline was_cancelled published s =
     (case on_world (px_running E) s of
        (running, s) \<Rightarrow>
          if \<not> running then Some (was_cancelled, published, s)
          else
            (case is_cancelled_with_timeout E WAIT_FOR_EXIT_TIMEOUT s of
               (cancelled, s) \<Rightarrow>
                 Option.bind (if cancelled then map_option snd (shutdown E timeout s) else Some s)
                   (\<lambda>s. if \<not> published \<and> px_time E (ps_world s) > deadline
                        then wait_exit_loop E timeout start deadline (was_cancelled \<or> cancelled) True
                               (publish_healthy E start s)
                        else wait_exit_loop E timeout start deadline (was_cancelled \<or> cancelled) published s)))"

definition wait_exit ::
  "'w proc_env \<Rightarrow> duration \<Rightarrow> sys_time \<Rightarrow> 'w proc_state
   \<Rightarrow> ((string + exit_status \<times> bool) \<times> 'w proc_state) option" where
  "wait_exit E timeout start s =
     Option.bind (wait_exit_loop E timeout start (px_time E (ps_world s) + HEALTHY_DELAY) False False s)
       (\<lambda>(was_cancelled, published, s).
          Some (case on_world (px_wait E) s of
                  (Inl e, s) \<Rightarrow> (Inl e, s)
                | (Inr st, s) \<Rightarrow>
                    (Inr (st, was_cancelled),
                     if \<not> published \<and> exit_success st then publish_healthy E start s else s)))"

definition handle_exit ::
  "'w proc_env \<Rightarrow> executable_data \<Rightarrow> sys_time \<Rightarrow> exit_status \<Rightarrow> 'w proc_state \<Rightarrow> 'w proc_state" where
  "handle_exit E x start st s =
     (if exit_success st then s
      else publish_unhealthy_with_status E start
             (''path '' @ sq (ed_bin x) @ '' with args '' @ sq (join '' '' (ed_args x))
                @ '' failed with '' @ sq (es_fmt st))
             (''process exited with code: '' @ show_int (case es_code st of None \<Rightarrow> 0 | Some c \<Rightarrow> c)) s)"

section \<open>Running and restarting\<close>

datatype thread_end = EndCancelled | EndPolicyExceeded | EndPanicked

text \<open>Waiting before a restart: whether it was cancelled, and \<open>None\<close> when computing the delay panics.\<close>

definition wait_restart ::
  "'w proc_env \<Rightarrow> restart_policy \<Rightarrow> 'w proc_state \<Rightarrow> (bool \<times> restart_policy) option \<times> 'w proc_state" where
  "wait_restart E p s =
     (case strategy_delay (rp_backoff p) of
        None \<Rightarrow> (None, s)
      | Some d \<Rightarrow>
          (case is_cancelled_with_timeout E d s of
             (cancelled, s) \<Rightarrow> (Some (cancelled, after_backoff (px_time E (ps_world s)) p), s)))"

text \<open>One instance of the process: whether the thread was cancelled meanwhile.\<close>

definition run_once ::
  "'w proc_env \<Rightarrow> executable_data \<Rightarrow> sys_time \<Rightarrow> 'w proc_state \<Rightarrow> (bool \<times> 'w proc_state) option" where
  "run_once E x start s =
     (case on_world (px_spawn E) s of
        (started, s) \<Rightarrow>
          Option.bind
            (case started of
               Inl e \<Rightarrow> Some (Inl e, proc_log ProcSpawnFailed s)
             | Inr _ \<Rightarrow> wait_exit E (ed_shutdown_timeout x) start (proc_log ProcSpawned s))
            (\<lambda>(r, s).
               Some (case r of
                       Inr (st, was_cancelled) \<Rightarrow> (was_cancelled, handle_exit E x start st s)
                     | Inl e \<Rightarrow> (False, publish_unhealthy E start (''Error launching process: '' @ e) s))))"

text \<open>One turn of the loop: how the thread ends, or the policy with which it goes on.\<close>

definition process_turn ::
  "'w proc_env \<Rightarrow> executable_data \<Rightarrow> restart_policy \<Rightarrow> 'w proc_state
   \<Rightarrow> ((thread_end + restart_policy) \<times> 'w proc_state) option" where
  "process_turn E x p s =
     (case is_cancelled E s of
        (cancelled, s) \<Rightarrow>
          if cancelled then Some (Inl EndCancelled, s)
          else
            Option.bind (run_once E x (px_sys_time E (ps_world s)) s)
              (\<lambda>(was_cancelled, s1).
                 if was_cancelled then Some (Inl EndCancelled, s1)
                 else
                   (case should_retry (px_time E (ps_world s1)) p of
                      (again, p) \<Rightarrow>
                        if \<not> again
                        then Some (Inl EndPolicyExceeded,
                               publish_unhealthy E (px_sys_time E (ps_world s)) ''Restart policy exceeded'' s1)
                        else
                          (case wait_restart E p s1 of
                             (None, s) \<Rightarrow> Some (Inl EndPanicked, s)
                           | (Some (cancelled, p), s) \<Rightarrow>
                               Some (if cancelled then Inl EndCancelled else Inr p, s)))))"

partial_function (option) process_loop ::
  "'w proc_env \<Rightarrow> executable_data \<Rightarrow> restart_policy \<Rightarrow> 'w proc_state
   \<Rightarrow> (thread_end \<times> 'w proc_state) option" where
  "process_loop E exec p s =
     Option.bind (process_turn E exec p s)
       (\<lambda>(r, s). case r of Inl e \<Rightarrow> Some (e, s) | Inr p \<Rightarrow> process_loop E exec p s)"

definition start_process_thread ::
  "'w proc_env \<Rightarrow> executable_data \<Rightarrow> 'w proc_state \<Rightarrow> (thread_end \<times> 'w proc_state) option" where
  "start_process_thread E x s = process_loop E x (ed_restart_policy x) s"

section \<open>Shutting down ends\<close>

lemma on_world_log [simp]:
  "ps_log (snd (on_world f s)) = ps_log s" "ps_world (snd (on_world f s)) = snd (f (ps_world s))"
  "fst (on_world f s) = fst (f (ps_world s))"
  by (simp_all add: on_world_def split: prod.splits)

lemma on_world_eq:
  "on_world f s = (x, s') \<longleftrightarrow> (\<exists>w. f (ps_world s) = (x, w) \<and> s' = s\<lparr>ps_world := w\<rparr>)"
  by (auto simp: on_world_def split: prod.splits)

text \<open>Sleeping lets at least the given time pass, and polling does not turn the clock back.\<close>

definition steady_clock :: "'w proc_env \<Rightarrow> bool" where
  "steady_clock E \<longleftrightarrow>
     (\<forall>w d. px_time E w + d \<le> px_time E (px_sleep E d w)) \<and>
     (\<forall>w. px_time E w \<le> px_time E (snd (px_running E w)))"

lemma running_until_returns:
  assumes "steady_clock E"
  shows "\<exists>running s'. running_until E deadline s = Some (running, s') \<and> ps_log s' = ps_log s \<and>
    (running \<or> (\<exists>w. px_running E w = (False, ps_world s')))"
proof (induction "deadline - px_time E (ps_world s)" arbitrary: s rule: less_induct)
  case less
  show ?case
  proof (cases "px_time E (ps_world s) < deadline")
    case True
    obtain running w where w: "px_running E (ps_world s) = (running, w)" by fastforce
    show ?thesis
    proof (cases running)
      case False
      with True w show ?thesis by (auto simp: running_until.simps[of E deadline s] on_world_def)
    next
      case running: True
      let ?s = "s\<lparr>ps_world := px_sleep E POLL_INTERVAL w\<rparr>"
      have "px_time E (ps_world s) \<le> px_time E w" using assms w unfolding steady_clock_def by (metis snd_conv)
      moreover have "px_time E w + POLL_INTERVAL \<le> px_time E (ps_world ?s)"
        using assms by (simp add: steady_clock_def)
      ultimately have "deadline - px_time E (ps_world ?s) < deadline - px_time E (ps_world s)"
        using True by (simp add: POLL_INTERVAL_def)
      from less[OF this] show ?thesis
        using True w running by (simp add: running_until.simps[of E deadline s] on_world_def)
    qed
  next
    case False
    then show ?thesis by (auto simp: running_until.simps[of E deadline s])
  qed
qed

text \<open>C11. Shutting a process down ends: for a clock that advances while the thread sleeps, \<open>shutdown\<close> returns, and
  it returns successfully only when the process was found not running any more or was killed.\<close>

theorem shutdown_returns:
  assumes "steady_clock E"
  shows "\<exists>r s'. shutdown E timeout s = Some (r, s') \<and>
    (r = Inr () \<longrightarrow> (\<exists>w. px_running E w = (False, ps_world s')) \<or> ProcKilled \<in> set (ps_log s'))"
proof -
  obtain graceful s1 where s1: "on_world (px_terminate E) s = (graceful, s1)" by fastforce
  obtain running s2 where s2: "(case graceful of Inl _ \<Rightarrow> Some (True, s1)
        | Inr _ \<Rightarrow> is_running_after_timeout E timeout s1) = Some (running, s2)"
      "running \<or> (\<exists>w. px_running E w = (False, ps_world s2))"
    using running_until_returns[OF assms, of "px_time E (ps_world s1) + timeout" s1]
    by (cases graceful) (auto simp: is_running_after_timeout_def)
  obtain k s3 where s3: "on_world (px_kill E) s2 = (k, s3)" by fastforce
  show ?thesis
    using s1 s2 s3 by (cases k) (auto simp: shutdown_def proc_log_def)
qed

section \<open>What the wait logs\<close>

definition launches :: "proc_event list \<Rightarrow> proc_event list" where
  "launches l = filter (\<lambda>e. e \<in> {ProcSpawned, ProcSpawnFailed}) l"

lemma launches_simps [simp]:
  "launches [] = []" "launches (l @ l') = launches l @ launches l'"
  "launches (ProcSpawned # l) = ProcSpawned # launches l"
  "launches (ProcSpawnFailed # l) = ProcSpawnFailed # launches l"
  "launches (ProcCancelSeen # l) = launches l" "launches (ProcKilled # l) = launches l"
  "launches (ProcHealth h # l) = launches l"
  by (simp_all add: launches_def)

text \<open>\<open>waits c s s'\<close>: from \<open>s\<close> to \<open>s'\<close> nothing is launched, and \<open>c\<close> says whether a cancellation was seen.\<close>

definition waits :: "bool \<Rightarrow> 'w proc_state \<Rightarrow> 'w proc_state \<Rightarrow> bool" where
  "waits c s s' \<longleftrightarrow>
     (\<exists>l. ps_log s' = ps_log s @ l \<and> launches l = [] \<and> (c \<longleftrightarrow> ProcCancelSeen \<in> set l))"

lemma waits_refl [intro]: "ps_log s' = ps_log s \<Longrightarrow> waits False s s'"
  by (simp add: waits_def)

lemma waits_trans: "waits c s s1 \<Longrightarrow> waits c' s1 s2 \<Longrightarrow> waits (c \<or> c') s s2"
  unfolding waits_def by (metis append.assoc append_Nil launches_simps(2) set_append Un_iff)

lemma waits_world [simp]: "waits c s (s1\<lparr>ps_world := w\<rparr>) = waits c s s1" "waits c (s\<lparr>ps_world := w\<rparr>) s1 = waits c s s1"
  by (simp_all add: waits_def)

lemma waits_on_world: "on_world f s = (x, s') \<Longrightarrow> waits False s s'"
  by (auto simp: on_world_eq waits_def)

lemma waits_health: "waits False s (publish_health t h s)"
  by (simp add: waits_def publish_health_def proc_log_def)

lemma waits_publish [simp, intro]:
  "waits False s (publish_healthy E t s)" "waits False s (publish_unhealthy E t err s)"
  "waits False s (publish_unhealthy_with_status E t err st s)"
  unfolding publish_healthy_def publish_unhealthy_def publish_unhealthy_with_status_def by (rule waits_health)+

lemma waits_cancelled: "is_cancelled_with_timeout E d s = (c, s') \<Longrightarrow> waits c s s'"
  by (auto simp: is_cancelled_with_timeout_def on_world_def waits_def proc_log_def split: prod.splits if_splits)

lemma waits_handle_exit: "waits False s (handle_exit E x t st s)"
  by (auto simp: handle_exit_def)

lemma waits_running_until:
  assumes "running_until E deadline s = Some r"
  shows "waits False s (snd r)"
proof (rule running_until.raw_induct[where P = "\<lambda>E d s r. waits False s (snd r)", OF _ assms])
  fix f :: "'a proc_env \<Rightarrow> nat \<Rightarrow> 'a proc_state \<Rightarrow> (bool \<times> 'a proc_state) option" and E deadline s r
  assume IH: "\<And>E d s r. f E d s = Some r \<Longrightarrow> waits False s (snd r)"
    and eq: "(if px_time E (ps_world s) < deadline
      then (case on_world (px_running E) s of
              (running, s) \<Rightarrow>
                if running then f E deadline (s\<lparr>ps_world := px_sleep E POLL_INTERVAL (ps_world s)\<rparr>)
                else Some (False, s))
      else Some (True, s)) = Some r"
  then show "waits False s (snd r)"
    by (auto split: if_splits prod.splits dest!: IH waits_on_world dest: waits_trans)
qed

lemma waits_kill: "waits False s (proc_log ProcKilled s)"
  by (simp add: waits_def proc_log_def)

lemma waits_shutdown:
  assumes "shutdown E timeout s = Some (r, s')"
  shows "waits False s s'"
proof -
  obtain graceful s1 where s1: "on_world (px_terminate E) s = (graceful, s1)" by fastforce
  with assms obtain force s2 where s2: "(case graceful of Inl _ \<Rightarrow> Some (True, s1)
        | Inr _ \<Rightarrow> is_running_after_timeout E timeout s1) = Some (force, s2)"
    by (auto simp: shutdown_def split: option.splits bind_splits)
  then have "waits False s1 s2"
    by (auto simp: is_running_after_timeout_def dest: waits_running_until split: sum.splits)
  with waits_on_world[OF s1] have before: "waits False s s2" using waits_trans by fastforce
  obtain k s3 where s3: "on_world (px_kill E) s2 = (k, s3)" by fastforce
  have "waits False s s3" using before waits_on_world[OF s3] waits_trans by fastforce
  moreover have "waits False s (proc_log ProcKilled s3)"
    using calculation waits_kill[of s3] waits_trans by fastforce
  ultimately show ?thesis
    using assms s1 s2 s3 before by (auto simp: shutdown_def split: if_splits sum.splits)
qed

lemma waits_exit_loop:
  assumes "wait_exit_loop E timeout start deadline cancelled published s = Some r"
  shows "\<exists>c. waits c s (snd (snd r)) \<and> fst r = (cancelled \<or> c)"
proof (rule wait_exit_loop.raw_induct[where P =
      "\<lambda>E timeout start deadline cancelled published s r. \<exists>c. waits c s (snd (snd r)) \<and> fst r = (cancelled \<or> c)",
      OF _ assms])
  fix f :: "'a proc_env \<Rightarrow> nat \<Rightarrow> int \<Rightarrow> nat \<Rightarrow> bool \<Rightarrow> bool \<Rightarrow> 'a proc_state
      \<Rightarrow> (bool \<times> bool \<times> 'a proc_state) option"
    and E timeout start deadline cancelled published s r
  assume IH: "\<And>E timeout start deadline cancelled published s r.
      f E timeout start deadline cancelled published s = Some r \<Longrightarrow>
      \<exists>c. waits c s (snd (snd r)) \<and> fst r = (cancelled \<or> c)"
    and eq: "(case on_world (px_running E) s of
        (running, s) \<Rightarrow>
          if \<not> running then Some (cancelled, published, s)
          else
            (case is_cancelled_with_timeout E WAIT_FOR_EXIT_TIMEOUT s of
               (c, s) \<Rightarrow>
                 Option.bind (if c then map_option snd (shutdown E timeout s) else Some s)
                   (\<lambda>s. if \<not> published \<and> px_time E (ps_world s) > deadline
                        then f E timeout start deadline (cancelled \<or> c) True (publish_healthy E start s)
                        else f E timeout start deadline (cancelled \<or> c) published s))) = Some r"
  obtain running s1 where s1: "on_world (px_running E) s = (running, s1)" by fastforce
  obtain c s2 where s2: "is_cancelled_with_timeout E WAIT_FOR_EXIT_TIMEOUT s1 = (c, s2)" by fastforce
  have s12: "waits False s s1" "waits c s1 s2" using waits_on_world[OF s1] waits_cancelled[OF s2] by simp_all
  show "\<exists>c. waits c s (snd (snd r)) \<and> fst r = (cancelled \<or> c)"
  proof (cases running)
    case False
    with eq s1 s12 show ?thesis by auto
  next
    case True
    with eq s1 s2 obtain s3 where s3: "(if c then map_option snd (shutdown E timeout s2) else Some s2) = Some s3"
      "(if \<not> published \<and> px_time E (ps_world s3) > deadline
        then f E timeout start deadline (cancelled \<or> c) True (publish_healthy E start s3)
        else f E timeout start deadline (cancelled \<or> c) published s3) = Some r"
      by (auto split: bind_splits)
    have "waits False s2 s3" using s3(1) waits_shutdown by (fastforce split: if_splits)
    from waits_trans[OF waits_trans[OF s12] this] have s: "waits c s s3" by simp
    obtain c' s4 where "waits False s3 s4" "waits c' s4 (snd (snd r))" "fst r = ((cancelled \<or> c) \<or> c')"
      using s3(2) IH waits_publish(1) waits_refl by (metis (full_types))
    note w = this
    from waits_trans[OF waits_trans[OF s w(1)] w(2)] have "waits (c \<or> c') s (snd (snd r))" by simp
    with w(3) show ?thesis by (auto simp: disj_assoc)
  qed
qed

text \<open>Whether waiting for a process that ended can fail.\<close>

definition wait_fails :: "'w proc_env \<Rightarrow> bool" where
  "wait_fails E \<longleftrightarrow> (\<exists>w e. fst (px_wait E w) = Inl e)"

lemma waits_exit:
  assumes "wait_exit E timeout start s = Some (r, s')"
  shows "\<exists>c. waits c s s' \<and> (case r of Inr (_, was_cancelled) \<Rightarrow> was_cancelled = c | Inl _ \<Rightarrow> wait_fails E)"
proof -
  obtain c published s1 where s1: "wait_exit_loop E timeout start (px_time E (ps_world s) + HEALTHY_DELAY) False False s
      = Some (c, published, s1)"
    using assms by (auto simp: wait_exit_def split: bind_splits)
  then have w1: "waits c s s1" using waits_exit_loop by fastforce
  obtain st s2 where s2: "on_world (px_wait E) s1 = (st, s2)" by fastforce
  have w2: "waits c s s2" using w1 waits_on_world[OF s2] waits_trans by fastforce
  have "waits c s (publish_healthy E start s2)" using w2 waits_publish(1)[of s2 E start] waits_trans by fastforce
  moreover have "wait_fails E" if "st = Inl e" for e
    using s2 that unfolding wait_fails_def on_world_eq by (metis fst_conv)
  ultimately show ?thesis using w2 assms s1 s2 by (auto simp: wait_exit_def split: sum.splits if_splits)
qed

text \<open>One instance launches the executable once, then only waits.\<close>

lemma run_once_log:
  assumes "run_once E x start s = Some (c, s')"
  shows "\<exists>e l. ps_log s' = ps_log s @ e # l \<and> e \<in> {ProcSpawned, ProcSpawnFailed} \<and> launches l = [] \<and>
    (c \<longrightarrow> ProcCancelSeen \<in> set l) \<and> (ProcCancelSeen \<in> set l \<longrightarrow> c \<or> wait_fails E)"
proof -
  obtain started s1 where s1: "on_world (px_spawn E) s = (started, s1)" by fastforce
  define e where "e = (case started of Inl _ \<Rightarrow> ProcSpawnFailed | Inr _ \<Rightarrow> ProcSpawned)"
  have log: "ps_log (proc_log e s1) = ps_log s @ [e]" using s1 by (auto simp: proc_log_def on_world_eq)
  obtain r s2 where s2: "(case started of
               Inl e \<Rightarrow> Some (Inl e, proc_log ProcSpawnFailed s1)
             | Inr _ \<Rightarrow> wait_exit E (ed_shutdown_timeout x) start (proc_log ProcSpawned s1)) = Some (r, s2)"
    and r: "(c, s') = (case r of Inr (st, was_cancelled) \<Rightarrow> (was_cancelled, handle_exit E x start st s2)
                     | Inl e \<Rightarrow> (False, publish_unhealthy E start (''Error launching process: '' @ e) s2))"
    using assms s1 by (auto simp: run_once_def split: bind_splits)
  obtain c' where c': "waits c' (proc_log e s1) s2"
      "case r of Inr (_, was_cancelled) \<Rightarrow> was_cancelled = c' | Inl _ \<Rightarrow> c' \<longrightarrow> wait_fails E"
  proof (cases started)
    case (Inl err)
    then show thesis using s2 that[of False] by (auto simp: e_def waits_refl)
  next
    case (Inr u)
    then show thesis using s2 that by (auto simp: e_def dest!: waits_exit split: sum.splits)
  qed
  have "waits False s2 s'" using r waits_publish(2) waits_handle_exit by (auto split: sum.splits)
  from waits_trans[OF c'(1) this] have w: "waits c' (proc_log e s1) s'" by simp
  have cc: "(c \<longrightarrow> c') \<and> (c' \<longrightarrow> c \<or> wait_fails E)" using r c'(2) by (auto split: sum.splits)
  have "e \<in> {ProcSpawned, ProcSpawnFailed}" by (simp add: e_def split: sum.splits)
  moreover from w log obtain l where "ps_log s' = ps_log s @ e # l" "launches l = []" "c' \<longleftrightarrow> ProcCancelSeen \<in> set l"
    by (auto simp: waits_def)
  ultimately show ?thesis using cc by blast
qed

section \<open>Cancellation\<close>

text \<open>Nothing is launched after a cancellation was seen.\<close>

definition quiet_after_cancel :: "proc_event list \<Rightarrow> bool" where
  "quiet_after_cancel l \<longleftrightarrow> launches (dropWhile (\<lambda>e. e \<noteq> ProcCancelSeen) l) = []"

lemma quiet_append:
  "ProcCancelSeen \<notin> set l \<Longrightarrow> quiet_after_cancel (l @ l') = quiet_after_cancel l'"
  by (induction l) (auto simp: quiet_after_cancel_def)

lemma quiet_launch:
  assumes "launches l = []"
  shows "quiet_after_cancel l" "e \<noteq> ProcCancelSeen \<Longrightarrow> quiet_after_cancel (e # l)"
proof -
  have "launches (dropWhile P l) = []" for P using assms by (induction l) (auto simp: launches_def split: if_splits)
  then show "quiet_after_cancel l" "e \<noteq> ProcCancelSeen \<Longrightarrow> quiet_after_cancel (e # l)"
    by (simp_all add: quiet_after_cancel_def)
qed

text \<open>What a turn appends to the log.\<close>

lemma process_turn_log:
  assumes "process_turn E x p s = Some (r, s')" and "\<not> wait_fails E"
  shows "\<exists>l. ps_log s' = ps_log s @ l \<and> quiet_after_cancel l \<and> (r = Inl EndCancelled \<longleftrightarrow> ProcCancelSeen \<in> set l)"
proof -
  obtain c s1 where s1: "is_cancelled E s = (c, s1)" by fastforce
  then have w1: "waits c s s1" by (simp add: is_cancelled_def waits_cancelled)
  show ?thesis
  proof (cases c)
    case True
    with assms(1) s1 w1 show ?thesis by (auto simp: process_turn_def waits_def quiet_launch(1))
  next
    case False
    with assms(1) s1 obtain c2 s2 where s2: "run_once E x (px_sys_time E (ps_world s1)) s1 = Some (c2, s2)"
      by (auto simp: process_turn_def split: bind_splits)
    from w1 False obtain l1 where l1: "ps_log s1 = ps_log s @ l1" "ProcCancelSeen \<notin> set l1" by (auto simp: waits_def)
    from run_once_log[OF s2] assms(2) obtain e l2 where l2: "ps_log s2 = ps_log s1 @ e # l2"
        "e \<in> {ProcSpawned, ProcSpawnFailed}" "launches l2 = []" "c2 \<longleftrightarrow> ProcCancelSeen \<in> set l2" by blast
    have "\<exists>c3. waits c3 s2 s' \<and> (r = Inl EndCancelled \<longleftrightarrow> c2 \<or> c3)"
    proof (cases c2)
      case True
      with assms(1) s1 s2 False show ?thesis by (auto simp: process_turn_def)
    next
      case c2: False
      obtain again p1 where retry: "should_retry (px_time E (ps_world s2)) p = (again, p1)" by fastforce
      show ?thesis
      proof (cases again)
        case again: False
        with assms(1) s1 s2 False c2 retry show ?thesis by (auto simp: process_turn_def)
      next
        case again: True
        obtain w s3 where w: "wait_restart E p1 s2 = (w, s3)" by fastforce
        with assms(1) s1 s2 False c2 retry again
        have r: "s' = s3" "r = (case w of None \<Rightarrow> Inl EndPanicked | Some (c, p) \<Rightarrow> if c then Inl EndCancelled else Inr p)"
          by (auto simp: process_turn_def split: option.splits prod.splits)
        show ?thesis
        proof (cases w)
          case None
          then have "waits False s2 s3" using w by (auto simp: wait_restart_def split: option.splits prod.splits)
          with r None c2 show ?thesis by auto
        next
          case (Some cp)
          then have "waits (fst cp) s2 s3"
            using w by (auto simp: wait_restart_def split: option.splits prod.splits dest: waits_cancelled)
          with r Some c2 show ?thesis by (auto split: prod.splits)
        qed
      qed
    qed
    then obtain l3 where l3: "ps_log s' = ps_log s2 @ l3" "launches l3 = []"
        "r = Inl EndCancelled \<longleftrightarrow> c2 \<or> ProcCancelSeen \<in> set l3" by (auto simp: waits_def)
    have "launches (l2 @ l3) = []" using l2(3) l3(2) by simp
    then have "quiet_after_cancel (l1 @ e # l2 @ l3)" using l1(2) l2(2) by (auto simp: quiet_append intro: quiet_launch)
    moreover have "ps_log s' = ps_log s @ l1 @ e # l2 @ l3" using l1 l2 l3 by simp
    moreover have "r = Inl EndCancelled \<longleftrightarrow> ProcCancelSeen \<in> set (l1 @ e # l2 @ l3)" using l1(2) l2(2,4) l3(3) by auto
    ultimately show ?thesis by blast
  qed
qed

lemma thread_log:
  assumes "start_process_thread E x s = Some (e, s')" and "\<not> wait_fails E"
  shows "\<exists>l. ps_log s' = ps_log s @ l \<and> quiet_after_cancel l \<and> (e = EndCancelled \<longleftrightarrow> ProcCancelSeen \<in> set l)"
proof -
  let ?P = "\<lambda>E x p s r. \<not> wait_fails E \<longrightarrow> (\<exists>l. ps_log (snd r) = ps_log s @ l \<and> quiet_after_cancel l \<and>
      (fst r = EndCancelled \<longleftrightarrow> ProcCancelSeen \<in> set l))"
  have "?P E x (ed_restart_policy x) s (e, s')"
  proof (rule process_loop.raw_induct[where P = ?P, OF _ assms(1)[unfolded start_process_thread_def]], rule impI)
    fix f :: "'a proc_env \<Rightarrow> executable_data \<Rightarrow> restart_policy \<Rightarrow> 'a proc_state \<Rightarrow> (thread_end \<times> 'a proc_state) option"
      and E x p s r
    assume IH: "\<And>E x p s r. f E x p s = Some r \<Longrightarrow> ?P E x p s r"
      and eq: "Option.bind (process_turn E x p s)
        (\<lambda>(r, s). case r of Inl e \<Rightarrow> Some (e, s) | Inr p \<Rightarrow> f E x p s) = Some r"
      and fails: "\<not> wait_fails E"
    from eq obtain r1 s1 where turn: "process_turn E x p s = Some (r1, s1)"
      and rest: "(case r1 of Inl e \<Rightarrow> Some (e, s1) | Inr p \<Rightarrow> f E x p s1) = Some r" by (auto split: bind_splits)
    from process_turn_log[OF turn fails] obtain l where l: "ps_log s1 = ps_log s @ l" "quiet_after_cancel l"
        "r1 = Inl EndCancelled \<longleftrightarrow> ProcCancelSeen \<in> set l" by blast
    show "\<exists>l. ps_log (snd r) = ps_log s @ l \<and> quiet_after_cancel l \<and> (fst r = EndCancelled \<longleftrightarrow> ProcCancelSeen \<in> set l)"
    proof (cases r1)
      case (Inl e)
      then show ?thesis using rest l by auto
    next
      case (Inr p1)
      then obtain l' where "ps_log (snd r) = ps_log s1 @ l'" "quiet_after_cancel l'"
          "fst r = EndCancelled \<longleftrightarrow> ProcCancelSeen \<in> set l'" using rest IH[of E x p1 s1 r] fails by auto
      with l Inr show ?thesis by (auto simp: quiet_append)
    qed
  qed
  with assms(2) show ?thesis by simp
qed

text \<open>A cancellation is sent at the time \<open>tc\<close>: while it was not received, which is what \<open>pending\<close> says of a
  world, it is received by every poll from then on, and polls before that wait for their whole timeout.
  Starting a process takes time, and waiting for one does not turn the clock back.\<close>

definition stop_sent :: "'w proc_env \<Rightarrow> ('w \<Rightarrow> bool) \<Rightarrow> instant \<Rightarrow> bool" where
  "stop_sent E pending tc \<longleftrightarrow>
     (\<forall>w d. pending w \<and> tc \<le> px_time E w \<longrightarrow> fst (px_cancelled E d w)) \<and>
     (\<forall>w d w'. pending w \<and> px_cancelled E d w = (False, w') \<longrightarrow> pending w' \<and> px_time E w + d \<le> px_time E w') \<and>
     (\<forall>w. pending w \<longrightarrow> pending (snd (px_spawn E w)) \<and> px_time E w < px_time E (snd (px_spawn E w))) \<and>
     (\<forall>w. pending w \<longrightarrow> pending (snd (px_running E w))) \<and>
     (\<forall>w. pending w \<longrightarrow> pending (snd (px_wait E w)) \<and> px_time E w \<le> px_time E (snd (px_wait E w)))"

lemma stop_sent_poll:
  assumes "stop_sent E pending tc" and "pending w" and "px_cancelled E d w = (False, w')"
  shows "pending w'" "px_time E w + d \<le> px_time E w'" "px_time E w < tc"
proof -
  show "pending w'" "px_time E w + d \<le> px_time E w'" using assms by (simp_all add: stop_sent_def)
  have "tc \<le> px_time E w \<longrightarrow> fst (px_cancelled E d w)" using assms(1,2) by (simp add: stop_sent_def)
  then show "px_time E w < tc" using assms(3) by (simp add: not_le[symmetric])
qed

lemma stop_sent_call:
  assumes "stop_sent E pending tc" and "pending w"
  shows "px_spawn E w = (started, w1) \<Longrightarrow> pending w1 \<and> px_time E w < px_time E w1"
    and "px_running E w = (running, w1) \<Longrightarrow> pending w1"
    and "px_wait E w = (st, w1) \<Longrightarrow> pending w1 \<and> px_time E w \<le> px_time E w1"
proof -
  have "pending (snd (px_spawn E w)) \<and> px_time E w < px_time E (snd (px_spawn E w))"
    "pending (snd (px_running E w))"
    "pending (snd (px_wait E w)) \<and> px_time E w \<le> px_time E (snd (px_wait E w))"
    using assms by (simp_all add: stop_sent_def)
  then show "px_spawn E w = (started, w1) \<Longrightarrow> pending w1 \<and> px_time E w < px_time E w1"
    "px_running E w = (running, w1) \<Longrightarrow> pending w1"
    "px_wait E w = (st, w1) \<Longrightarrow> pending w1 \<and> px_time E w \<le> px_time E w1"
    by simp_all
qed

text \<open>A process that was shut down is not running any more.\<close>

definition shutdown_works :: "'w proc_env \<Rightarrow> duration \<Rightarrow> bool" where
  "shutdown_works E timeout \<longleftrightarrow>
     (\<forall>s r s'. shutdown E timeout s = Some (r, s') \<longrightarrow> \<not> fst (px_running E (ps_world s')))"

lemma shutdown_returns_Some: "steady_clock E \<Longrightarrow> \<exists>r s'. shutdown E timeout s = Some (r, s')"
proof -
  assume clock: "steady_clock E"
  obtain graceful s1 where s1: "on_world (px_terminate E) s = (graceful, s1)" by fastforce
  obtain running s2 where s2: "(case graceful of Inl _ \<Rightarrow> Some (True, s1)
        | Inr _ \<Rightarrow> is_running_after_timeout E timeout s1) = Some (running, s2)"
    using running_until_returns[OF clock, of "px_time E (ps_world s1) + timeout" s1]
    by (cases graceful) (auto simp: is_running_after_timeout_def)
  obtain k s3 where s3: "on_world (px_kill E) s2 = (k, s3)" by fastforce
  show ?thesis using s1 s2 s3 by (cases k) (auto simp: shutdown_def)
qed

lemma wait_exit_loop_over:
  "\<not> fst (px_running E (ps_world s)) \<Longrightarrow>
   \<exists>s'. wait_exit_loop E timeout start deadline c published s = Some (c, published, s')"
  by (subst wait_exit_loop.simps) (auto simp: on_world_def split: prod.splits)

lemma publish_world [simp]: "ps_world (publish_healthy E t s) = ps_world s"
  by (simp add: publish_healthy_def publish_health_def proc_log_def)

lemma poll_world:
  "is_cancelled_with_timeout E d s = (c, s') \<Longrightarrow> px_cancelled E d (ps_world s) = (c, ps_world s')"
  by (auto simp: is_cancelled_with_timeout_def on_world_def proc_log_def split: prod.splits)

lemma stopped_loop_returns:
  assumes "steady_clock E" and "stop_sent E pending tc" and "shutdown_works E timeout" and "pending (ps_world s)"
  shows "\<exists>c published' s'. wait_exit_loop E timeout start deadline False published s = Some (c, published', s') \<and>
    (c \<or> pending (ps_world s') \<and> px_time E (ps_world s) \<le> px_time E (ps_world s'))"
  using assms(4)
proof (induction "tc - px_time E (ps_world s)" arbitrary: s published rule: less_induct)
  case less
  obtain running s1 where s1: "on_world (px_running E) s = (running, s1)" by fastforce
  then have w1: "px_running E (ps_world s) = (running, ps_world s1)" by (auto simp: on_world_eq)
  have p1: "pending (ps_world s1)" using stop_sent_call(2)[OF assms(2) less.prems w1] .
  have "px_time E (ps_world s) \<le> px_time E (snd (px_running E (ps_world s)))" using assms(1) by (simp add: steady_clock_def)
  then have t1: "px_time E (ps_world s) \<le> px_time E (ps_world s1)" by (simp add: w1)
  show ?case
  proof (cases running)
    case False
    then show ?thesis using s1 p1 t1 by (subst wait_exit_loop.simps) auto
  next
    case True
    obtain c s2 where s2: "is_cancelled_with_timeout E WAIT_FOR_EXIT_TIMEOUT s1 = (c, s2)" by fastforce
    note w2 = poll_world[OF s2]
    show ?thesis
    proof (cases c)
      case c: True
      obtain r s3 where s3: "shutdown E timeout s2 = Some (r, s3)" using shutdown_returns_Some[OF assms(1)] by blast
      then have "\<not> fst (px_running E (ps_world s3))" using assms(3) by (auto simp: shutdown_works_def)
      then have "\<exists>published' s'. wait_exit_loop E timeout start deadline False published s = Some (True, published', s')"
        using s1 True s2 c s3 wait_exit_loop_over[of E s3 timeout start deadline True published]
          wait_exit_loop_over[of E "publish_healthy E start s3" timeout start deadline True True]
        by (subst wait_exit_loop.simps) auto
      then show ?thesis by blast
    next
      case c: False
      then have "px_cancelled E WAIT_FOR_EXIT_TIMEOUT (ps_world s1) = (False, ps_world s2)" using w2 by simp
      note p2 = stop_sent_poll[OF assms(2) p1 this]
      have less_time: "tc - px_time E (ps_world s2) < tc - px_time E (ps_world s)"
        using t1 p2(2,3) by (simp add: WAIT_FOR_EXIT_TIMEOUT_def from_secs_def)
      have IH: "\<exists>c published' s'. wait_exit_loop E timeout start deadline False pub t = Some (c, published', s') \<and>
          (c \<or> pending (ps_world s') \<and> px_time E (ps_world s) \<le> px_time E (ps_world s'))"
        if t: "ps_world t = ps_world s2" for pub t
      proof -
        have "px_time E (ps_world s) \<le> px_time E (ps_world s2)" using t1 p2(2) by simp
        moreover obtain c published' s' where "wait_exit_loop E timeout start deadline False pub t = Some (c, published', s')"
          "c \<or> pending (ps_world s') \<and> px_time E (ps_world s2) \<le> px_time E (ps_world s')"
          using less.hyps[of t pub] less_time p2(1) unfolding t by blast
        ultimately show ?thesis by (blast intro: order_trans)
      qed
      have "wait_exit_loop E timeout start deadline False published s =
          (if \<not> published \<and> px_time E (ps_world s2) > deadline
           then wait_exit_loop E timeout start deadline False True (publish_healthy E start s2)
           else wait_exit_loop E timeout start deadline False published s2)"
        using s1 True s2 c by (subst wait_exit_loop.simps) simp
      then show ?thesis using IH[of s2 published] IH[of "publish_healthy E start s2" True] by (simp split: if_splits)
    qed
  qed
qed

lemma stopped_run_returns:
  assumes "steady_clock E" and "stop_sent E pending tc" and "shutdown_works E (ed_shutdown_timeout x)"
    and "\<not> wait_fails E" and "pending (ps_world s)"
  shows "\<exists>c s'. run_once E x start s = Some (c, s') \<and>
    (c \<or> pending (ps_world s') \<and> px_time E (ps_world s) < px_time E (ps_world s'))"
proof -
  obtain started s1 where s1: "on_world (px_spawn E) s = (started, s1)" by fastforce
  then have w1: "px_spawn E (ps_world s) = (started, ps_world s1)" by (auto simp: on_world_eq)
  have p1: "pending (ps_world s1)" "px_time E (ps_world s) < px_time E (ps_world s1)"
    using stop_sent_call(1)[OF assms(2,5) w1] by simp_all
  show ?thesis
  proof (cases started)
    case (Inl e)
    then show ?thesis
      using s1 p1 by (auto simp: run_once_def publish_unhealthy_def publish_health_def proc_log_def)
  next
    case (Inr u)
    let ?s1 = "proc_log ProcSpawned s1"
    let ?deadline = "px_time E (ps_world ?s1) + HEALTHY_DELAY"
    have w: "ps_world ?s1 = ps_world s1" by (simp add: proc_log_def)
    obtain c published s2
      where s2: "wait_exit_loop E (ed_shutdown_timeout x) start ?deadline False False ?s1 = Some (c, published, s2)"
      and p2: "c \<or> pending (ps_world s2) \<and> px_time E (ps_world s1) \<le> px_time E (ps_world s2)"
      using stopped_loop_returns[OF assms(1-3), of ?s1 start ?deadline False] p1(1) unfolding w by blast
    obtain r s3 where s3: "on_world (px_wait E) s2 = (r, s3)" by fastforce
    then have w3: "px_wait E (ps_world s2) = (r, ps_world s3)" by (auto simp: on_world_eq)
    then obtain st where r: "r = Inr st"
      using assms(4) unfolding wait_fails_def by (cases r) (metis fst_conv, blast)
    have p3: "c \<or> pending (ps_world s3) \<and> px_time E (ps_world s) < px_time E (ps_world s3)"
    proof (cases c)
      case False
      with p2 have "pending (ps_world s2)" "px_time E (ps_world s1) \<le> px_time E (ps_world s2)" by simp_all
      with stop_sent_call(3)[OF assms(2) _ w3] p1(2) show ?thesis by simp
    qed simp
    let ?s4 = "if \<not> published \<and> exit_success st then publish_healthy E start s3 else s3"
    have "run_once E x start s = Some (c, handle_exit E x start st ?s4)"
      using s1 Inr s2 s3 r by (simp add: run_once_def wait_exit_def)
    moreover have "ps_world (handle_exit E x start st ?s4) = ps_world s3"
      by (simp add: handle_exit_def publish_unhealthy_with_status_def publish_health_def proc_log_def)
    ultimately show ?thesis using p3 by simp
  qed
qed

lemma stopped_turn_returns:
  assumes "steady_clock E" and "stop_sent E pending tc" and "shutdown_works E (ed_shutdown_timeout x)"
    and "\<not> wait_fails E" and "pending (ps_world s)"
  shows "\<exists>r s'. process_turn E x p s = Some (r, s') \<and>
    (case r of Inl _ \<Rightarrow> True
     | Inr _ \<Rightarrow> pending (ps_world s') \<and> px_time E (ps_world s) < tc \<and>
         px_time E (ps_world s) < px_time E (ps_world s'))"
proof -
  obtain c s1 where s1: "is_cancelled E s = (c, s1)" by fastforce
  note w1 = poll_world[OF s1[unfolded is_cancelled_def]]
  show ?thesis
  proof (cases c)
    case True
    then show ?thesis using s1 by (simp add: process_turn_def)
  next
    case False
    then have "px_cancelled E 0 (ps_world s) = (False, ps_world s1)" using w1 by simp
    note poll = stop_sent_poll[OF assms(2,5) this]
    have p1: "pending (ps_world s1)" "px_time E (ps_world s) \<le> px_time E (ps_world s1)"
      and early: "px_time E (ps_world s) < tc" using poll by simp_all
    let ?start = "px_sys_time E (ps_world s1)"
    obtain c2 s2 where s2: "run_once E x ?start s1 = Some (c2, s2)"
      and p2: "c2 \<or> pending (ps_world s2) \<and> px_time E (ps_world s1) < px_time E (ps_world s2)"
      using stopped_run_returns[OF assms(1-4) p1(1), of ?start] by blast
    show ?thesis
    proof (cases c2)
      case True
      then show ?thesis using s1 False s2 by (simp add: process_turn_def)
    next
      case c2: False
      obtain again p' where retry: "should_retry (px_time E (ps_world s2)) p = (again, p')" by fastforce
      obtain w s3 where w: "wait_restart E p' s2 = (w, s3)" by fastforce
      have p3: "pending (ps_world s3) \<and> px_time E (ps_world s2) \<le> px_time E (ps_world s3)" if "w = Some (False, p'')" for p''
      proof -
        from w that obtain d where "is_cancelled_with_timeout E d s2 = (False, s3)"
          by (auto simp: wait_restart_def split: option.splits prod.splits)
        from poll_world[OF this] show ?thesis using stop_sent_poll[OF assms(2), of "ps_world s2" d] p2 c2 by simp
      qed
      have turn: "process_turn E x p s = Some
          (if \<not> again then (Inl EndPolicyExceeded, publish_unhealthy E ?start ''Restart policy exceeded'' s2)
           else (case w of None \<Rightarrow> Inl EndPanicked | Some (c, p) \<Rightarrow> if c then Inl EndCancelled else Inr p, s3))"
        using s1 False s2 c2 retry w by (auto simp: process_turn_def split: option.splits prod.splits)
      show ?thesis
      proof (cases "again \<and> (\<exists>p''. w = Some (False, p''))")
        case True
        then obtain p'' where w': "w = Some (False, p'')" by blast
        then have "process_turn E x p s = Some (Inr p'', s3)" using turn True by simp
        moreover have "px_time E (ps_world s) < px_time E (ps_world s3)" using p3[OF w'] p2 c2 p1(2) by simp
        ultimately show ?thesis using p3[OF w'] early by simp
      next
        case ended: False
        have "\<exists>e s'. process_turn E x p s = Some (Inl e, s')"
        proof (cases w)
          case None
          then show ?thesis using turn by simp
        next
          case (Some cp)
          then show ?thesis using turn ended by (cases cp) auto
        qed
        then obtain e s' where "process_turn E x p s = Some (Inl e, s')" by blast
        then show ?thesis by simp
      qed
    qed
  qed
qed

lemma stopped_loop_ends:
  assumes "steady_clock E" and "stop_sent E pending tc" and "shutdown_works E (ed_shutdown_timeout x)"
    and "\<not> wait_fails E" and "pending (ps_world s)"
  shows "process_loop E x p s \<noteq> None"
  using assms(5)
proof (induction "tc - px_time E (ps_world s)" arbitrary: s p rule: less_induct)
  case less
  obtain r s1 where turn: "process_turn E x p s = Some (r, s1)"
    and r: "case r of Inl _ \<Rightarrow> True
     | Inr _ \<Rightarrow> pending (ps_world s1) \<and> px_time E (ps_world s) < tc \<and>
         px_time E (ps_world s) < px_time E (ps_world s1)"
    using stopped_turn_returns[OF assms(1-4) less.prems, of p] by blast
  show ?case
  proof (cases r)
    case (Inl e)
    then show ?thesis using turn by (simp add: process_loop.simps[of E x p s])
  next
    case (Inr p1)
    then have "tc - px_time E (ps_world s1) < tc - px_time E (ps_world s)" "pending (ps_world s1)" using r by auto
    from less.hyps[OF this, of p1] show ?thesis using turn Inr by (simp add: process_loop.simps[of E x p s])
  qed
qed

text \<open>C9. A cancellation ends the thread of an executable, provided that waiting for an ended process never
  fails: whenever the thread ended, it launched nothing after it had seen a cancellation, and it ended as
  cancelled exactly when it had seen one. And it does end: once a cancellation is sent, whatever the
  executable and its restart policy do, the thread returns, if a process that was shut down does not run
  any more and the clock is steady. (If waiting fails after a cancellation, the code forgets it and the
  policy decides.)\<close>

theorem cancelled_launches_nothing:
  assumes "\<forall>w. isl (fst (px_wait E w)) = False"
  shows "(\<forall>e s'. start_process_thread E x s = Some (e, s') \<longrightarrow>
      (\<exists>l. ps_log s' = ps_log s @ l \<and> quiet_after_cancel l \<and> (e = EndCancelled \<longleftrightarrow> ProcCancelSeen \<in> set l))) \<and>
    (steady_clock E \<longrightarrow> stop_sent E pending tc \<longrightarrow> shutdown_works E (ed_shutdown_timeout x) \<longrightarrow>
      pending (ps_world s) \<longrightarrow> start_process_thread E x s \<noteq> None)"
proof -
  have fails: "\<not> wait_fails E" using assms unfolding wait_fails_def by (metis sum.disc(1))
  then show ?thesis
    using thread_log[OF _ fails] stopped_loop_ends[OF _ _ _ fails] unfolding start_process_thread_def by blast
qed

section \<open>Restarts are bounded\<close>

text \<open>The turns of the thread from \<open>p\<close> and \<open>s\<close>: the policy and the state at the beginning of each.\<close>

inductive turns :: "'w proc_env \<Rightarrow> executable_data \<Rightarrow> restart_policy \<Rightarrow> 'w proc_state \<Rightarrow> 'w proc_state \<Rightarrow> bool"
  for E :: "'w proc_env" and x :: executable_data where
  turns_first: "turns E x p s s"
| turns_next: "process_turn E x p s = Some (Inr p', s1) \<Longrightarrow> turns E x p' s1 s' \<Longrightarrow> turns E x p s s'"

text \<open>The instance launched in a turn that begins in \<open>s\<close> ends, and does so at most \<open>d\<close> after the time \<open>t\<close>.\<close>

definition ends_within :: "'w proc_env \<Rightarrow> executable_data \<Rightarrow> duration \<Rightarrow> instant \<Rightarrow> 'w proc_state \<Rightarrow> bool" where
  "ends_within E x d t s =
     (case is_cancelled E s of
        (cancelled, s1) \<Rightarrow>
          cancelled \<or>
          (case run_once E x (px_sys_time E (ps_world s1)) s1 of
             None \<Rightarrow> False
           | Some (_, s2) \<Rightarrow> px_time E (ps_world s2) \<le> t + d))"

definition policy_at :: "instant \<Rightarrow> 64 word \<Rightarrow> duration \<Rightarrow> nat \<Rightarrow> restart_policy \<Rightarrow> bool" where
  "policy_at t m i k p \<longleftrightarrow>
     (let b = strategy_backoff (rp_backoff p)
      in unat (bo_tries b) = k \<and> bo_max_retries b = m \<and> bo_last_retry b = t \<and> bo_last_retry_interval b = i)"

lemma strategy_backoff_with [simp]: "strategy_backoff (with_backoff st b) = b"
  by (cases st) simp_all

lemma policy_should_retry:
  assumes "policy_at t0 m i k p" and "m \<noteq> 0" and "now \<le> t0 + i" and "should_retry now p = (again, p')"
  shows "policy_at t0 m i k p' \<and> (again \<longleftrightarrow> k < unat m)"
proof -
  let ?b = "strategy_backoff (rp_backoff p)"
  have "now - bo_last_retry ?b \<le> bo_last_retry_interval ?b" using assms(1,3) by (auto simp: policy_at_def Let_def)
  then have "should_backoff now ?b = (bo_tries ?b < m, ?b)"
    using assms(1,2) by (auto simp: should_backoff_def policy_at_def Let_def)
  then show ?thesis using assms(1,4) by (auto simp: should_retry_def policy_at_def Let_def word_less_nat_alt)
qed

lemma policy_after_backoff:
  assumes "policy_at t m i k p" and "k < unat m"
  shows "policy_at now m i (Suc k) (after_backoff now p)"
proof -
  let ?b = "strategy_backoff (rp_backoff p)"
  have "unat m < 2 ^ 64" using unsigned_less[of m] by simp
  then have "unat (bo_tries ?b + 1) = Suc k" using assms(1,2) by (simp add: policy_at_def Let_def unat_word_ariths)
  then show ?thesis using assms(1) by (simp add: policy_at_def after_backoff_def Let_def)
qed

lemma process_turn_bounded:
  assumes "ends_within E x i t s" and "m \<noteq> 0" and "policy_at t m i k p" and "k \<le> unat m"
  shows "\<exists>r s' l. process_turn E x p s = Some (r, s') \<and> ps_log s' = ps_log s @ l \<and> length (launches l) \<le> 1 \<and>
    (case r of
       Inr p' \<Rightarrow> k < unat m \<and> policy_at (px_time E (ps_world s')) m i (Suc k) p' \<and> length (launches l) = 1
     | Inl e \<Rightarrow> e = EndPolicyExceeded \<longrightarrow> k = unat m \<and> length (launches l) = 1 \<and> l \<noteq> [] \<and>
         (\<exists>h. last l = ProcHealth h \<and> health_last_error (hw_health h) = Some ''Restart policy exceeded''))"
proof -
  obtain c s1 where s1: "is_cancelled E s = (c, s1)" by fastforce
  then obtain l1 where l1: "ps_log s1 = ps_log s @ l1" "launches l1 = []"
    by (auto simp: is_cancelled_def waits_def dest!: waits_cancelled)
  show ?thesis
  proof (cases c)
    case True
    with s1 l1 show ?thesis by (auto simp: process_turn_def)
  next
    case False
    obtain c2 s2 where s2: "run_once E x (px_sys_time E (ps_world s1)) s1 = Some (c2, s2)"
        "px_time E (ps_world s2) \<le> t + i"
      using assms(1) s1 False by (auto simp: ends_within_def split: option.splits)
    from run_once_log[OF s2(1)] obtain e l2 where l2: "ps_log s2 = ps_log s1 @ e # l2"
        "e \<in> {ProcSpawned, ProcSpawnFailed}" "launches l2 = []" by blast
    then have once: "length (launches (e # l2)) = 1" by auto
    obtain again p1 where retry: "should_retry (px_time E (ps_world s2)) p = (again, p1)" by fastforce
    from policy_should_retry[OF assms(3,2) s2(2) retry]
    have p1: "policy_at t m i k p1" "again \<longleftrightarrow> k < unat m" by auto
    show ?thesis
    proof (cases "c2 \<or> \<not> again")
      case True
      then show ?thesis
        using s1 s2 False l1 l2 once retry p1 assms(4)
        by (cases c2) (auto simp: process_turn_def publish_unhealthy_def publish_health_def proc_log_def unhealthy_new_def)
    next
      case again: False
      obtain w s3 where w: "wait_restart E p1 s2 = (w, s3)" by fastforce
      then obtain c3 where "waits c3 s2 s3"
        by (auto simp: wait_restart_def intro: waits_refl dest: waits_cancelled split: option.splits prod.splits)
      then obtain l3 where l3: "ps_log s3 = ps_log s2 @ l3" "launches l3 = []" by (auto simp: waits_def)
      have log: "ps_log s3 = ps_log s @ l1 @ (e # l2) @ l3" using l1 l2 l3 by simp
      have len: "length (launches (l1 @ (e # l2) @ l3)) = 1" using l1(2) l3(2) once by (simp only: launches_simps(2)) simp
      have next_p: "policy_at (px_time E (ps_world s3)) m i (Suc k) p'" if "w = Some (c', p')" for c' p'
        using that w p1 again policy_after_backoff[OF p1(1)]
        by (auto simp: wait_restart_def split: option.splits prod.splits)
      define r where "r = (case w of None \<Rightarrow> Inl EndPanicked | Some (c, p) \<Rightarrow> if c then Inl EndCancelled else Inr p)"
      have turn: "process_turn E x p s = Some (r, s3)"
        using s1 s2 False again retry w by (auto simp: process_turn_def r_def split: option.splits prod.splits)
      have "case r of Inr p' \<Rightarrow> k < unat m \<and> policy_at (px_time E (ps_world s3)) m i (Suc k) p' | Inl e \<Rightarrow> e \<noteq> EndPolicyExceeded"
        using next_p again p1(2) by (auto simp: r_def split: option.splits prod.splits)
      with turn log len show ?thesis
        by (intro exI[of _ r] exI[of _ s3] exI[of _ "l1 @ (e # l2) @ l3"]) (auto split: sum.splits)
    qed
  qed
qed

lemma process_loop_bounded:
  assumes "m \<noteq> 0" and "policy_at t m i k p" and "k \<le> unat m" and "ends_within E x i t s"
    and "\<forall>s'. turns E x p s s' \<longrightarrow> ends_within E x i (px_time E (ps_world s')) s'"
  shows "\<exists>e s' l. process_loop E x p s = Some (e, s') \<and> ps_log s' = ps_log s @ l \<and>
    length (launches l) \<le> unat m - k + 1 \<and>
    (e = EndPolicyExceeded \<longrightarrow> length (launches l) = unat m - k + 1 \<and> l \<noteq> [] \<and>
      (\<exists>h. last l = ProcHealth h \<and> health_last_error (hw_health h) = Some ''Restart policy exceeded''))"
  using assms(2-5)
proof (induction "unat m - k" arbitrary: t k p s rule: less_induct)
  case less
  obtain r s1 l1 where turn: "process_turn E x p s = Some (r, s1)" "ps_log s1 = ps_log s @ l1"
      "length (launches l1) \<le> 1"
    and r: "case r of
       Inr p' \<Rightarrow> k < unat m \<and> policy_at (px_time E (ps_world s1)) m i (Suc k) p' \<and> length (launches l1) = 1
     | Inl e \<Rightarrow> e = EndPolicyExceeded \<longrightarrow> k = unat m \<and> length (launches l1) = 1 \<and> l1 \<noteq> [] \<and>
         (\<exists>h. last l1 = ProcHealth h \<and> health_last_error (hw_health h) = Some ''Restart policy exceeded'')"
    using process_turn_bounded[OF less.prems(3) assms(1) less.prems(1,2)] by blast
  show ?case
  proof (cases r)
    case (Inl e)
    with turn(1) have "process_loop E x p s = Some (e, s1)" by (simp add: process_loop.simps[of E x p s])
    with turn(2,3) r Inl show ?thesis by (auto intro!: exI[of _ l1])
  next
    case (Inr p1)
    with r have p1: "k < unat m" "policy_at (px_time E (ps_world s1)) m i (Suc k) p1" "length (launches l1) = 1"
      by simp_all
    then have shorter: "unat m - Suc k < unat m - k" by simp
    have later: "\<forall>s'. turns E x p1 s1 s' \<longrightarrow> ends_within E x i (px_time E (ps_world s')) s'"
      using less.prems(4) turns_next[OF turn(1)[unfolded Inr]] by blast
    then have "ends_within E x i (px_time E (ps_world s1)) s1" using turns_first by blast
    from less.hyps[OF shorter p1(2) Suc_leI[OF p1(1)] this later] obtain e s2 l2 where l2: "process_loop E x p1 s1 = Some (e, s2)"
        "ps_log s2 = ps_log s1 @ l2" "length (launches l2) \<le> unat m - Suc k + 1"
        "e = EndPolicyExceeded \<longrightarrow> length (launches l2) = unat m - Suc k + 1 \<and> l2 \<noteq> [] \<and>
          (\<exists>h. last l2 = ProcHealth h \<and> health_last_error (hw_health h) = Some ''Restart policy exceeded'')"
      by blast
    have "process_loop E x p s = Some (e, s2)" using turn(1) Inr l2(1) by (simp add: process_loop.simps[of E x p s])
    with turn(2) l2 p1 show ?thesis by (intro exI[of _ e] exI[of _ s2] exI[of _ "l1 @ l2"]) auto
  qed
qed

text \<open>C10. Restarts are bounded: take an executable with a maximal number of retries, every instance of which
  ends, and ends within the interval after which the policy starts over, counted for the first instance
  from the creation of the policy and for every later one from the end of the wait before its restart.
  However long the thread lives, the executable is then launched at most once more than it may be
  retried, and its thread ends. When it ends because the policy is exceeded, exactly so many launches were
  made, and the last health published says so.\<close>

theorem restarts_bounded:
  assumes "ends_within E x (bsc_last_retry_interval c) now s"
    and "\<forall>s'. turns E x (ed_restart_policy x) s s' \<longrightarrow>
      ends_within E x (bsc_last_retry_interval c) (px_time E (ps_world s')) s'"
    and "bsc_max_retries c \<noteq> 0" and "ed_restart_policy x = restart_policy_from now c"
  shows "\<exists>e s' l. start_process_thread E x s = Some (e, s') \<and> ps_log s' = ps_log s @ l \<and>
    length (launches l) \<le> unat (bsc_max_retries c) + 1 \<and>
    (e = EndPolicyExceeded \<longrightarrow> length (launches l) = unat (bsc_max_retries c) + 1 \<and>
      (\<exists>h. last l = ProcHealth h \<and> health_last_error (hw_health h) = Some ''Restart policy exceeded''))"
proof -
  have "policy_at now (bsc_max_retries c) (bsc_last_retry_interval c) 0 (ed_restart_policy x)"
    unfolding assms(4)
    by (cases "bsc_backoff_type c") (simp_all add: policy_at_def restart_policy_from_def backoff_strategy_from_def
      realize_backoff_config_def backoff_default_def Let_def)
  from process_loop_bounded[OF assms(3) this le0 assms(1,2)] show ?thesis
    unfolding start_process_thread_def diff_zero by blast
qed

section \<open>A concrete executable\<close>

text \<open>It runs for nine nanoseconds and ends with an error, and waits last as long as they may.\<close>

definition failing_env :: "nat proc_env" where
  "failing_env =
     \<lparr>px_time = id, px_sys_time = int, px_cancelled = \<lambda>d w. (False, w + d), px_spawn = \<lambda>w. (Inr (), w + 9),
      px_running = \<lambda>w. (False, w), px_terminate = \<lambda>w. (Inr (), w), px_kill = \<lambda>w. (Inr (), w), px_sleep = \<lambda>_ w. w,
      px_wait = \<lambda>w. (Inr \<lparr>es_code = Some 1, es_fmt = ''exit status: 1''\<rparr>, w)\<rparr>"

definition failing_config :: backoff_strategy_config where
  "failing_config = \<lparr>bsc_backoff_type = BackoffFixed, bsc_backoff_delay = 5, bsc_max_retries = 2, bsc_last_retry_interval = 10\<rparr>"

definition failing_executable :: executable_data where
  "failing_executable = (executable_data_new 0 ''x'' ''/bin/x'')\<lparr>ed_restart_policy := restart_policy_from 0 failing_config\<rparr>"

lemma failing_ends:
  "ends_within failing_env x 10 (px_time failing_env (ps_world s)) s"
  by (simp add: ends_within_def is_cancelled_def is_cancelled_with_timeout_def run_once_def wait_exit_def
    wait_exit_loop.simps failing_env_def on_world_def proc_log_def handle_exit_def exit_success_def
    publish_unhealthy_with_status_def publish_health_def)

theorem restarts_bounded_witness:
  "\<exists>e s'. start_process_thread failing_env failing_executable \<lparr>ps_world = 0, ps_log = []\<rparr> = Some (e, s') \<and>
     length (launches (ps_log s')) \<le> 3"
proof -
  let ?s = "\<lparr>ps_world = 0, ps_log = []\<rparr>"
  have i: "bsc_last_retry_interval failing_config = 10" by (simp add: failing_config_def)
  have first: "ends_within failing_env failing_executable (bsc_last_retry_interval failing_config) 0 ?s"
    using failing_ends[of failing_executable ?s] unfolding i by (simp add: failing_env_def)
  have policy: "ed_restart_policy failing_executable = restart_policy_from 0 failing_config"
    by (simp add: failing_executable_def)
  have retries: "bsc_max_retries failing_config \<noteq> 0" by (simp add: failing_config_def)
  have "\<exists>e s' l. start_process_thread failing_env failing_executable ?s = Some (e, s') \<and>
      ps_log s' = [] @ l \<and> length (launches l) \<le> unat (bsc_max_retries failing_config) + 1"
    using restarts_bounded[OF first _ retries policy] failing_ends[folded i] by auto
  then show ?thesis by (auto simp: failing_config_def)
qed

text \<open>One that runs until it is asked to terminate, and for which a cancellation is sent after five
  nanoseconds. The world is whether it runs, and the time.\<close>

definition stopped_env :: "(bool \<times> nat) proc_env" where
  "stopped_env =
     \<lparr>px_time = snd, px_sys_time = \<lambda>w. int (snd w),
      px_cancelled = \<lambda>d (run, t). (5 \<le> t, (run, if 5 \<le> t then t else t + d)),
      px_spawn = \<lambda>(_, t). (Inr (), (True, t + 1)), px_running = \<lambda>w. (fst w, w),
      px_terminate = \<lambda>(_, t). (Inr (), (False, t)), px_kill = \<lambda>(_, t). (Inr (), (False, t)),
      px_sleep = \<lambda>d (run, t). (run, t + d),
      px_wait = \<lambda>w. (Inr \<lparr>es_code = None, es_fmt = ''signal: 15''\<rparr>, w)\<rparr>"

definition stopped_run :: "(thread_end \<times> (bool \<times> nat) proc_state) option" where
  "stopped_run =
     start_process_thread stopped_env (executable_data_new 0 ''x'' ''/bin/x'') \<lparr>ps_world = (False, 0), ps_log = []\<rparr>"

lemma stopped_env_steady: "steady_clock stopped_env"
  by (auto simp: steady_clock_def stopped_env_def)

lemma stopped_env_sent: "stop_sent stopped_env (\<lambda>_. True) 5"
  by (auto simp: stop_sent_def stopped_env_def)

lemma stopped_env_works: "shutdown_works stopped_env d"
  unfolding shutdown_works_def
proof (intro allI impI)
  fix s r s'
  assume "shutdown stopped_env d s = Some (r, s')"
  then show "\<not> fst (px_running stopped_env (ps_world s'))"
    by (auto simp: shutdown_def is_running_after_timeout_def running_until.simps stopped_env_def on_world_def
      proc_log_def split: prod.splits if_splits)
qed

theorem cancelled_launches_nothing_witness:
  "\<exists>e s'. stopped_run = Some (e, s') \<and> quiet_after_cancel (ps_log s') \<and>
     (e = EndCancelled \<longleftrightarrow> ProcCancelSeen \<in> set (ps_log s'))"
proof -
  let ?x = "executable_data_new 0 ''x'' ''/bin/x''" and ?s = "\<lparr>ps_world = (False, 0 :: nat), ps_log = []\<rparr>"
  have "\<forall>w. isl (fst (px_wait stopped_env w)) = False" by (simp add: stopped_env_def)
  note run = cancelled_launches_nothing[OF this, of ?x ?s "\<lambda>_. True" 5]
  then obtain e s' where ended: "start_process_thread stopped_env ?x ?s = Some (e, s')"
    using stopped_env_steady stopped_env_sent stopped_env_works by auto
  from mp[OF spec[OF spec[OF conjunct1[OF run]]] ended] obtain l where "ps_log s' = ps_log ?s @ l"
    "quiet_after_cancel l" "e = EndCancelled \<longleftrightarrow> ProcCancelSeen \<in> set l" by (elim exE conjE) (rule that, assumption+)
  with ended show ?thesis unfolding stopped_run_def by auto
qed

definition sleepy_env :: "nat proc_env" where
  "sleepy_env = failing_env\<lparr>px_time := id, px_running := \<lambda>w. (True, w), px_sleep := \<lambda>d w. w + d\<rparr>"

theorem shutdown_returns_witness:
  "\<exists>r s'. shutdown sleepy_env (from_secs 10) \<lparr>ps_world = 0, ps_log = []\<rparr> = Some (r, s') \<and>
     (r = Inr () \<longrightarrow> (\<exists>w. px_running sleepy_env w = (False, ps_world s')) \<or> ProcKilled \<in> set (ps_log s'))"
  by (rule shutdown_returns) (simp add: steady_clock_def sleepy_env_def)

end
