(* ===== verification/Agent_Variables.thy ===== *)
theory Agent_Variables
  imports Text_Json Remote_Config
begin

text \<open>
  The variables of an agent type (\<open>agent_type/variable.rs\<close> and its submodules,
  \<open>agent_type/trivial_value.rs\<close>, the trees of \<open>agent_type/definition.rs\<close>): their types, defaults and
  variants, the constraints applied to them at startup, and the trees they are organised in, filled with
  the values of a configuration and flattened into names separated by dots.

  The libraries are the record \<open>serde_libs\<close>: printing a value as YAML, parsing YAML, the message for a value
  that does not have the expected type, and the Unicode tables for the characters beyond ASCII that are
  decimal digits or alphanumeric.
\<close>

section \<open>Values\<close>

record serde_libs =
  sl_yaml_to_string :: "json \<Rightarrow> string"
  sl_yaml_from_str :: "string \<Rightarrow> string + json"
  sl_invalid_type :: "string \<Rightarrow> json \<Rightarrow> string"
  sl_unicode_digit :: "string \<Rightarrow> bool"
  sl_unicode_alphanumeric :: "string \<Rightarrow> bool"

datatype agent_type_error =
    Serialization string
  | ValueConversion string
  | MissingValue string
  | UnexpectedValueForKey string string
  | MissingTemplateKey string
  | ParseVariables string
  | ValuesNotPopulated "string list"
  | ValueNotParseableFromString string
  | UnknownBackoffStrategyType string
  | InvalidVariant string
  | RenderingTemplate string
  | OCIReferenceParsingError string

datatype trivial_value =
    TvString string
  | TvBool bool
  | TvNumber json_number
  | TvYaml json
  | TvMapStringString "(string \<times> string) list"
  | TvMapStringYaml "(string \<times> json) list"

fun to_yaml_value :: "trivial_value \<Rightarrow> json option" where
  "to_yaml_value (TvYaml y) = Some y"
| "to_yaml_value _ = None"

fun trivial_value_fmt :: "serde_libs \<Rightarrow> trivial_value \<Rightarrow> string" where
  "trivial_value_fmt L (TvString s) = s"
| "trivial_value_fmt L (TvYaml y) = sl_yaml_to_string L y"
| "trivial_value_fmt L (TvBool b) = (if b then ''true'' else ''false'')"
| "trivial_value_fmt L (TvNumber n) = json_number_fmt n"
| "trivial_value_fmt L (TvMapStringString m) = join '' '' (map (\<lambda>(k, v). k @ ''='' @ v) m)"
| "trivial_value_fmt L (TvMapStringYaml m) = sl_yaml_to_string L (JObject m)"

section \<open>Fields and types\<close>

record 'a fields_definition =
  fd_required :: bool
  fd_default :: "'a option"

record 'a fields =
  f_required :: bool
  f_default :: "'a option"
  f_final_value :: "'a option"

type_synonym variants = "string list"

record variants_config =
  vc_ac_config_field :: "string option"
  vc_values :: variants

record string_fields_definition =
  sfd_inner :: "string fields_definition"
  sfd_variants :: variants_config

record string_fields =
  sf_inner :: "string fields"
  sf_variants :: variants

type_synonym variants_constraints = "(string \<times> string list) list"

text \<open>Deserializing the fields of a variable: a required one has no default, any other has one, and for YAML
  variables it is \<open>null\<close> unless it is given.\<close>

definition fields_definition_deserialize :: "bool \<Rightarrow> 'a option \<Rightarrow> agent_type_error + 'a fields_definition" where
  "fields_definition_deserialize required dflt =
     (if required \<and> dflt \<noteq> None
      then Inl (ParseVariables ''default value cannot be specified for a required spec key'')
      else if dflt = None \<and> \<not> required
      then Inl (ParseVariables ''missing default value for a non-required spec key'')
      else Inr \<lparr>fd_required = required, fd_default = dflt\<rparr>)"

definition yaml_fields_definition_deserialize ::
  "bool \<Rightarrow> json option \<Rightarrow> agent_type_error + json fields_definition" where
  "yaml_fields_definition_deserialize required dflt =
     (if required \<and> dflt \<noteq> None
      then Inl (ParseVariables ''default value cannot be specified for a required spec key'')
      else Inr \<lparr>fd_required = required,
                fd_default = (if \<not> required \<and> dflt = None then Some JNull else dflt)\<rparr>)"

definition variants_is_valid :: "variants \<Rightarrow> string \<Rightarrow> bool" where
  "variants_is_valid vs value \<longleftrightarrow> vs = [] \<or> value \<in> set vs"

definition variants_fmt :: "variants \<Rightarrow> string" where
  "variants_fmt vs = ''['' @ join '', '' vs @ '']''"

definition fields_with_config :: "'a fields_definition \<Rightarrow> 'a fields" where
  "fields_with_config d = \<lparr>f_required = fd_required d, f_default = fd_default d, f_final_value = None\<rparr>"

definition build_variants :: "variants_constraints \<Rightarrow> string_fields_definition \<Rightarrow> variants" where
  "build_variants constraints d =
     (case vc_ac_config_field (sfd_variants d) of
        None \<Rightarrow> vc_values (sfd_variants d)
      | Some field \<Rightarrow>
          (case map_of constraints field of
             None \<Rightarrow> vc_values (sfd_variants d)
           | Some supported_values \<Rightarrow> supported_values))"

definition string_fields_with_config :: "variants_constraints \<Rightarrow> string_fields_definition \<Rightarrow> string_fields" where
  "string_fields_with_config constraints d =
     \<lparr>sf_inner = fields_with_config (sfd_inner d), sf_variants = build_variants constraints d\<rparr>"

definition set_final_value :: "'a \<Rightarrow> 'a fields \<Rightarrow> 'a fields" where
  "set_final_value v f = f\<lparr>f_final_value := Some v\<rparr>"

definition string_set_final_value :: "string \<Rightarrow> string_fields \<Rightarrow> agent_type_error + string_fields" where
  "string_set_final_value v f =
     (if \<not> variants_is_valid (sf_variants f) v then Inl (InvalidVariant (variants_fmt (sf_variants f)))
      else Inr (f\<lparr>sf_inner := set_final_value v (sf_inner f)\<rparr>))"

datatype variable_type_definition =
    StringDefinition string_fields_definition
  | BoolDefinition "bool fields_definition"
  | NumberDefinition "json_number fields_definition"
  | MapStringYamlDefinition "(string \<times> json) list fields_definition"
  | YamlDefinition "json fields_definition"

datatype variable_type =
    StringType string_fields
  | BoolType "bool fields"
  | NumberType "json_number fields"
  | MapStringYamlType "(string \<times> json) list fields"
  | YamlType "json fields"

fun variable_type_with_config :: "variants_constraints \<Rightarrow> variable_type_definition \<Rightarrow> variable_type" where
  "variable_type_with_config c (StringDefinition v) = StringType (string_fields_with_config c v)"
| "variable_type_with_config c (BoolDefinition v) = BoolType (fields_with_config v)"
| "variable_type_with_config c (NumberDefinition v) = NumberType (fields_with_config v)"
| "variable_type_with_config c (MapStringYamlDefinition v) = MapStringYamlType (fields_with_config v)"
| "variable_type_with_config c (YamlDefinition v) = YamlType (fields_with_config v)"

fun is_required :: "variable_type \<Rightarrow> bool" where
  "is_required (StringType f) = f_required (sf_inner f)"
| "is_required (BoolType f) = f_required f"
| "is_required (NumberType f) = f_required f"
| "is_required (MapStringYamlType f) = f_required f"
| "is_required (YamlType f) = f_required f"

text \<open>\<open>serde_json::from_value\<close> at the types of the variables.\<close>

definition json_string :: "serde_libs \<Rightarrow> json \<Rightarrow> agent_type_error + string" where
  "json_string L j = (case j of JString s \<Rightarrow> Inr s | _ \<Rightarrow> Inl (ValueConversion (sl_invalid_type L ''a string'' j)))"

definition json_bool :: "serde_libs \<Rightarrow> json \<Rightarrow> agent_type_error + bool" where
  "json_bool L j = (case j of JBool b \<Rightarrow> Inr b | _ \<Rightarrow> Inl (ValueConversion (sl_invalid_type L ''a boolean'' j)))"

definition json_num :: "serde_libs \<Rightarrow> json \<Rightarrow> agent_type_error + json_number" where
  "json_num L j = (case j of JNumber n \<Rightarrow> Inr n | _ \<Rightarrow> Inl (ValueConversion (sl_invalid_type L ''a JSON number'' j)))"

definition json_map :: "serde_libs \<Rightarrow> json \<Rightarrow> agent_type_error + (string \<times> json) list" where
  "json_map L j = (case j of JObject m \<Rightarrow> Inr m | _ \<Rightarrow> Inl (ValueConversion (sl_invalid_type L ''a map'' j)))"

fun type_merge_with_yaml_value :: "serde_libs \<Rightarrow> json \<Rightarrow> variable_type \<Rightarrow> agent_type_error + variable_type" where
  "type_merge_with_yaml_value L j (StringType f) =
     rbind (json_string L j) (\<lambda>v. map_ok StringType (string_set_final_value v f))"
| "type_merge_with_yaml_value L j (BoolType f) =
     rbind (json_bool L j) (\<lambda>v. Inr (BoolType (set_final_value v f)))"
| "type_merge_with_yaml_value L j (NumberType f) =
     rbind (json_num L j) (\<lambda>v. Inr (NumberType (set_final_value v f)))"
| "type_merge_with_yaml_value L j (MapStringYamlType f) =
     rbind (json_map L j) (\<lambda>v. Inr (MapStringYamlType (set_final_value v f)))"
| "type_merge_with_yaml_value L j (YamlType f) = Inr (YamlType (set_final_value j f))"

definition final_or_default :: "'a fields \<Rightarrow> 'a option" where
  "final_or_default f = (case f_final_value f of Some v \<Rightarrow> Some v | None \<Rightarrow> f_default f)"

fun type_get_final_value :: "variable_type \<Rightarrow> trivial_value option" where
  "type_get_final_value (StringType f) = map_option TvString (final_or_default (sf_inner f))"
| "type_get_final_value (BoolType f) = map_option TvBool (final_or_default f)"
| "type_get_final_value (NumberType f) = map_option TvNumber (final_or_default f)"
| "type_get_final_value (MapStringYamlType f) = map_option TvMapStringYaml (final_or_default f)"
| "type_get_final_value (YamlType f) = map_option TvYaml (final_or_default f)"

section \<open>Variables\<close>

record variable_definition =
  vd_description :: string
  vd_variable_type :: variable_type_definition

record variable =
  v_description :: string
  v_variable_type :: variable_type

definition variable_with_config :: "variants_constraints \<Rightarrow> variable_definition \<Rightarrow> variable" where
  "variable_with_config c d =
     \<lparr>v_description = vd_description d, v_variable_type = variable_type_with_config c (vd_variable_type d)\<rparr>"

definition new_final_string_variable :: "string \<Rightarrow> variable" where
  "new_final_string_variable s =
     \<lparr>v_description = '''',
      v_variable_type =
        StringType \<lparr>sf_inner = \<lparr>f_required = False, f_default = None, f_final_value = Some s\<rparr>, sf_variants = []\<rparr>\<rparr>"

definition get_final_value :: "variable \<Rightarrow> trivial_value option" where
  "get_final_value v = type_get_final_value (v_variable_type v)"

definition merge_with_yaml_value :: "serde_libs \<Rightarrow> json \<Rightarrow> variable \<Rightarrow> agent_type_error + variable" where
  "merge_with_yaml_value L j v =
     map_ok (\<lambda>t. v\<lparr>v_variable_type := t\<rparr>) (type_merge_with_yaml_value L j (v_variable_type v))"

section \<open>Namespaces\<close>

datatype namespace = NsVariable | NsSubAgent | NsAgentControl | NsEnvironmentVariable | NsVault | NsFile | NsK8sSecret

fun namespace_fmt :: "namespace \<Rightarrow> string" where
  "namespace_fmt NsVariable = ''nr-var''"
| "namespace_fmt NsSubAgent = ''nr-sub''"
| "namespace_fmt NsAgentControl = ''nr-ac''"
| "namespace_fmt NsEnvironmentVariable = ''nr-env''"
| "namespace_fmt NsVault = ''nr-vault''"
| "namespace_fmt NsFile = ''nr-file''"
| "namespace_fmt NsK8sSecret = ''nr-kubesec''"

definition namespaced_name :: "namespace \<Rightarrow> string \<Rightarrow> string" where
  "namespaced_name ns name = namespace_fmt ns @ '':'' @ name"

definition is_secret_variable :: "string \<Rightarrow> bool" where
  "is_secret_variable s \<longleftrightarrow>
     list_ex (\<lambda>ns. starts_with (namespace_fmt ns) s) [NsVault, NsK8sSecret, NsFile, NsEnvironmentVariable]"

section \<open>Trees\<close>

datatype 'a tree = TreeEnd 'a | TreeMapping "(string \<times> 'a tree) list"

type_synonym 'a var_tree = "(string \<times> 'a tree) list"

fun tree_with_config :: "variants_constraints \<Rightarrow> variable_definition tree \<Rightarrow> variable tree" where
  "tree_with_config c (TreeEnd v) = TreeEnd (variable_with_config c v)"
| "tree_with_config c (TreeMapping m) = TreeMapping (map (\<lambda>(k, v). (k, tree_with_config c v)) m)"

definition var_tree_with_config :: "variants_constraints \<Rightarrow> variable_definition var_tree \<Rightarrow> variable var_tree" where
  "var_tree_with_config c m = map (\<lambda>(k, v). (k, tree_with_config c v)) m"

abbreviation values_size :: "(string \<times> json) list \<Rightarrow> nat" where
  "values_size \<equiv> size_list (size_prod (\<lambda>_. 0) size)"

text \<open>Values for names that are no variables are skipped with a warning.\<close>

function update_specs ::
  "serde_libs \<Rightarrow> (string \<times> json) list \<Rightarrow> variable var_tree \<Rightarrow> agent_type_error + variable var_tree" where
  "update_specs L [] vars = Inr vars"
| "update_specs L ((key, value) # vs) vars =
     (case map_of vars key of
        None \<Rightarrow> update_specs L vs vars
      | Some (TreeEnd e) \<Rightarrow>
          rbind (merge_with_yaml_value L value e)
            (\<lambda>e. update_specs L vs (AList.update key (TreeEnd e) vars))
      | Some (TreeMapping m) \<Rightarrow>
          rbind (case value of
                   JObject v \<Rightarrow> update_specs L v m
                 | _ \<Rightarrow> Inl (ValueConversion (sl_invalid_type L ''a map'' value)))
            (\<lambda>m. update_specs L vs (AList.update key (TreeMapping m) vars)))"
  by pat_completeness auto
termination by (relation "measure (\<lambda>(_, vs, _). values_size vs)") simp_all

definition fill_with_values ::
  "serde_libs \<Rightarrow> json yaml_config \<Rightarrow> variable var_tree \<Rightarrow> agent_type_error + variable var_tree" where
  "fill_with_values L vs vars = update_specs L vs vars"

fun inner_flatten :: "string \<Rightarrow> 'a tree \<Rightarrow> (string \<times> 'a) list" where
  "inner_flatten key (TreeEnd s) = [(key, s)]"
| "inner_flatten key (TreeMapping m) =
     fold (\<lambda>kvs r. hm_extend r kvs) (map (\<lambda>(k, v). inner_flatten (key @ ''.'' @ k) v) m) []"

definition flatten :: "'a var_tree \<Rightarrow> (string \<times> 'a) list" where
  "flatten m = hm_collect (concat (map (\<lambda>(k, v). inner_flatten k v) m))"

section \<open>Filling a tree\<close>

text \<open>The variable at a path of names, and the value a configuration gives for it.\<close>

fun tree_at :: "string list \<Rightarrow> 'a var_tree \<Rightarrow> 'a option" where
  "tree_at [] m = None"
| "tree_at (k # ks) m =
     (case map_of m k of
        None \<Rightarrow> None
      | Some (TreeEnd a) \<Rightarrow> if ks = [] then Some a else None
      | Some (TreeMapping m') \<Rightarrow> tree_at ks m')"

fun value_at :: "string list \<Rightarrow> (string \<times> json) list \<Rightarrow> json option" where
  "value_at [] vs = None"
| "value_at [k] vs = map_of vs k"
| "value_at (k # k' # ks) vs = (case map_of vs k of Some (JObject m) \<Rightarrow> value_at (k' # ks) m | _ \<Rightarrow> None)"

declare tree_at.simps(2) [simp del]

text \<open>The value a variable takes from JSON, if that has its type and is one of its variants.\<close>

fun typed_value :: "variable_type \<Rightarrow> json \<Rightarrow> trivial_value option" where
  "typed_value (StringType f) (JString s) =
     (if variants_is_valid (sf_variants f) s then Some (TvString s) else None)"
| "typed_value (BoolType _) (JBool b) = Some (TvBool b)"
| "typed_value (NumberType _) (JNumber n) = Some (TvNumber n)"
| "typed_value (MapStringYamlType _) (JObject m) = Some (TvMapStringYaml m)"
| "typed_value (YamlType _) j = Some (TvYaml j)"
| "typed_value _ _ = None"

text \<open>What is declared of a variable: everything but its value.\<close>

definition undeclared :: "'a fields \<Rightarrow> 'a fields" where
  "undeclared f = f\<lparr>f_final_value := None\<rparr>"

fun type_declaration :: "variable_type \<Rightarrow> variable_type" where
  "type_declaration (StringType f) = StringType (f\<lparr>sf_inner := undeclared (sf_inner f)\<rparr>)"
| "type_declaration (BoolType f) = BoolType (undeclared f)"
| "type_declaration (NumberType f) = NumberType (undeclared f)"
| "type_declaration (MapStringYamlType f) = MapStringYamlType (undeclared f)"
| "type_declaration (YamlType f) = YamlType (undeclared f)"

definition var_declaration :: "variable \<Rightarrow> variable" where
  "var_declaration v = v\<lparr>v_variable_type := type_declaration (v_variable_type v)\<rparr>"

text \<open>The values of a configuration conform to the variables.\<close>

function conforms :: "variable var_tree \<Rightarrow> (string \<times> json) list \<Rightarrow> bool" where
  "conforms vars [] = True"
| "conforms vars ((key, value) # vs) =
     ((case map_of vars key of
         None \<Rightarrow> True
       | Some (TreeEnd e) \<Rightarrow> typed_value (v_variable_type e) value \<noteq> None
       | Some (TreeMapping m) \<Rightarrow> (case value of JObject v \<Rightarrow> conforms m v | _ \<Rightarrow> False))
      \<and> conforms vars vs)"
  by pat_completeness auto
termination by (relation "measure (\<lambda>(_, vs). values_size vs)") simp_all

lemma type_merge_result:
  "case typed_value t j of
     None \<Rightarrow> \<exists>e. type_merge_with_yaml_value L j t = Inl e
   | Some x \<Rightarrow> \<exists>t'. type_merge_with_yaml_value L j t = Inr t' \<and> type_declaration t' = type_declaration t \<and>
       type_get_final_value t' = Some x"
  by (cases "(t, j)" rule: typed_value.cases)
    (auto simp: json_string_def json_bool_def json_num_def json_map_def string_set_final_value_def
      set_final_value_def final_or_default_def undeclared_def)

lemma merge_result:
  "case typed_value (v_variable_type v) j of
     None \<Rightarrow> \<exists>e. merge_with_yaml_value L j v = Inl e
   | Some x \<Rightarrow> \<exists>v'. merge_with_yaml_value L j v = Inr v' \<and> var_declaration v' = var_declaration v \<and> get_final_value v' = Some x"
  using type_merge_result[where t = "v_variable_type v" and j = j and L = L]
  by (auto simp: merge_with_yaml_value_def var_declaration_def get_final_value_def split: option.splits)

text \<open>The relation between a variable before and after it was filled.\<close>

definition filled :: "string list \<Rightarrow> (string \<times> json) list \<Rightarrow> variable \<Rightarrow> variable \<Rightarrow> bool" where
  "filled p vs v v' \<longleftrightarrow>
     (case value_at p vs of
        None \<Rightarrow> v' = v
      | Some j \<Rightarrow> var_declaration v' = var_declaration v \<and> typed_value (v_variable_type v) j \<noteq> None \<and>
          get_final_value v' = typed_value (v_variable_type v) j)"

lemma value_at_Nil [simp]: "value_at p [] = None"
proof (cases p)
  case (Cons k ks)
  then show ?thesis by (cases ks) simp_all
qed simp

lemma value_at_Cons:
  "value_at (k # ks) ((key, value) # vs) =
     (if k = key then if ks = [] then Some value else (case value of JObject m \<Rightarrow> value_at ks m | _ \<Rightarrow> None)
      else value_at (k # ks) vs)"
  by (cases ks) (auto split: json.splits)

lemma value_at_no_key: "k \<notin> fst ` set vs \<Longrightarrow> value_at (k # ks) vs = None"
  by (cases ks) (simp_all add: map_of_eq_None_iff[THEN iffD2])

fun child_at :: "string list \<Rightarrow> 'a tree \<Rightarrow> 'a option" where
  "child_at ks (TreeEnd a) = (if ks = [] then Some a else None)"
| "child_at ks (TreeMapping m) = tree_at ks m"

lemma tree_at_Cons: "tree_at (k # ks) m = Option.bind (map_of m k) (child_at ks)"
  by (auto simp: tree_at.simps split: option.splits tree.splits)

lemma conforms_update:
  "key \<notin> fst ` set vs \<Longrightarrow> conforms (AList.update key t vars) vs = conforms vars vs"
  by (induction vars vs rule: conforms.induct) (auto split: option.splits tree.splits json.splits)

lemma rel_filled_no_value:
  "value_at p vs = None \<Longrightarrow> rel_option (filled p vs) a b \<longleftrightarrow> b = a"
  by (cases a; cases b) (auto simp: filled_def)

lemma filled_Cons_other: "k \<noteq> key \<Longrightarrow> filled (k # ks) ((key, value) # vs) = filled (k # ks) vs"
  by (simp add: filled_def fun_eq_iff value_at_Cons)

lemma filled_Cons_object: "ks \<noteq> [] \<Longrightarrow> filled (key # ks) ((key, JObject v) # vs) = filled ks v"
  by (simp add: filled_def fun_eq_iff value_at_Cons)

text \<open>One entry: the subtree it belongs to, and the others.\<close>

lemma filled_step:
  assumes "key \<notin> fst ` set vs" and "map_of vars key = Some t"
    and "\<forall>p. rel_option (filled p vs) (tree_at p (AList.update key t' vars)) (tree_at p vars')"
    and "\<And>ks. rel_option (filled (key # ks) ((key, value) # vs)) (child_at ks t) (child_at ks t')"
  shows "rel_option (filled p ((key, value) # vs)) (tree_at p vars) (tree_at p vars')"
proof (cases p)
  case (Cons k ks)
  have r: "rel_option (filled p vs) (tree_at p (AList.update key t' vars)) (tree_at p vars')" using assms(3) by blast
  show ?thesis
  proof (cases "k = key")
    case True
    have "tree_at p vars' = child_at ks t'"
      using r Cons True value_at_no_key[OF assms(1)] by (simp add: rel_filled_no_value tree_at_Cons)
    with assms(2,4) Cons True show ?thesis by (simp add: tree_at_Cons)
  next
    case False
    with r Cons show ?thesis by (simp add: filled_Cons_other tree_at_Cons)
  qed
qed simp

lemma filled_unknown:
  assumes "key \<notin> fst ` set vs" and "map_of vars key = None"
    and "\<forall>p. rel_option (filled p vs) (tree_at p vars) (tree_at p vars')"
  shows "rel_option (filled p ((key, value) # vs)) (tree_at p vars) (tree_at p vars')"
proof (cases p)
  case (Cons k ks)
  have r: "rel_option (filled p vs) (tree_at p vars) (tree_at p vars')" using assms(3) by blast
  show ?thesis
  proof (cases "k = key")
    case True
    with r Cons assms(2) value_at_no_key[OF assms(1)] show ?thesis
      by (simp add: rel_filled_no_value tree_at_Cons)
  next
    case False
    with r Cons show ?thesis by (simp add: filled_Cons_other)
  qed
qed simp

lemma update_specs_result:
  assumes "json_ok (JObject vs)"
  shows "case update_specs L vs vars of
      Inl _ \<Rightarrow> \<not> conforms vars vs
    | Inr vars' \<Rightarrow> conforms vars vs \<and> (\<forall>p. rel_option (filled p vs) (tree_at p vars) (tree_at p vars'))"
  using assms
proof (induction L vs vars rule: update_specs.induct)
  case (1 L vars)
  then show ?case by (simp add: rel_filled_no_value)
next
  case (2 L key val vs vars)
  have key: "key \<notin> fst ` set vs" and ok: "json_ok val" "json_ok (JObject vs)" using "2.prems" by auto
  show ?case
  proof (cases "map_of vars key")
    case None
    with "2.IH"(1)[OF None ok(2)] show ?thesis
      by (auto split: sum.splits intro: filled_unknown[OF key None])
  next
    case (Some t)
    show ?thesis
    proof (cases t)
      case (TreeEnd e)
      show ?thesis
      proof (cases "typed_value (v_variable_type e) val")
        case None
        with merge_result[where v = e and j = val and L = L] Some TreeEnd show ?thesis by auto
      next
        case (Some x)
        with merge_result[where v = e and j = val and L = L] obtain e' where
          e': "merge_with_yaml_value L val e = Inr e'" "var_declaration e' = var_declaration e" "get_final_value e' = Some x"
          by auto
        have child: "rel_option (filled (key # ks) ((key, val) # vs)) (child_at ks t) (child_at ks (TreeEnd e'))" for ks
          using TreeEnd e' Some by (simp add: filled_def value_at_Cons)
        from "2.IH"(2)[OF \<open>map_of vars key = Some t\<close> TreeEnd ok(2), where ?x = e'] key
        show ?thesis using TreeEnd e'(1) \<open>map_of vars key = Some t\<close> Some
          by (auto simp: conforms_update split: sum.splits intro: filled_step[OF key \<open>map_of vars key = Some t\<close> _ child])
      qed
    next
      case (TreeMapping m)
      show ?thesis
      proof (cases "\<exists>v. val = JObject v")
        case False
        with Some TreeMapping show ?thesis by (auto split: json.splits)
      next
        case True
        then obtain v where v: "val = JObject v" by blast
        note inner = "2.IH"(3)[OF Some TreeMapping v]
        show ?thesis
        proof (cases "update_specs L v m")
          case (Inl err)
          with inner ok(1) v Some TreeMapping show ?thesis by simp
        next
          case (Inr m')
          with inner ok(1) v have c: "conforms m v" and r: "rel_option (filled p v) (tree_at p m) (tree_at p m')" for p
            by simp_all
          have child: "rel_option (filled (key # ks) ((key, val) # vs)) (child_at ks t) (child_at ks (TreeMapping m'))" for ks
            using TreeMapping v r[of ks] by (cases ks) (simp_all add: filled_Cons_object)
          from "2.IH"(4)[OF Some TreeMapping ok(2), where ?x = m'] key
          show ?thesis using TreeMapping v Some Inr c
            by (auto simp: conforms_update split: sum.splits intro: filled_step[OF key Some _ child[unfolded v]])
        qed
      qed
    qed
  qed
qed

text \<open>C14. Filling the variables of an agent type with the values of a configuration succeeds exactly if every value given for a
  variable has its type and is one of its variants, and every group of variables is given an object. Then
  no variable appears or disappears or changes its declaration; a variable for which a value is given has
  that value, and any other variable is left exactly as it was: a required one without a value stays
  without one, and a default is not checked against the variants.\<close>

theorem filled_variables_typed:
  assumes "json_ok (JObject vs)"
  shows "((\<exists>vars'. fill_with_values L vs vars = Inr vars') \<longleftrightarrow> conforms vars vs) \<and>
    (\<forall>vars' p. fill_with_values L vs vars = Inr vars' \<longrightarrow>
       (tree_at p vars' = None \<longleftrightarrow> tree_at p vars = None) \<and>
       (\<forall>v v'. tree_at p vars = Some v \<and> tree_at p vars' = Some v' \<longrightarrow>
          var_declaration v' = var_declaration v \<and>
          (case value_at p vs of
             Some j \<Rightarrow> typed_value (v_variable_type v) j \<noteq> None \<and> get_final_value v' = typed_value (v_variable_type v) j
           | None \<Rightarrow> v' = v)))"
proof (cases "fill_with_values L vs vars")
  case (Inl e)
  with update_specs_result[OF assms, where L = L and vars = vars] show ?thesis by (simp add: fill_with_values_def)
next
  case (Inr vars')
  with update_specs_result[OF assms, where L = L and vars = vars]
  have "conforms vars vs" and r: "\<And>p. rel_option (filled p vs) (tree_at p vars) (tree_at p vars')"
    by (simp_all add: fill_with_values_def)
  moreover have "tree_at p vars' = None \<longleftrightarrow> tree_at p vars = None" for p
    using r[of p] by (cases "tree_at p vars"; cases "tree_at p vars'") auto
  moreover have "filled p vs v v'" if "tree_at p vars = Some v" "tree_at p vars' = Some v'" for p v v'
    using r[of p] that by simp
  ultimately show ?thesis using Inr by (fastforce simp: filled_def split: option.splits)
qed

section \<open>Flattening a tree\<close>

text \<open>Names are distinct and contain no dot.\<close>

fun tree_ok :: "'a tree \<Rightarrow> bool" where
  "tree_ok (TreeEnd _) = True"
| "tree_ok (TreeMapping m) =
     (distinct (map fst m) \<and> list_all (\<lambda>(k, t). CHR ''.'' \<notin> set k \<and> tree_ok t) m)"

lemma hm_extend_append: "hm_extend m (xs @ ys) = hm_extend (hm_extend m xs) ys"
  by (simp add: hm_extend_def)

lemma hm_extend_concat: "hm_extend m (concat ls) = fold (\<lambda>kvs r. hm_extend r kvs) ls m"
  by (induction ls arbitrary: m) (simp_all add: hm_extend_append)

lemma amap_ok_fold_extend: "amap_ok m \<Longrightarrow> amap_ok (fold (\<lambda>kvs r. hm_extend r kvs) ls m)"
  by (induction ls arbitrary: m) simp_all

lemma amap_ok_inner_flatten: "amap_ok (inner_flatten key t)"
  by (cases t) (simp_all add: amap_ok_fold_extend)

text \<open>Extending by the maps of several names, of which only one can hold the key looked up.\<close>

lemma map_of_fold_extend:
  assumes "distinct (map fst m)" and "\<forall>(k, t) \<in> set m. amap_ok (f k t) \<and> (map_of (f k t) x = (if k = h then g t else None))"
  shows "map_of (fold (\<lambda>kvs r. hm_extend r kvs) (map (\<lambda>(k, t). f k t) m) r) x =
    (case Option.bind (map_of m h) g of Some y \<Rightarrow> Some y | None \<Rightarrow> map_of r x)"
  using assms
proof (induction m arbitrary: r)
  case (Cons kt m)
  obtain k t where kt: "kt = (k, t)" by (cases kt)
  have f: "map_of (hm_extend r (f k t)) x = (if k = h \<and> g t \<noteq> None then g t else map_of r x)"
    using Cons.prems(2) kt by (auto simp: map_of_hm_extend_distinct map_add_def split: option.splits)
  have "k = h \<Longrightarrow> map_of m h = None" using Cons.prems(1) kt by (auto simp: map_of_eq_None_iff)
  with Cons.IH[of "hm_extend r (f k t)"] Cons.prems kt f show ?case by (auto split: option.splits)
qed simp

lemma split_on_eq_single: "CHR ''.'' \<notin> set k \<Longrightarrow> r = k \<longleftrightarrow> split_on (CHR ''.'') r = [k]"
  by (metis join.simps(2) join_split_on split_on_no_sep)

lemma strip_prefix_append_None: "strip_prefix a x = None \<Longrightarrow> strip_prefix (a @ b) x = None"
  by (induction a x rule: strip_prefix.induct) (auto split: if_splits)

lemma strip_prefix_self: "strip_prefix a (a @ b) = Some b"
  by (simp add: strip_prefix_Some)

text \<open>A name below another: both ways of saying that the first part of \<open>r\<close> is \<open>k\<close>.\<close>

lemma strip_split:
  assumes "CHR ''.'' \<notin> set k" and "split_on (CHR ''.'') r = h # hs"
  shows "Option.bind (strip_prefix (k @ ''.'') r) (\<lambda>r. tree_at (split_on (CHR ''.'') r) m) =
    (if k = h then child_at hs (TreeMapping m) else None)"
proof (cases "strip_prefix (k @ ''.'') r")
  case None
  have "h = k \<Longrightarrow> hs = []"
  proof (rule ccontr)
    assume "h = k" "hs \<noteq> []"
    with join_split_on[of "CHR ''.''" r] assms(2) have "r = (k @ ''.'') @ join [CHR ''.''] hs" by (cases hs) auto
    with None strip_prefix_self[of "k @ ''.''" "join [CHR ''.''] hs"] show False by simp
  qed
  with None show ?thesis by auto
next
  case (Some r')
  then have "r = k @ CHR ''.'' # r'" by (simp add: strip_prefix_Some)
  then have "h = k" "hs = split_on (CHR ''.'') r'" using assms by (simp_all add: split_on_append)
  with Some show ?thesis by simp
qed

lemma strip_prefix_twice: "strip_prefix (a @ b) (a @ x) = strip_prefix b x"
  by (induction a) simp_all

lemma inner_flatten_lookup:
  assumes "tree_ok t"
  shows "map_of (inner_flatten key t) x =
    (case t of
       TreeEnd a \<Rightarrow> if x = key then Some a else None
     | TreeMapping m \<Rightarrow> Option.bind (strip_prefix (key @ ''.'') x) (\<lambda>r. tree_at (split_on (CHR ''.'') r) m))"
  using assms
proof (induction key t rule: inner_flatten.induct)
  case (2 key m)
  show ?case
  proof (cases "strip_prefix (key @ ''.'') x")
    case None
    have none: "map_of (inner_flatten (key @ ''.'' @ k) t) x = None" if "(k, t) \<in> set m" for k t
    proof -
      have "strip_prefix ((key @ ''.'' @ k) @ ''.'') x = None \<and> x \<noteq> key @ ''.'' @ k"
        using strip_prefix_append_None[OF None, of "k @ ''.''"] strip_prefix_self[of "key @ ''.''" k] None by auto
      then show ?thesis
        using "2.IH"[OF that refl] "2.prems" that by (auto simp: list_all_iff split: tree.splits)
    qed
    have "map_of (fold (\<lambda>kvs r. hm_extend r kvs) (map (\<lambda>(k, v). inner_flatten (key @ ''.'' @ k) v) m) []) x = None"
      using "2.prems" none
      by (subst map_of_fold_extend[where h = "[]" and g = "\<lambda>_. None"]) (auto simp: amap_ok_inner_flatten split: option.splits bind_splits)
    with None show ?thesis by simp
  next
    case (Some r)
    then have x: "x = key @ ''.'' @ r" by (simp add: strip_prefix_Some)
    obtain h hs where sp: "split_on (CHR ''.'') r = h # hs" by (cases "split_on (CHR ''.'') r") auto
    have child: "map_of (inner_flatten (key @ ''.'' @ k) t) x = (if k = h then child_at hs t else None)"
      if "(k, t) \<in> set m" for k t
    proof -
      have k: "CHR ''.'' \<notin> set k" "tree_ok t" using "2.prems" that by (auto simp: list_all_iff)
      show ?thesis
      proof (cases t)
        case (TreeEnd a)
        then show ?thesis using "2.IH"[OF that refl k(2)] x sp split_on_eq_single[OF k(1), of r] by auto
      next
        case (TreeMapping m')
        let ?p = "strip_prefix ((key @ ''.'' @ k) @ ''.'') x"
        have p: "?p = strip_prefix (k @ ''.'') r"
          using strip_prefix_twice[of "key @ ''.''" "k @ ''.''" r] by (simp add: x)
        have ih: "map_of (inner_flatten (key @ ''.'' @ k) t) x = Option.bind ?p (\<lambda>r. tree_at (split_on (CHR ''.'') r) m')"
          using "2.IH"[OF that refl k(2)] unfolding TreeMapping by (simp only: tree.case)
        show ?thesis using ih[unfolded p] strip_split[OF k(1) sp, of m', folded TreeMapping] by (rule trans)
      qed
    qed
    have "map_of (fold (\<lambda>kvs r. hm_extend r kvs) (map (\<lambda>(k, v). inner_flatten (key @ ''.'' @ k) v) m) []) x =
        Option.bind (map_of m h) (child_at hs)"
      using "2.prems" child
      by (subst map_of_fold_extend[where h = h and g = "child_at hs"]) (auto simp: amap_ok_inner_flatten split: option.splits)
    with Some sp show ?thesis by (simp add: tree_at_Cons)
  qed
qed simp

text \<open>C17. Flattening gives every variable the path of names that leads to it, separated by dots, for names without dots: the
  variable of a name is the one at the path the name splits into, so none is lost or confused.\<close>

theorem flatten_lookup:
  assumes "tree_ok (TreeMapping vars)"
  shows "amap_ok (flatten vars) \<and> map_of (flatten vars) name = tree_at (split_on (CHR ''.'') name) vars"
proof -
  obtain h hs where sp: "split_on (CHR ''.'') name = h # hs" by (cases "split_on (CHR ''.'') name") auto
  have child: "map_of (inner_flatten k t) name = (if k = h then child_at hs t else None)" if kt: "(k, t) \<in> set vars" for k t
  proof -
    have k: "CHR ''.'' \<notin> set k" "tree_ok t" using assms kt by (auto simp: list_all_iff)
    show ?thesis
    proof (cases t)
      case (TreeEnd a)
      then show ?thesis using sp split_on_eq_single[OF k(1), of name] by auto
    next
      case (TreeMapping m)
      have l: "map_of (inner_flatten k t) name =
          Option.bind (strip_prefix (k @ ''.'') name) (\<lambda>r. tree_at (split_on (CHR ''.'') r) m)"
        using inner_flatten_lookup[OF k(2), of k name] unfolding TreeMapping by (simp only: tree.case)
      show ?thesis using l strip_split[OF k(1) sp, of m, folded TreeMapping] by (rule trans)
    qed
  qed
  have "map_of (fold (\<lambda>kvs r. hm_extend r kvs) (map (\<lambda>(k, v). inner_flatten k v) vars) []) name =
      Option.bind (map_of vars h) (child_at hs)"
    using assms child
    by (subst map_of_fold_extend[where h = h and g = "child_at hs"]) (auto simp: amap_ok_inner_flatten split: option.splits)
  with sp show ?thesis by (simp add: flatten_def hm_extend_concat tree_at_Cons amap_ok_fold_extend)
qed

section \<open>An example\<close>

definition sample_libs :: serde_libs where
  "sample_libs = \<lparr>sl_yaml_to_string = \<lambda>_. [], sl_yaml_from_str = \<lambda>s. Inl s, sl_invalid_type = \<lambda>t _. t,
     sl_unicode_digit = \<lambda>_. False, sl_unicode_alphanumeric = \<lambda>_. False\<rparr>"

definition sample_vars :: "variable var_tree" where
  "sample_vars = var_tree_with_config [(''levels'', [''info'', ''debug''])]
     [(''system'', TreeMapping
        [(''level'', TreeEnd \<lparr>vd_description = [], vd_variable_type = StringDefinition
            \<lparr>sfd_inner = \<lparr>fd_required = False, fd_default = Some ''info''\<rparr>,
             sfd_variants = \<lparr>vc_ac_config_field = Some ''levels'', vc_values = []\<rparr>\<rparr>\<rparr>),
         (''port'', TreeEnd \<lparr>vd_description = [], vd_variable_type = NumberDefinition
            \<lparr>fd_required = True, fd_default = None\<rparr>\<rparr>)])]"

definition sample_values :: "string \<Rightarrow> json yaml_config" where
  "sample_values level = [(''system'', JObject [(''level'', JString level), (''port'', JNumber (IntNumber 80))])]"

theorem filled_variables_typed_witness:
  "(\<exists>vars'. fill_with_values sample_libs (sample_values ''debug'') sample_vars = Inr vars') \<and>
   \<not> (\<exists>vars'. fill_with_values sample_libs (sample_values ''trace'') sample_vars = Inr vars')"
proof -
  have "json_ok (JObject (sample_values ''debug''))" "json_ok (JObject (sample_values ''trace''))"
    "conforms sample_vars (sample_values ''debug'')" "\<not> conforms sample_vars (sample_values ''trace'')"
    by code_simp+
  then show ?thesis
    using filled_variables_typed[of "sample_values ''debug''" sample_libs sample_vars]
      filled_variables_typed[of "sample_values ''trace''" sample_libs sample_vars] by blast
qed

theorem flatten_lookup_witness:
  "\<exists>v. map_of (flatten sample_vars) ''system.level'' = Some v \<and> get_final_value v = Some (TvString ''info'')"
proof -
  have "tree_ok (TreeMapping sample_vars)"
    "map_option get_final_value (tree_at (split_on (CHR ''.'') ''system.level'') sample_vars) = Some (Some (TvString ''info''))"
    by code_simp+
  then show ?thesis using flatten_lookup[of sample_vars "''system.level''"] by auto
qed

end
