(* ===== verification/Oci_Package.thy ===== *)
theory Oci_Package
  imports Agent_Variables File_System
begin

text \<open>
  Packages of an agent type after rendering (\<open>agent_type/runtime_config/on_host/package/rendered.rs\<close>,
  \<open>package/manager.rs\<close>): the repositories and versions accepted, the reference they make, and the directories
  a package is kept in (\<open>package/oci/package_manager.rs\<close>).
\<close>

section \<open>Repositories\<close>

definition REPOSITORY_TOTAL_LENGTH_MAX :: nat where
  "REPOSITORY_TOTAL_LENGTH_MAX = 255"

definition TAG_TOTAL_LENGTH_MAX :: nat where
  "TAG_TOTAL_LENGTH_MAX = 128"

text \<open>A byte beyond ASCII belongs to a character that is not accepted.\<close>

definition validate_repository_char :: "char \<Rightarrow> string + unit" where
  "validate_repository_char c =
     (if is_ascii_uppercase c then Inl ''repository name contains uppercase character''
      else if \<not> is_ascii_alphanumeric c \<and> c \<noteq> CHR ''.'' \<and> c \<noteq> CHR ''_'' \<and> c \<noteq> CHR ''-''
      then Inl ''repository name contains invalid character''
      else Inr ())"

definition repository_from_str :: "string \<Rightarrow> string + string" where
  "repository_from_str s =
     (if s = [] then Inl ''repository name cannot be empty''
      else if length s > REPOSITORY_TOTAL_LENGTH_MAX then Inl ''repository name too long''
      else
        rbind (try_map (\<lambda>component.
                 if component = [] then Inl ''repository name contains empty component''
                 else map_ok (\<lambda>_. ()) (try_map validate_repository_char component))
               (split_on (CHR ''/'') s))
          (\<lambda>_. Inr s))"

section \<open>Versions\<close>

definition validate_version_tag_char :: "char \<Rightarrow> string + unit" where
  "validate_version_tag_char c =
     (if \<not> is_ascii_alphanumeric c \<and> c \<noteq> CHR ''.'' \<and> c \<noteq> CHR ''_'' \<and> c \<noteq> CHR ''-''
      then Inl ''version tag contains invalid character''
      else Inr ())"

definition validate_digest :: "string \<Rightarrow> string + unit" where
  "validate_digest digest =
     (case split_once (CHR '':'') digest of
        None \<Rightarrow> Inl ''digest has invalid format''
      | Some (algorithm, hex) \<Rightarrow>
          if algorithm = ''sha256'' \<and> length hex = 64 then Inr ()
          else if algorithm = ''sha384'' \<and> length hex = 96 then Inr ()
          else if algorithm = ''sha512'' \<and> length hex = 128 then Inr ()
          else if algorithm = ''sha256'' \<or> algorithm = ''sha384'' \<or> algorithm = ''sha512''
          then Inl ''digest has invalid length''
          else Inl ''digest algorithm unsupported'')"

definition validate_tag :: "string \<Rightarrow> string + unit" where
  "validate_tag tag =
     (if length tag > TAG_TOTAL_LENGTH_MAX then Inl ''version tag too long''
      else map_ok (\<lambda>_. ()) (try_map validate_version_tag_char tag))"

definition version_from_str :: "string \<Rightarrow> string + string" where
  "version_from_str s =
     (if s = [] then Inl ''version cannot be empty''
      else if ends_with_char (\<lambda>c. c = CHR ''@'') s then Inl (''version cannot end with '' @ sq ''@'')
      else
        (case split_once (CHR ''@'') s of
           Some (tag, digest) \<Rightarrow>
             rbind (if tag \<noteq> [] then validate_tag tag else Inr ()) (\<lambda>_.
             rbind (validate_digest digest) (\<lambda>_. Inr s))
         | None \<Rightarrow> rbind (validate_tag s) (\<lambda>_. Inr s)))"

definition tag_and_digest :: "string \<Rightarrow> string option \<times> string option" where
  "tag_and_digest v =
     (if v = [] then (None, None)
      else
        (case split_once (CHR ''@'') v of
           None \<Rightarrow> (Some v, None)
         | Some (tag, digest) \<Rightarrow>
             if tag = [] then (None, Some digest)
             else if digest = [] then (Some tag, None)
             else (Some tag, Some digest)))"

section \<open>Packages\<close>

record oci =
  oci_repository :: string
  oci_version :: string
  oci_public_key_url :: "string option"

record oci_reference =
  ref_registry :: string
  ref_repository :: string
  ref_tag :: "string option"
  ref_digest :: "string option"

definition to_reference :: "oci \<Rightarrow> string \<Rightarrow> string + oci_reference" where
  "to_reference source registry =
     (case tag_and_digest (oci_version source) of
        (None, None) \<Rightarrow> Inl ''version cannot be empty''
      | (tag, digest) \<Rightarrow>
          Inr \<lparr>ref_registry = registry, ref_repository = oci_repository source, ref_tag = tag, ref_digest = digest\<rparr>)"

record post_download_hook =
  hook_path :: string
  hook_args :: "string list"
  hook_env :: "(string \<times> string) list"

record rendered_package =
  rpk_oci :: oci
  rpk_post_download_hook :: "post_download_hook option"

record package_data =
  pd_id :: string
  pd_oci :: oci
  pd_post_download_hook :: "post_download_hook option"

record installed_package_data =
  ip_id :: string
  ip_installation_path :: path

section \<open>Directories\<close>

abbreviation TEMP_PCK_LOCATION :: string where
  "TEMP_PCK_LOCATION \<equiv> ''__temp_packages''"

abbreviation INSTALLED_PCK_LOCATION :: string where
  "INSTALLED_PCK_LOCATION \<equiv> ''stored_packages''"

abbreviation PACKAGES_FOLDER_NAME :: string where
  "PACKAGES_FOLDER_NAME \<equiv> ''packages''"

definition char_is_alphanumeric :: "serde_libs \<Rightarrow> string \<Rightarrow> bool" where
  "char_is_alphanumeric L ch =
     (case ch of
        [] \<Rightarrow> False
      | c # _ \<Rightarrow> if of_char c < (128 :: nat) then is_ascii_alphanumeric c else sl_unicode_alphanumeric L ch)"

definition sanitize_char :: "serde_libs \<Rightarrow> string \<Rightarrow> string" where
  "sanitize_char L ch =
     (if ch = ''/'' then ''__'' else if \<not> char_is_alphanumeric L ch then ''_'' else ch)"

datatype pm_error =
    PmDownload string
  | PmInstall io_error
  | PmUninstall io_error
  | PmExtraction string
  | PmNotNormalSuffix path_component
  | PmRetainPackageErrors "(string \<times> pm_error) list"
  | PmPostDownloadHook string

definition compute_path_suffix :: "serde_libs \<Rightarrow> package_data \<Rightarrow> pm_error + string" where
  "compute_path_suffix L p =
     (let reference = oci_repository (pd_oci p) @ '':'' @ oci_version (pd_oci p);
          safe_name = ''oci_'' @ concat (map (sanitize_char L) (chars reference))
      in rbind (try_map (\<lambda>c. case c of Normal _ \<Rightarrow> Inr () | other \<Rightarrow> Inl (PmNotNormalSuffix other))
                  (path_components safe_name))
           (\<lambda>_. Inr safe_name))"

definition get_generic_package_location_path :: "path \<Rightarrow> agent_id \<Rightarrow> string \<Rightarrow> path" where
  "get_generic_package_location_path base i location =
     path_join (path_join (path_join base PACKAGES_FOLDER_NAME) (agent_id_as_str i)) location"

definition get_generic_package_path ::
  "serde_libs \<Rightarrow> path \<Rightarrow> agent_id \<Rightarrow> string \<Rightarrow> package_data \<Rightarrow> pm_error + path" where
  "get_generic_package_path L base i location p =
     rbind (compute_path_suffix L p) (\<lambda>suffix.
       Inr (path_join (path_join (get_generic_package_location_path base i location) (pd_id p)) suffix))"

definition get_package_path :: "serde_libs \<Rightarrow> path \<Rightarrow> agent_id \<Rightarrow> package_data \<Rightarrow> pm_error + path" where
  "get_package_path L base i p = get_generic_package_path L base i INSTALLED_PCK_LOCATION p"

definition get_temp_package_path :: "serde_libs \<Rightarrow> path \<Rightarrow> agent_id \<Rightarrow> package_data \<Rightarrow> pm_error + path" where
  "get_temp_package_path L base i p = get_generic_package_path L base i TEMP_PCK_LOCATION p"

section \<open>Versions and references\<close>

lemma try_map_units: "try_map f xs = Inr ys \<Longrightarrow> x \<in> set xs \<Longrightarrow> \<exists>y. f x = Inr y"
  by (induction xs arbitrary: ys) (auto simp: result_simps)

lemma try_map_all_ok: "\<forall>x \<in> set xs. f x = Inr (g x) \<Longrightarrow> try_map f xs = Inr (map g xs)"
  by (induction xs) simp_all

text \<open>The version a reference stands for.\<close>

definition reference_version :: "oci_reference \<Rightarrow> string" where
  "reference_version r =
     (case ref_tag r of None \<Rightarrow> [] | Some t \<Rightarrow> t) @ (case ref_digest r of None \<Rightarrow> [] | Some h \<Rightarrow> CHR ''@'' # h)"

lemma validate_tag_ok: "validate_tag t = Inr () \<Longrightarrow> length t \<le> TAG_TOTAL_LENGTH_MAX \<and> (\<forall>c \<in> set t. validate_version_tag_char c = Inr ())"
  by (auto simp: validate_tag_def result_simps split: if_splits dest!: try_map_units)

lemma at_not_tag_char: "validate_version_tag_char (CHR ''@'') \<noteq> Inr ()"
  by (simp add: validate_version_tag_char_def ascii_defs)

text \<open>Every version that is accepted makes a reference, which has a tag or a digest or both, of the accepted length and
  characters, and from which the version can be recovered.\<close>

theorem accepted_version_reference:
  assumes "version_from_str s = Inr v"
  shows "\<exists>r. to_reference \<lparr>oci_repository = repo, oci_version = v, oci_public_key_url = key\<rparr> registry = Inr r \<and>
    ref_registry r = registry \<and> ref_repository r = repo \<and> reference_version r = s \<and>
    (\<forall>t. ref_tag r = Some t \<longrightarrow> t \<noteq> [] \<and> length t \<le> 128 \<and> (\<forall>c \<in> set t. validate_version_tag_char c = Inr ())) \<and>
    (\<forall>h. ref_digest r = Some h \<longrightarrow> validate_digest h = Inr ())"
proof -
  have v: "v = s" "s \<noteq> []" and last: "last s \<noteq> CHR ''@''"
    using assms by (auto simp: version_from_str_def result_simps ends_with_char_iff split: if_splits option.splits)
  show ?thesis
  proof (cases "split_once (CHR ''@'') s")
    case None
    then have "validate_tag s = Inr ()"
      using assms v last by (auto simp: version_from_str_def result_simps split: if_splits)
    with None v show ?thesis
      by (auto simp: to_reference_def tag_and_digest_def reference_version_def TAG_TOTAL_LENGTH_MAX_def dest!: validate_tag_ok)
  next
    case (Some td)
    then obtain t h where td: "split_once (CHR ''@'') s = Some (t, h)" by (cases td) auto
    then have s: "s = t @ CHR ''@'' # h" by (simp add: split_once_Some)
    have "h \<noteq> []" using last s by auto
    moreover have "validate_digest h = Inr ()" "t \<noteq> [] \<longrightarrow> validate_tag t = Inr ()"
      using assms td v last by (auto simp: version_from_str_def result_simps split: if_splits)
    ultimately show ?thesis using td v s
      by (auto simp: to_reference_def tag_and_digest_def reference_version_def TAG_TOTAL_LENGTH_MAX_def dest!: validate_tag_ok)
  qed
qed

theorem accepted_version_reference_witness:
  "\<exists>r. to_reference \<lparr>oci_repository = ''agents/infra'', oci_version = ''1.2.3'', oci_public_key_url = None\<rparr> ''docker.io'' = Inr r \<and>
     reference_version r = ''1.2.3''"
proof -
  have "version_from_str ''1.2.3'' = Inr ''1.2.3''" by code_simp
  from accepted_version_reference[OF this, of "''agents/infra''" None "''docker.io''"] show ?thesis by blast
qed

section \<open>Package directories\<close>

lemma conts_no_slash: "CHR ''/'' \<notin> set (takeWhile is_cont r)"
  by (auto simp: is_cont_def dest!: set_takeWhileD)

lemma sanitize_no_slash: "CHR ''/'' \<notin> set (sanitize_char L (c # takeWhile is_cont r))"
  using conts_no_slash by (auto simp: sanitize_char_def char_is_alphanumeric_def ascii_defs split: if_splits)

lemma sanitized_no_slash: "CHR ''/'' \<notin> set (concat (map (sanitize_char L) (chars s)))"
  using sanitize_no_slash by (induction s rule: chars.induct) simp_all

definition package_suffix :: "serde_libs \<Rightarrow> package_data \<Rightarrow> string" where
  "package_suffix L p =
     ''oci_'' @ concat (map (sanitize_char L) (chars (oci_repository (pd_oci p) @ '':'' @ oci_version (pd_oci p))))"

lemma package_suffix_segment: "segment_name (package_suffix L p)"
  using sanitized_no_slash by (simp add: segment_name_def package_suffix_def)

lemma compute_path_suffix_ok: "compute_path_suffix L p = Inr (package_suffix L p)"
  using path_components_segment[OF package_suffix_segment, of L p]
  by (simp add: compute_path_suffix_def package_suffix_def Let_def)

lemma get_generic_package_path_ok:
  assumes "segment_name (agent_id_as_str i)" and "segment_name location" and "segment_name (pd_id p)"
  shows "get_generic_package_path L base i location p =
    Inr (base @ [PACKAGES_FOLDER_NAME, agent_id_as_str i, location, pd_id p, package_suffix L p])"
proof -
  have "segment_name PACKAGES_FOLDER_NAME" by code_simp
  with assms show ?thesis
    by (simp add: get_generic_package_path_def get_generic_package_location_path_def compute_path_suffix_ok
        path_join_segment package_suffix_segment)
qed

text \<open>Different versions can have the same directory, and an identifier that is an absolute path leaves the base
  directory.\<close>

lemma package_suffix_collision:
  "package_suffix L (p\<lparr>pd_oci := \<lparr>oci_repository = ''agent'', oci_version = ''1.0-1'', oci_public_key_url = None\<rparr>\<rparr>) =
   package_suffix L (p\<lparr>pd_oci := \<lparr>oci_repository = ''agent'', oci_version = ''1.0.1'', oci_public_key_url = None\<rparr>\<rparr>)"
  by (simp add: package_suffix_def sanitize_char_def char_is_alphanumeric_def is_cont_def ascii_defs)

lemma package_path_absolute_id:
  assumes "segment_name c"
  shows "get_package_path L base i (p\<lparr>pd_id := CHR ''/'' # c\<rparr>) = Inr [c, package_suffix L p]"
proof -
  have "path_join q (CHR ''/'' # c) = [c]" for q
    using assms
    by (auto simp: path_join_def path_of_def path_components_def is_absolute_def starts_with_char_def segment_name_def split_on_no_sep)
  moreover have "package_suffix L (p\<lparr>pd_id := CHR ''/'' # c\<rparr>) = package_suffix L p" by (simp add: package_suffix_def)
  ultimately show ?thesis
    by (simp add: get_package_path_def get_generic_package_path_def compute_path_suffix_ok path_join_segment
        package_suffix_segment)
qed

end
