(* ===== verification/Package_Manager.thy ===== *)
theory Package_Manager
  imports Oci_Package
begin

text \<open>
  The package manager of the host (\<open>package/oci/package_manager.rs\<close>): installing a package for an agent
  and keeping only the packages installed last. Downloading, extracting and running the hook of a package
  are parameters that act on the disk; the log records when a package is downloaded and a hook is run.
\<close>

section \<open>Operations\<close>

datatype pm_event = PmDownloads package_data | PmRunsHook post_download_hook path

record pm_state =
  pm_disk :: disk
  pm_latest :: "(agent_id \<times> installed_package_data) list"
  pm_log :: "pm_event list"

record 'b pm_env =
  pe_os :: os_faults
  pe_libs :: serde_libs
  pe_remote_dir :: path
  pe_download :: "package_data \<Rightarrow> path \<Rightarrow> disk \<Rightarrow> (string + 'b) \<times> disk"
  pe_extract :: "'b \<Rightarrow> path \<Rightarrow> disk \<Rightarrow> (string + unit) \<times> disk"
  pe_hook :: "post_download_hook \<Rightarrow> path \<Rightarrow> disk \<Rightarrow> (string + unit) \<times> disk"

definition on_disk :: "(disk \<Rightarrow> ('e + 'a) \<times> disk) \<Rightarrow> (pm_state, 'e, 'a) action" where
  "on_disk f s = (case f (pm_disk s) of (r, d) \<Rightarrow> (r, s\<lparr>pm_disk := d\<rparr>))"

definition pm_event :: "pm_event \<Rightarrow> pm_state \<Rightarrow> pm_state" where
  "pm_event e s = s\<lparr>pm_log := pm_log s @ [e]\<rparr>"

definition extract_package :: "'b pm_env \<Rightarrow> 'b \<Rightarrow> path \<Rightarrow> (pm_state, pm_error, unit) action" where
  "extract_package E package extract_dir =
     sbind (smap_err PmInstall (on_disk (dir_create (pe_os E) extract_dir))) (\<lambda>_ s.
       case on_disk (pe_extract E package extract_dir) s of
         (Inr _, s) \<Rightarrow> (Inr (), s)
       | (Inl e, s) \<Rightarrow> (Inl (PmExtraction e), snd (on_disk (dir_delete (pe_os E) extract_dir) s)))"

definition install_archive ::
  "'b pm_env \<Rightarrow> package_data \<Rightarrow> path \<Rightarrow> path \<Rightarrow> (pm_state, pm_error, installed_package_data) action" where
  "install_archive E p tmp_download_path install_path =
     sbind (smap_err PmInstall (on_disk (dir_create (pe_os E) tmp_download_path))) (\<lambda>_.
     sbind (\<lambda>s. smap_err PmDownload (on_disk (pe_download E p tmp_download_path)) (pm_event (PmDownloads p) s)) (\<lambda>package.
     sbind (extract_package E package install_path) (\<lambda>_.
     sbind (case pd_post_download_hook p of
              None \<Rightarrow> slift (Inr ())
            | Some hook \<Rightarrow>
                (\<lambda>s. smap_err PmPostDownloadHook (on_disk (pe_hook E hook install_path))
                       (pm_event (PmRunsHook hook install_path) s))) (\<lambda>_.
     slift (Inr \<lparr>ip_id = pd_id p, ip_installation_path = install_path\<rparr>)))))"

definition pm_uninstall :: "'b pm_env \<Rightarrow> installed_package_data \<Rightarrow> (pm_state, pm_error, unit) action" where
  "pm_uninstall E p = smap_err PmUninstall (on_disk (dir_delete (pe_os E) (ip_installation_path p)))"

text \<open>The packages on disk: a directory for each identifier, with a directory for each package.\<close>

definition installed_packages :: "'b pm_env \<Rightarrow> agent_id \<Rightarrow> disk \<Rightarrow> pm_error + installed_package_data list" where
  "installed_packages E i d =
     rbind (map_err PmInstall
              (dir_entries (pe_os E) (get_generic_package_location_path (pe_remote_dir E) i INSTALLED_PCK_LOCATION) d))
       (\<lambda>id_dirs. map_ok concat (try_map (\<lambda>id_path.
          if \<not> is_dir d id_path then Inr []
          else if id_path = [] then Inr []
          else map_ok (\<lambda>dirs. map (\<lambda>q. \<lparr>ip_id = last id_path, ip_installation_path = q\<rparr>) (filter (is_dir d) dirs))
                 (map_err PmInstall (dir_entries (pe_os E) id_path d))) id_dirs))"

fun remove_packages ::
  "'b pm_env \<Rightarrow> installed_package_data list \<Rightarrow> installed_package_data list \<Rightarrow> pm_state
   \<Rightarrow> (string \<times> pm_error) list \<times> pm_state" where
  "remove_packages E retain [] s = ([], s)"
| "remove_packages E retain (p # ps) s =
     (if p \<in> set retain then remove_packages E retain ps s
      else
        (case pm_uninstall E p s of
           (r, s) \<Rightarrow>
             (case remove_packages E retain ps s of
                (errs, s) \<Rightarrow> ((case r of Inl e \<Rightarrow> [(ip_id p, e)] | Inr _ \<Rightarrow> []) @ errs, s))))"

definition retain_packages :: "'b pm_env \<Rightarrow> agent_id \<Rightarrow> installed_package_data \<Rightarrow> (pm_state, pm_error, unit) action" where
  "retain_packages E i p s =
     (let previous = map_of (pm_latest s) i;
          retain = p # (case previous of None \<Rightarrow> [] | Some q \<Rightarrow> [q]);
          s = s\<lparr>pm_latest := AList.update i p (pm_latest s)\<rparr>
      in sbind (\<lambda>s. (installed_packages E i (pm_disk s), s)) (\<lambda>installed s.
           case remove_packages E retain installed s of
             (errs, s) \<Rightarrow> (if errs = [] then Inr () else Inl (PmRetainPackageErrors errs), s)) s)"

definition pm_install :: "'b pm_env \<Rightarrow> agent_id \<Rightarrow> package_data \<Rightarrow> (pm_state, pm_error, installed_package_data) action" where
  "pm_install E i p =
     sbind (slift (get_package_path (pe_libs E) (pe_remote_dir E) i p)) (\<lambda>package_path s.
       if path_exists (pm_disk s) package_path
       then
         (let installed = \<lparr>ip_id = pd_id p, ip_installation_path = package_path\<rparr>
          in sbind (retain_packages E i installed) (\<lambda>_. slift (Inr installed)) s)
       else
         sbind (slift (get_temp_package_path (pe_libs E) (pe_remote_dir E) i p)) (\<lambda>temp_package_path.
         sbind (\<lambda>s. case install_archive E p temp_package_path package_path s of
                      (Inr installed, s) \<Rightarrow> (Inr installed, s)
                    | (Inl e, s) \<Rightarrow> (Inl e, snd (on_disk (dir_delete (pe_os E) temp_package_path) s))) (\<lambda>installed.
         sbind (smap_err PmInstall (on_disk (dir_delete (pe_os E) temp_package_path))) (\<lambda>_.
         sbind (retain_packages E i installed) (\<lambda>_.
         slift (Inr installed))))) s)"

section \<open>Retention\<close>

text \<open>What the manager relies on: downloading, extracting and running a hook leave a consistent disk, and a package
  that was extracted is still there afterwards, also after its hook ran.\<close>

definition pm_env_ok :: "'b pm_env \<Rightarrow> bool" where
  "pm_env_ok E \<longleftrightarrow>
     (\<forall>p dir d. dirs_closed d \<longrightarrow> dirs_closed (snd (pe_download E p dir d))) \<and>
     (\<forall>b dest d. dirs_closed d \<longrightarrow> dirs_closed (snd (pe_extract E b dest d))) \<and>
     (\<forall>h dest d. dirs_closed d \<longrightarrow> dirs_closed (snd (pe_hook E h dest d))) \<and>
     (\<forall>b dest d u d'. is_dir d dest \<longrightarrow> pe_extract E b dest d = (Inr u, d') \<longrightarrow> is_dir d' dest) \<and>
     (\<forall>h dest d. is_dir d dest \<longrightarrow> is_dir (snd (pe_hook E h dest d)) dest)"

definition stored_location :: "'b pm_env \<Rightarrow> agent_id \<Rightarrow> path" where
  "stored_location E i = get_generic_package_location_path (pe_remote_dir E) i INSTALLED_PCK_LOCATION"

lemma on_disk_eq: "on_disk f s = (r, s') \<longleftrightarrow> (\<exists>d. f (pm_disk s) = (r, d) \<and> s' = s\<lparr>pm_disk := d\<rparr>)"
  by (auto simp: on_disk_def split: prod.splits)

lemma pm_uninstall_eq:
  "pm_uninstall E p s = (r, s') \<longleftrightarrow>
     (\<exists>r0 d. dir_delete (pe_os E) (ip_installation_path p) (pm_disk s) = (r0, d) \<and> r = map_err PmUninstall r0 \<and> s' = s\<lparr>pm_disk := d\<rparr>)"
  by (auto simp: pm_uninstall_def smap_err_def on_disk_def map_prod_def split: prod.splits)

lemma remove_packages_state:
  "remove_packages E retain ps s = (errs, s') \<Longrightarrow>
     pm_latest s' = pm_latest s \<and> pm_log s' = pm_log s \<and> (is_dir (pm_disk s') q \<longrightarrow> is_dir (pm_disk s) q)"
proof (induction ps arbitrary: s errs s')
  case (Cons p ps)
  show ?case
  proof (cases "p \<in> set retain")
    case False
    obtain r s1 where s1: "pm_uninstall E p s = (r, s1)" by fastforce
    obtain errs' s2 where s2: "remove_packages E retain ps s1 = (errs', s2)" by fastforce
    have "pm_latest s1 = pm_latest s \<and> pm_log s1 = pm_log s \<and> (is_dir (pm_disk s1) q \<longrightarrow> is_dir (pm_disk s) q)"
      using s1 dir_delete_only_removes by (auto simp: pm_uninstall_eq)
    with Cons.IH[OF s2] Cons.prems False s1 s2 show ?thesis by auto
  qed (use Cons in auto)
qed simp

lemma remove_packages_removes:
  assumes "remove_packages E retain ps s = ([], s')" and "p \<in> set ps" and "p \<notin> set retain" and "ip_installation_path p \<noteq> []"
  shows "\<not> is_dir (pm_disk s') (ip_installation_path p)"
  using assms(1,2)
proof (induction ps arbitrary: s)
  case (Cons p' ps)
  show ?case
  proof (cases "p' \<in> set retain")
    case True
    with Cons assms(3) show ?thesis by auto
  next
    case False
    obtain r s1 where s1: "pm_uninstall E p' s = (r, s1)" by fastforce
    obtain errs s2 where s2: "remove_packages E retain ps s1 = (errs, s2)" by fastforce
    have r: "errs = []" "s2 = s'" "\<exists>u. r = Inr u" using Cons.prems(1) False s1 s2 by (auto split: sum.splits)
    show ?thesis
    proof (cases "p = p'")
      case True
      have "\<not> is_dir (pm_disk s1) (ip_installation_path p)"
        using s1 r(3) assms(4) True by (auto simp: pm_uninstall_eq dest: dir_delete_gone)
      with remove_packages_state[OF s2] r(2) show ?thesis by auto
    next
      case False
      with Cons.IH[of s1] Cons.prems(2) s2 r show ?thesis by auto
    qed
  qed
qed simp

lemma remove_packages_keeps:
  assumes "remove_packages E retain ps s = (errs, s')" and "\<forall>p \<in> set ps. p \<notin> set retain \<longrightarrow> \<not> under (ip_installation_path p) q"
  shows "is_dir (pm_disk s') q = is_dir (pm_disk s) q \<and> file_at (pm_disk s') q = file_at (pm_disk s) q"
  using assms
proof (induction ps arbitrary: s errs s')
  case (Cons p ps)
  show ?case
  proof (cases "p \<in> set retain")
    case False
    obtain r s1 where s1: "pm_uninstall E p s = (r, s1)" by fastforce
    obtain errs' s2 where s2: "remove_packages E retain ps s1 = (errs', s2)" by fastforce
    have "is_dir (pm_disk s1) q = is_dir (pm_disk s) q \<and> file_at (pm_disk s1) q = file_at (pm_disk s) q"
      using s1 dir_delete_keeps[of "pe_os E" "ip_installation_path p" "pm_disk s"] Cons.prems(2) False
      by (auto simp: pm_uninstall_eq)
    with Cons.IH[OF s2] Cons.prems False s1 s2 show ?thesis by auto
  qed (use Cons in auto)
qed simp

lemma try_map_mem:
  assumes "try_map f xs = Inr ys" and "x \<in> set xs"
  obtains y where "y \<in> set ys" and "f x = Inr y"
proof -
  obtain n where "n < length xs" "x = xs ! n" using assms(2) by (metis in_set_conv_nth)
  then show thesis using that[of "ys ! n"] assms(1) try_map_nth[OF assms(1)] try_map_length[OF assms(1)] by simp
qed

lemma installed_packages_listed:
  assumes "installed_packages E i d = Inr ps" and "dirs_closed d" and "is_dir d (stored_location E i @ [c, x])"
  shows "\<lparr>ip_id = c, ip_installation_path = stored_location E i @ [c, x]\<rparr> \<in> set ps"
proof -
  let ?loc = "stored_location E i"
  let ?f = "\<lambda>id_path. if \<not> is_dir d id_path then Inr []
          else if id_path = [] then Inr []
          else map_ok (\<lambda>dirs. map (\<lambda>q. \<lparr>ip_id = last id_path, ip_installation_path = q\<rparr>) (filter (is_dir d) dirs))
                 (map_err PmInstall (dir_entries (pe_os E) id_path d))"
  have c: "is_dir d (?loc @ [c])" using dirs_closed_parent[OF assms(2), of "?loc @ [c]" x] assms(3) by simp
  obtain ids yss where ids: "dir_entries (pe_os E) ?loc d = Inr ids" "try_map ?f ids = Inr yss" "ps = concat yss"
    using assms(1) by (auto simp: installed_packages_def stored_location_def result_simps)
  obtain ys where ys: "ys \<in> set yss" "?f (?loc @ [c]) = Inr ys"
    using try_map_mem[OF ids(2)] dir_entries_dirs[OF ids(1) c] by metis
  obtain qs where qs: "dir_entries (pe_os E) (?loc @ [c]) d = Inr qs"
    "ys = map (\<lambda>q. \<lparr>ip_id = c, ip_installation_path = q\<rparr>) (filter (is_dir d) qs)"
    using ys(2) c by (auto simp: result_simps)
  have "?loc @ [c, x] \<in> set qs" using dir_entries_dirs[OF qs(1), of x] assms(3) by simp
  then have "\<lparr>ip_id = c, ip_installation_path = ?loc @ [c, x]\<rparr> \<in> set ys" using qs(2) assms(3) by auto
  with ys(1) ids(3) show ?thesis by auto
qed

lemma installed_packages_shape:
  assumes "installed_packages E i d = Inr ps" and "q \<in> set ps"
  obtains c x where "q = \<lparr>ip_id = c, ip_installation_path = stored_location E i @ [c, x]\<rparr>"
proof -
  let ?loc = "stored_location E i"
  have entries: "\<exists>c. r = p @ [c]" if "dir_entries os p d = Inr qs" "r \<in> set qs" for os p qs r
  proof -
    have "r \<noteq> [] \<and> butlast r = p"
      using that by (auto simp: dir_entries_def dir_children_def child_of_def split: if_splits option.splits)
    then show ?thesis by (metis append_butlast_last_id)
  qed
  obtain ids yss where ids: "dir_entries (pe_os E) ?loc d = Inr ids" "ps = concat yss"
    "try_map (\<lambda>id_path. if \<not> is_dir d id_path then Inr [] else if id_path = [] then Inr []
          else map_ok (\<lambda>dirs. map (\<lambda>q. \<lparr>ip_id = last id_path, ip_installation_path = q\<rparr>) (filter (is_dir d) dirs))
                 (map_err PmInstall (dir_entries (pe_os E) id_path d))) ids = Inr yss" (is "try_map ?f _ = _")
    using assms(1) by (auto simp: installed_packages_def stored_location_def result_simps)
  obtain ys where "ys \<in> set yss" "q \<in> set ys" using assms(2) ids(2) by auto
  then obtain n where n: "n < length yss" "q \<in> set (yss ! n)" by (auto simp: in_set_conv_nth[of ys])
  then have f: "?f (ids ! n) = Inr (yss ! n)" and mem: "ids ! n \<in> set ids"
    using try_map_nth[OF ids(3)] try_map_length[OF ids(3)] by simp_all
  obtain c where c: "ids ! n = ?loc @ [c]" using entries[OF ids(1) mem] by blast
  obtain qs r where qs: "dir_entries (pe_os E) (?loc @ [c]) d = Inr qs" "r \<in> set qs" "q = \<lparr>ip_id = c, ip_installation_path = r\<rparr>"
    using f n(2) c by (auto simp: result_simps split: if_splits)
  then show thesis using entries[OF qs(1,2)] that by auto
qed

lemma remove_packages_closed:
  "remove_packages E retain ps s = ([], s') \<Longrightarrow> dirs_closed (pm_disk s) \<Longrightarrow> dirs_closed (pm_disk s')"
proof (induction ps arbitrary: s)
  case (Cons p ps)
  show ?case
  proof (cases "p \<in> set retain")
    case False
    obtain r s1 where s1: "pm_uninstall E p s = (r, s1)" by fastforce
    obtain errs s2 where s2: "remove_packages E retain ps s1 = (errs, s2)" by fastforce
    have r: "errs = []" "s2 = s'" "\<exists>u. r = Inr u" using Cons.prems(1) False s1 s2 by (auto split: sum.splits)
    then have "dirs_closed (pm_disk s1)" using s1 Cons.prems(2) by (auto simp: pm_uninstall_eq result_simps dest: dirs_closed_delete)
    then show ?thesis using Cons.IH[of s1] s2 r by auto
  qed (use Cons in auto)
qed simp

definition latest_packages :: "agent_id \<Rightarrow> pm_state \<Rightarrow> installed_package_data set" where
  "latest_packages i s = set_option (map_of (pm_latest s) i)"

lemma retain_packages_ok:
  assumes run: "retain_packages E i p s = (Inr u, s')" and closed: "dirs_closed (pm_disk s)"
    and p: "ip_installation_path p = stored_location E i @ [ip_id p, x]"
  shows "map_of (pm_latest s') = (map_of (pm_latest s))(i \<mapsto> p)" "pm_log s' = pm_log s" "dirs_closed (pm_disk s')"
    "path_exists (pm_disk s') (ip_installation_path p) = path_exists (pm_disk s) (ip_installation_path p)"
    "is_dir (pm_disk s') (stored_location E i @ [c, y]) \<Longrightarrow>
       \<lparr>ip_id = c, ip_installation_path = stored_location E i @ [c, y]\<rparr> \<in> insert p (latest_packages i s)"
proof -
  let ?retain = "p # (case map_of (pm_latest s) i of None \<Rightarrow> [] | Some q \<Rightarrow> [q])"
  let ?s1 = "s\<lparr>pm_latest := AList.update i p (pm_latest s)\<rparr>"
  obtain ps where ps: "installed_packages E i (pm_disk s) = Inr ps" "remove_packages E ?retain ps ?s1 = ([], s')"
    using run by (auto simp: retain_packages_def Let_def sbind_def split: sum.splits prod.splits if_splits)
  note st = remove_packages_state[OF ps(2)]
  show "map_of (pm_latest s') = (map_of (pm_latest s))(i \<mapsto> p)" using st by (simp add: update_conv')
  show "pm_log s' = pm_log s" using st by simp
  show "dirs_closed (pm_disk s')" using remove_packages_closed[OF ps(2)] closed by simp
  have "\<not> under (ip_installation_path q) (ip_installation_path p)" if q: "q \<in> set ps" "q \<notin> set ?retain" for q
  proof
    assume u: "under (ip_installation_path q) (ip_installation_path p)"
    obtain c z where "q = \<lparr>ip_id = c, ip_installation_path = stored_location E i @ [c, z]\<rparr>"
      using installed_packages_shape[OF ps(1) q(1)] .
    moreover from this have "c = ip_id p" "z = x" using u p by (auto simp: under_iff)
    ultimately have "q = p" using p by (cases p) simp
    with q(2) show False by simp
  qed
  then show "path_exists (pm_disk s') (ip_installation_path p) = path_exists (pm_disk s) (ip_installation_path p)"
    using remove_packages_keeps[OF ps(2), of "ip_installation_path p"] by (simp add: path_exists_def is_file_def)
  assume d: "is_dir (pm_disk s') (stored_location E i @ [c, y])"
  let ?q = "\<lparr>ip_id = c, ip_installation_path = stored_location E i @ [c, y]\<rparr>"
  have "is_dir (pm_disk s) (stored_location E i @ [c, y])" using st d by simp
  then have "?q \<in> set ps" by (rule installed_packages_listed[OF ps(1) closed])
  then have "?q \<in> set ?retain" using remove_packages_removes[OF ps(2), of ?q] d by auto
  then show "?q \<in> insert p (latest_packages i s)" by (auto simp: latest_packages_def split: option.splits)
qed

lemma package_paths:
  assumes "segment_name (agent_id_as_str i)" and "segment_name (pd_id p)"
  shows "get_package_path (pe_libs E) (pe_remote_dir E) i p =
      Inr (stored_location E i @ [pd_id p, package_suffix (pe_libs E) p])"
    "get_temp_package_path (pe_libs E) (pe_remote_dir E) i p =
      Inr (pe_remote_dir E @ [PACKAGES_FOLDER_NAME, agent_id_as_str i, TEMP_PCK_LOCATION, pd_id p, package_suffix (pe_libs E) p])"
    "stored_location E i = pe_remote_dir E @ [PACKAGES_FOLDER_NAME, agent_id_as_str i, INSTALLED_PCK_LOCATION]"
proof -
  have names: "segment_name PACKAGES_FOLDER_NAME" "segment_name INSTALLED_PCK_LOCATION" "segment_name TEMP_PCK_LOCATION"
    by code_simp+
  show loc: "stored_location E i = pe_remote_dir E @ [PACKAGES_FOLDER_NAME, agent_id_as_str i, INSTALLED_PCK_LOCATION]"
    using assms(1) names unfolding stored_location_def get_generic_package_location_path_def
    by (simp only: path_join_segment append_assoc append.simps)
  show "get_package_path (pe_libs E) (pe_remote_dir E) i p =
      Inr (stored_location E i @ [pd_id p, package_suffix (pe_libs E) p])"
    unfolding get_package_path_def loc get_generic_package_path_ok[OF assms(1) names(2) assms(2)]
    by (simp only: append_assoc append.simps)
  show "get_temp_package_path (pe_libs E) (pe_remote_dir E) i p =
      Inr (pe_remote_dir E @ [PACKAGES_FOLDER_NAME, agent_id_as_str i, TEMP_PCK_LOCATION, pd_id p, package_suffix (pe_libs E) p])"
    unfolding get_temp_package_path_def get_generic_package_path_ok[OF assms(1) names(3) assms(2)] ..
qed

lemma temp_not_over_stored:
  "\<not> under (base @ [a, b, TEMP_PCK_LOCATION, c, x]) (base @ [a, b, INSTALLED_PCK_LOCATION, c', x'])"
  by (simp add: under_def)

lemma extract_package_ok:
  assumes "extract_package E b dest s = (Inr u, s')" and "pm_env_ok E" and "dirs_closed (pm_disk s)"
  shows "dirs_closed (pm_disk s')" "is_dir (pm_disk s') dest" "pm_latest s' = pm_latest s"
proof -
  obtain u1 d1 u2 d2 where d: "dir_create (pe_os E) dest (pm_disk s) = (Inr u1, d1)" "pe_extract E b dest d1 = (Inr u2, d2)"
    "s' = s\<lparr>pm_disk := d2\<rparr>"
    using assms(1) by (auto simp: extract_package_def sbind_eq_Inr smap_err_eq_Inr on_disk_eq on_disk_def split: prod.splits sum.splits)
  have c: "dirs_closed d1" "is_dir d1 dest" using d(1) assms(3) dirs_closed_create dir_create_is_dir by blast+
  show "dirs_closed (pm_disk s')" "is_dir (pm_disk s') dest" "pm_latest s' = pm_latest s"
    using c d assms(2) unfolding pm_env_ok_def by (auto, metis snd_conv)
qed

lemma install_archive_ok:
  assumes "install_archive E p tmp dest s = (Inr ip, s')" and "pm_env_ok E" and "dirs_closed (pm_disk s)"
  shows "dirs_closed (pm_disk s')" "is_dir (pm_disk s') dest" "pm_latest s' = pm_latest s"
    "ip = \<lparr>ip_id = pd_id p, ip_installation_path = dest\<rparr>"
proof -
  obtain u1 d1 b d2 u3 s3 where s: "dir_create (pe_os E) tmp (pm_disk s) = (Inr u1, d1)"
    "pe_download E p tmp d1 = (Inr b, d2)"
    "extract_package E b dest (pm_event (PmDownloads p) s\<lparr>pm_disk := d2\<rparr>) = (Inr u3, s3)"
    "case pd_post_download_hook p of None \<Rightarrow> s' = s3
       | Some hook \<Rightarrow> \<exists>u d. pe_hook E hook dest (pm_disk s3) = (Inr u, d) \<and> s' = pm_event (PmRunsHook hook dest) s3\<lparr>pm_disk := d\<rparr>"
    and ip: "ip = \<lparr>ip_id = pd_id p, ip_installation_path = dest\<rparr>"
    using assms(1)
    by (auto simp: install_archive_def result_simps on_disk_eq pm_event_def split: option.splits)
  have c1: "dirs_closed d1" using s(1) assms(3) dirs_closed_create by blast
  have "dirs_closed d2" using c1 s(2) assms(2) unfolding pm_env_ok_def by (metis snd_conv)
  then have e: "dirs_closed (pm_disk s3)" "is_dir (pm_disk s3) dest" "pm_latest s3 = pm_latest s"
    using extract_package_ok[OF s(3) assms(2)] by (simp_all add: pm_event_def)
  have h: "dirs_closed d \<and> is_dir d dest" if "pe_hook E hook dest (pm_disk s3) = (r, d)" for hook r d
    using that e assms(2) unfolding pm_env_ok_def by (metis snd_conv)
  show "dirs_closed (pm_disk s')" "is_dir (pm_disk s') dest" "pm_latest s' = pm_latest s"
    "ip = \<lparr>ip_id = pd_id p, ip_installation_path = dest\<rparr>"
    using s(4) e h ip by (auto simp: pm_event_def split: option.splits)
qed

definition package_at :: "'b pm_env \<Rightarrow> agent_id \<Rightarrow> string \<Rightarrow> string \<Rightarrow> installed_package_data" where
  "package_at E i c x = \<lparr>ip_id = c, ip_installation_path = stored_location E i @ [c, x]\<rparr>"

definition installed_as :: "'b pm_env \<Rightarrow> agent_id \<Rightarrow> package_data \<Rightarrow> installed_package_data" where
  "installed_as E i p = package_at E i (pd_id p) (package_suffix (pe_libs E) p)"

lemma pm_install_cases:
  assumes seg: "segment_name (agent_id_as_str i)" "segment_name (pd_id p)"
    and run: "pm_install E i p s = (Inr ip, s')" and env: "pm_env_ok E" "dirs_closed (pm_disk s)"
  obtains s1 where "retain_packages E i ip s1 = (Inr (), s')" "ip = installed_as E i p" "dirs_closed (pm_disk s1)"
    "path_exists (pm_disk s1) (ip_installation_path ip)" "pm_latest s1 = pm_latest s"
proof (cases "path_exists (pm_disk s) (ip_installation_path (installed_as E i p))")
  case True
  then show thesis
    using run env that[of s]
    by (auto simp: pm_install_def package_paths[OF seg] installed_as_def package_at_def result_simps Let_def)
next
  case False
  let ?tmp = "pe_remote_dir E @ [PACKAGES_FOLDER_NAME, agent_id_as_str i, TEMP_PCK_LOCATION, pd_id p, package_suffix (pe_libs E) p]"
  let ?dest = "ip_installation_path (installed_as E i p)"
  obtain s0 u d where s: "install_archive E p ?tmp ?dest s = (Inr ip, s0)"
    "dir_delete (pe_os E) ?tmp (pm_disk s0) = (Inr u, d)" "retain_packages E i ip (s0\<lparr>pm_disk := d\<rparr>) = (Inr (), s')"
    using run False
    by (auto simp: pm_install_def package_paths(1,2)[OF seg] installed_as_def package_at_def result_simps on_disk_eq
        split: prod.splits sum.splits)
  note arch = install_archive_ok[OF s(1) env]
  have "?dest = pe_remote_dir E @ [PACKAGES_FOLDER_NAME, agent_id_as_str i, INSTALLED_PCK_LOCATION, pd_id p, package_suffix (pe_libs E) p]"
    unfolding installed_as_def package_at_def package_paths(3)[OF seg] by simp
  then have "is_dir d ?dest" using dir_delete_keeps(1)[OF s(2), of ?dest] arch(2) temp_not_over_stored by metis
  moreover have "ip = installed_as E i p" using arch(4) by (simp add: installed_as_def package_at_def)
  ultimately show thesis using that[OF s(3)] dirs_closed_delete[OF arch(1) s(2)] arch(3) by (simp add: path_exists_def)
qed

lemma installed_as_id: "ip_installation_path (installed_as E i p) = stored_location E i @ [ip_id (installed_as E i p), package_suffix (pe_libs E) p]"
  by (simp add: installed_as_def package_at_def)

lemma pm_install_ok:
  assumes "pm_env_ok E" and "dirs_closed (pm_disk s)" and seg: "segment_name (agent_id_as_str i)" "segment_name (pd_id p)"
    and run: "pm_install E i p s = (Inr ip, s')"
  shows "ip = installed_as E i p" "path_exists (pm_disk s') (ip_installation_path ip)"
    "map_of (pm_latest s') = (map_of (pm_latest s))(i \<mapsto> ip)" "dirs_closed (pm_disk s')"
    "is_dir (pm_disk s') (ip_installation_path (package_at E i c x)) \<Longrightarrow> package_at E i c x \<in> insert ip (latest_packages i s)"
proof -
  obtain s1 where s1: "retain_packages E i ip s1 = (Inr (), s')" "ip = installed_as E i p" "dirs_closed (pm_disk s1)"
    "path_exists (pm_disk s1) (ip_installation_path ip)" "pm_latest s1 = pm_latest s"
    using pm_install_cases[OF seg run assms(1,2)] .
  note r = retain_packages_ok[OF s1(1,3) installed_as_id[of E i p, folded s1(2)]]
  show "ip = installed_as E i p" "path_exists (pm_disk s') (ip_installation_path ip)"
    "map_of (pm_latest s') = (map_of (pm_latest s))(i \<mapsto> ip)" "dirs_closed (pm_disk s')"
    using r s1 by simp_all
  show "is_dir (pm_disk s') (ip_installation_path (package_at E i c x)) \<Longrightarrow> package_at E i c x \<in> insert ip (latest_packages i s)"
    using r(5)[of c x] s1(5) by (simp add: package_at_def latest_packages_def)
qed

text \<open>C16. When a package is installed, it is on disk and recorded as the latest of the agent, and of the other packages
  of the agent only the one recorded before is left: the manager keeps at most two packages for an agent, whatever
  their identifiers. The disk can fail at any step. The identifiers of the agent and of the package are single names of
  a path, and the hook of a package does not remove the directory of that package.\<close>

theorem install_keeps_last_two:
  assumes "pm_env_ok E" and "dirs_closed (pm_disk s)" and "segment_name (agent_id_as_str i)" and "segment_name (pd_id p)"
    and "pm_install E i p s = (Inr ip, s')"
  shows "ip = installed_as E i p \<and> path_exists (pm_disk s') (ip_installation_path ip) \<and>
    map_of (pm_latest s') = (map_of (pm_latest s))(i \<mapsto> ip) \<and>
    (\<forall>c x. is_dir (pm_disk s') (ip_installation_path (package_at E i c x)) \<longrightarrow>
       package_at E i c x \<in> insert ip (latest_packages i s))"
  using pm_install_ok[OF assms] by blast

text \<open>C39. An agent with three packages loses the first: when each of three different packages of one agent was
  installed without an error, in one go, the first one is no longer on disk.\<close>

theorem third_package_evicts_first:
  assumes "pm_env_ok E" and "dirs_closed (pm_disk s)" and "segment_name (agent_id_as_str i)"
    and "segment_name (pd_id p1)" and "segment_name (pd_id p2)" and "segment_name (pd_id p3)"
    and "pm_install E i p1 s = (Inr ip1, s1)" and "pm_install E i p2 s1 = (Inr ip2, s2)" and "pm_install E i p3 s2 = (Inr ip3, s3)"
    and "pd_id p1 \<noteq> pd_id p2" and "pd_id p1 \<noteq> pd_id p3"
  shows "\<not> is_dir (pm_disk s3) (ip_installation_path ip1)"
proof
  assume d: "is_dir (pm_disk s3) (ip_installation_path ip1)"
  note i1 = pm_install_ok[OF assms(1,2,3,4,7)]
  note i2 = pm_install_ok[OF assms(1) i1(4) assms(3,5,8)]
  note i3 = pm_install_ok[OF assms(1) i2(4) assms(3,6,9)]
  have "ip1 \<in> {ip3, ip2}"
    using i3(5)[of "pd_id p1" "package_suffix (pe_libs E) p1"] d i1(1) i2(3)
    by (simp add: installed_as_def latest_packages_def)
  then show False using i1(1) i2(1) i3(1) assms(10,11) by (auto simp: installed_as_def package_at_def)
qed

section \<open>A hook that fails\<close>

lemma try_map_error: "try_map f xs = Inl e \<Longrightarrow> \<exists>x \<in> set xs. f x = Inl e"
  by (induction xs) (auto simp: result_simps)

lemma installed_packages_error: "installed_packages E i d = Inl e \<Longrightarrow> \<exists>x. e = PmInstall x"
  by (auto simp: installed_packages_def result_simps split: if_splits dest!: try_map_error)

lemma retain_packages_error:
  assumes "retain_packages E i p s = (Inl e, s')"
  shows "(\<exists>x. e = PmInstall x) \<or> (\<exists>x. e = PmRetainPackageErrors x)"
proof (cases "installed_packages E i (pm_disk s)")
  case (Inl x)
  then show ?thesis
    using assms installed_packages_error[OF Inl] by (simp add: retain_packages_def Let_def sbind_def)
next
  case (Inr x)
  then show ?thesis
    using assms by (auto simp: retain_packages_def Let_def sbind_def split: prod.splits if_splits)
qed

lemma retain_packages_log: "pm_log (snd (retain_packages E i p s)) = pm_log s"
proof (cases "installed_packages E i (pm_disk s)")
  case (Inr ps)
  let ?retain = "p # (case map_of (pm_latest s) i of None \<Rightarrow> [] | Some q \<Rightarrow> [q])"
  let ?s1 = "s\<lparr>pm_latest := AList.update i p (pm_latest s)\<rparr>"
  obtain errs s2 where r: "remove_packages E ?retain ps ?s1 = (errs, s2)" by fastforce
  then show ?thesis
    using Inr remove_packages_state[OF r] by (simp add: retain_packages_def Let_def sbind_def)
qed (simp add: retain_packages_def Let_def sbind_def)

lemma extract_package_error: "extract_package E b dest s \<noteq> (Inl (PmPostDownloadHook e), s')"
  by (auto simp: extract_package_def result_simps split: prod.splits sum.splits)

lemma install_archive_hook_error:
  assumes "install_archive E p tmp dest s = (Inl (PmPostDownloadHook e), s')" and "pm_env_ok E" and "dirs_closed (pm_disk s)"
  shows "is_dir (pm_disk s') dest"
proof -
  obtain u1 d1 b d2 u3 s3 hook d where s: "dir_create (pe_os E) tmp (pm_disk s) = (Inr u1, d1)"
    "pe_download E p tmp d1 = (Inr b, d2)"
    "extract_package E b dest (pm_event (PmDownloads p) s\<lparr>pm_disk := d2\<rparr>) = (Inr u3, s3)"
    "pe_hook E hook dest (pm_disk s3) = (Inl e, d)" "s' = pm_event (PmRunsHook hook dest) s3\<lparr>pm_disk := d\<rparr>"
    using assms(1)
    by (auto simp: install_archive_def result_simps on_disk_eq pm_event_def extract_package_error split: option.splits)
  have c1: "dirs_closed d1" using s(1) assms(3) dirs_closed_create by blast
  have "dirs_closed d2" using c1 s(2) assms(2) unfolding pm_env_ok_def by (metis snd_conv)
  then have "is_dir (pm_disk s3) dest" using extract_package_ok[OF s(3) assms(2)] by (simp add: pm_event_def)
  then have "is_dir d dest" using s(4) assms(2) unfolding pm_env_ok_def by (metis snd_conv)
  then show ?thesis by (simp add: s(5) pm_event_def)
qed

text \<open>C38. After the hook of a package failed, installing the package again neither downloads it nor runs its hook:
  the extracted directory was left behind, so the package counts as installed and only the retention is left to do.\<close>

theorem failed_hook_is_skipped:
  assumes "pm_env_ok E" and "dirs_closed (pm_disk s)" and "segment_name (agent_id_as_str i)" and "segment_name (pd_id p)"
    and "pm_install E i p s = (Inl (PmPostDownloadHook e), s')"
  shows "pm_log (snd (pm_install E i p s')) = pm_log s' \<and>
    fst (pm_install E i p s') = map_ok (\<lambda>_. installed_as E i p) (fst (retain_packages E i (installed_as E i p) s'))"
proof -
  let ?ip = "installed_as E i p"
  let ?dest = "ip_installation_path ?ip"
  have "path_exists (pm_disk s') ?dest"
  proof (cases "path_exists (pm_disk s) ?dest")
    case True
    then have "\<exists>s1. retain_packages E i ?ip s = (Inl (PmPostDownloadHook e), s1)"
      using assms(5)
      by (auto simp: pm_install_def package_paths[OF assms(3,4)] installed_as_def package_at_def result_simps Let_def)
    then show ?thesis using retain_packages_error by blast
  next
    case False
    let ?tmp = "pe_remote_dir E @ [PACKAGES_FOLDER_NAME, agent_id_as_str i, TEMP_PCK_LOCATION, pd_id p, package_suffix (pe_libs E) p]"
    obtain s0 r d where s: "install_archive E p ?tmp ?dest s = (Inl (PmPostDownloadHook e), s0)"
      "dir_delete (pe_os E) ?tmp (pm_disk s0) = (r, d)" "s' = s0\<lparr>pm_disk := d\<rparr>"
    proof (cases "install_archive E p ?tmp ?dest s")
      case (Pair r0 s0)
      show thesis
      proof (cases r0)
        case (Inl e0)
        obtain r d where d: "dir_delete (pe_os E) ?tmp (pm_disk s0) = (r, d)" by fastforce
        have "pm_install E i p s = (Inl e0, s0\<lparr>pm_disk := d\<rparr>)"
          using False Pair Inl d
          by (simp add: pm_install_def package_paths(1,2)[OF assms(3,4)] installed_as_def package_at_def sbind_def slift_def on_disk_def)
        then show thesis using that[OF _ d] Pair Inl assms(5) by simp
      next
        case (Inr ip)
        have "retain_packages E i ip s1 \<noteq> (Inl (PmPostDownloadHook e), s2)" for s1 s2
          using retain_packages_error by blast
        then show thesis
          using False Pair Inr assms(5)
          by (simp add: pm_install_def package_paths(1,2)[OF assms(3,4)] installed_as_def package_at_def result_simps)
      qed
    qed
    have "?dest = pe_remote_dir E @ [PACKAGES_FOLDER_NAME, agent_id_as_str i, INSTALLED_PCK_LOCATION, pd_id p, package_suffix (pe_libs E) p]"
      unfolding installed_as_def package_at_def package_paths(3)[OF assms(3,4)] by simp
    then have "is_dir d ?dest"
      using dir_delete_keeps(1)[OF s(2), of ?dest] install_archive_hook_error[OF s(1) assms(1,2)] temp_not_over_stored by metis
    then show ?thesis by (simp add: s(3) path_exists_def)
  qed
  then have "pm_install E i p s' = sbind (retain_packages E i ?ip) (\<lambda>_. slift (Inr ?ip)) s'"
    by (simp add: pm_install_def package_paths(1)[OF assms(3,4)] installed_as_def package_at_def sbind_def slift_def Let_def)
  then show ?thesis using retain_packages_log[of E i ?ip s']
    by (auto simp: sbind_def slift_def map_ok_def split: prod.splits sum.splits)
qed

section \<open>A sample environment\<close>

definition sample_pm :: "(string + unit) \<Rightarrow> unit pm_env" where
  "sample_pm hook = \<lparr>pe_os = no_faults, pe_libs = sample_libs, pe_remote_dir = [''data''],
     pe_download = (\<lambda>_ _ d. (Inr (), d)), pe_extract = (\<lambda>_ _ d. (Inr (), d)), pe_hook = (\<lambda>_ _ d. (hook, d))\<rparr>"

definition sample_package :: "string \<Rightarrow> package_data" where
  "sample_package name = \<lparr>pd_id = name, pd_oci = \<lparr>oci_repository = ''agents'', oci_version = ''1.0'', oci_public_key_url = None\<rparr>,
     pd_post_download_hook = Some \<lparr>hook_path = ''setup'', hook_args = [], hook_env = []\<rparr>\<rparr>"

definition sample_pm_state :: pm_state where
  "sample_pm_state = \<lparr>pm_disk = \<lparr>dk_files = [], dk_dirs = []\<rparr>, pm_latest = [], pm_log = []\<rparr>"

lemma sample_pm_ok: "pm_env_ok (sample_pm hook)" "dirs_closed (pm_disk sample_pm_state)"
  by (simp_all add: pm_env_ok_def sample_pm_def dirs_closed_def sample_pm_state_def)

lemma sample_names:
  "segment_name (agent_id_as_str (SubAgent (SubAgentID ''infra'')))" "segment_name (pd_id (sample_package ''a''))"
  "segment_name (pd_id (sample_package ''b''))" "segment_name (pd_id (sample_package ''c''))"
  by code_simp+

lemma ok_result: "is_ok (fst m) \<Longrightarrow> m = (Inr (projr (fst m)), snd m)"
  by (cases m) (auto simp: is_ok_iff)

abbreviation sample_agent :: agent_id where
  "sample_agent \<equiv> SubAgent (SubAgentID ''infra'')"

definition sample_installs :: "string list \<Rightarrow> pm_state" where
  "sample_installs names =
     fold (\<lambda>name s. snd (pm_install (sample_pm (Inr ())) sample_agent (sample_package name) s)) names sample_pm_state"

theorem install_keeps_last_two_witness:
  "path_exists (pm_disk (sample_installs [''a'']))
     (ip_installation_path (installed_as (sample_pm (Inr ())) sample_agent (sample_package ''a'')))"
proof -
  have "is_ok (fst (pm_install (sample_pm (Inr ())) sample_agent (sample_package ''a'') sample_pm_state))" by code_simp
  from install_keeps_last_two[OF sample_pm_ok sample_names(1,2) ok_result[OF this]]
  show ?thesis unfolding sample_installs_def fold.simps o_apply id_apply by (elim conjE) (erule subst, assumption)
qed

theorem third_package_evicts_first_witness:
  "\<not> is_dir (pm_disk (sample_installs [''a'', ''b'', ''c'']))
     (ip_installation_path (projr (fst (pm_install (sample_pm (Inr ())) sample_agent (sample_package ''a'') sample_pm_state))))"
proof -
  have ok: "is_ok (fst (pm_install (sample_pm (Inr ())) sample_agent (sample_package ''a'') sample_pm_state))"
    "is_ok (fst (pm_install (sample_pm (Inr ())) sample_agent (sample_package ''b'') (sample_installs [''a''])))"
    "is_ok (fst (pm_install (sample_pm (Inr ())) sample_agent (sample_package ''c'') (sample_installs [''a'', ''b''])))"
    "pd_id (sample_package ''a'') \<noteq> pd_id (sample_package ''b'')" "pd_id (sample_package ''a'') \<noteq> pd_id (sample_package ''c'')"
    by code_simp+
  have st: "sample_installs [''a''] = snd (pm_install (sample_pm (Inr ())) sample_agent (sample_package ''a'') sample_pm_state)"
    "sample_installs [''a'', ''b''] = snd (pm_install (sample_pm (Inr ())) sample_agent (sample_package ''b'') (sample_installs [''a'']))"
    "sample_installs [''a'', ''b'', ''c''] =
       snd (pm_install (sample_pm (Inr ())) sample_agent (sample_package ''c'') (sample_installs [''a'', ''b'']))"
    by (simp_all add: sample_installs_def)
  show ?thesis
    by (rule third_package_evicts_first[OF sample_pm_ok sample_names(1-4) ok_result[OF ok(1), folded st(1)]
        ok_result[OF ok(2), folded st(2)] ok_result[OF ok(3), folded st(3)] ok(4,5)])
qed

theorem failed_hook_is_skipped_witness:
  "let s = snd (pm_install (sample_pm (Inl ''exit status: 1'')) sample_agent (sample_package ''a'') sample_pm_state)
   in pm_log s = [PmDownloads (sample_package ''a''),
        PmRunsHook \<lparr>hook_path = ''setup'', hook_args = [], hook_env = []\<rparr>
          (ip_installation_path (installed_as (sample_pm (Inl ''exit status: 1'')) sample_agent (sample_package ''a'')))] \<and>
      pm_log (snd (pm_install (sample_pm (Inl ''exit status: 1'')) sample_agent (sample_package ''a'') s)) = pm_log s"
proof -
  let ?r = "pm_install (sample_pm (Inl ''exit status: 1'')) sample_agent (sample_package ''a'') sample_pm_state"
  have "fst ?r = Inl (PmPostDownloadHook ''exit status: 1'')" by code_simp
  then have r: "?r = (Inl (PmPostDownloadHook ''exit status: 1''), snd ?r)" by (metis prod.collapse)
  have log: "pm_log (snd ?r) = [PmDownloads (sample_package ''a''),
        PmRunsHook \<lparr>hook_path = ''setup'', hook_args = [], hook_env = []\<rparr>
          (ip_installation_path (installed_as (sample_pm (Inl ''exit status: 1'')) sample_agent (sample_package ''a'')))]"
    by code_simp
  show ?thesis using log failed_hook_is_skipped[OF sample_pm_ok sample_names(1,2) r] unfolding Let_def by blast
qed

end
