(* ===== verification/Templates.thy ===== *)
theory Templates
  imports Agent_Variables
begin

text \<open>
  Templates (\<open>agent_type/templates.rs\<close>, \<open>agent_type/templates_function.rs\<close>): placeholders such as
  \<open>${nr-var:name|indent 2}\<close> in strings and in JSON values, replaced by the values of variables.

  The regular expression for placeholders is matched by recursive functions. Every part of it ends at a
  character that the part cannot contain, so a greedy match never has to be undone and the functions need no
  backtracking.
\<close>

section \<open>Placeholders\<close>

definition is_decimal_digit :: "serde_libs \<Rightarrow> string \<Rightarrow> bool" where
  "is_decimal_digit L ch =
     (case ch of
        [] \<Rightarrow> False
      | c # r \<Rightarrow> if r = [] \<and> of_char c < (128 :: nat) then is_ascii_digit c
                else (128 :: nat) \<le> of_char c \<and> sl_unicode_digit L ch)"

definition is_name_char :: "char \<Rightarrow> bool" where
  "is_name_char c \<longleftrightarrow> is_ascii_alphanumeric c \<or> c \<in> {CHR ''.'', CHR ''-'', CHR ''_'', CHR ''/'', CHR '':''}"

text \<open>One function with its pipe: \<open>\s*\|\s*[a-zA-Z]+\s*\d*\<close>.\<close>

definition match_pipe :: "serde_libs \<Rightarrow> string \<Rightarrow> (string \<times> string) option" where
  "match_pipe L s =
     (case span_chars is_whitespace s of
        (w1, s1) \<Rightarrow>
          (case s1 of
             [] \<Rightarrow> None
           | c # s2 \<Rightarrow>
               if c \<noteq> CHR ''|'' then None
               else
                 (case span_chars is_whitespace s2 of
                    (w2, s3) \<Rightarrow>
                      let name = takeWhile is_ascii_alphabetic s3; s4 = dropWhile is_ascii_alphabetic s3 in
                      if name = [] then None
                      else
                        (case span_chars is_whitespace s4 of
                           (w3, s5) \<Rightarrow>
                             (case span_chars (is_decimal_digit L) s5 of
                                (n, s6) \<Rightarrow> Some (w1 @ c # w2 @ name @ w3 @ n, s6))))))"

lemma match_pipe_append: "match_pipe L s = Some (m, r) \<Longrightarrow> s = m @ r \<and> m \<noteq> []"
  by (auto simp: match_pipe_def Let_def dest!: span_chars_append split: prod.splits list.splits if_splits)
    (metis takeWhile_dropWhile_id)

function match_pipes :: "serde_libs \<Rightarrow> string \<Rightarrow> string \<times> string" where
  "match_pipes L s =
     (case match_pipe L s of
        None \<Rightarrow> ([], s)
      | Some (m, r) \<Rightarrow> (case match_pipes L r of (ms, r') \<Rightarrow> (m @ ms, r')))"
  by pat_completeness auto
termination
  by (relation "measure (\<lambda>(_, s). length s)") (auto dest!: match_pipe_append)

declare match_pipes.simps [simp del]

text \<open>A placeholder at the beginning of a string: the variable, the functions, and what follows.\<close>

definition match_template :: "serde_libs \<Rightarrow> string \<Rightarrow> (string \<times> string \<times> string) option" where
  "match_template L s =
     (case strip_prefix ''${nr-'' s of
        None \<Rightarrow> None
      | Some s1 \<Rightarrow>
          (case (takeWhile is_ascii_lowercase s1, dropWhile is_ascii_lowercase s1) of
             (ns, c # s2) \<Rightarrow>
               let name = takeWhile is_name_char s2 in
               if ns = [] \<or> c \<noteq> CHR '':'' \<or> name = [] then None
               else
                 (case match_pipes L (dropWhile is_name_char s2) of
                    (fns, d # rest) \<Rightarrow>
                      if d = CHR ''}'' then Some (''nr-'' @ ns @ '':'' @ name, fns, rest) else None
                  | _ \<Rightarrow> None)
           | _ \<Rightarrow> None))"

definition placeholder :: "string \<Rightarrow> string \<Rightarrow> string" where
  "placeholder var fns = ''${'' @ var @ fns @ ''}''"

lemma match_pipes_append: "match_pipes L s = (fns, r) \<Longrightarrow> s = fns @ r"
proof (induction L s arbitrary: fns r rule: match_pipes.induct)
  case (1 L s)
  then show ?case
    by (auto simp: match_pipes.simps[of L s] dest!: match_pipe_append split: option.splits prod.splits)
qed

lemma match_template_append: "match_template L s = Some (var, fns, rest) \<Longrightarrow> s = placeholder var fns @ rest"
  by (auto simp: match_template_def placeholder_def strip_prefix_Some Let_def dest!: match_pipes_append
      split: option.splits list.splits prod.splits if_splits)
    (metis takeWhile_dropWhile_id)

lemma length_match_template [termination_simp]:
  "match_template L s = Some (var, fns, rest) \<Longrightarrow> length rest < length s"
  by (auto dest!: match_template_append simp: placeholder_def)

lemma length_match_template_Cons [termination_simp]:
  "match_template L (c # s) = Some (var, fns, rest) \<Longrightarrow> length rest < Suc (length s)"
  using length_match_template[of L "c # s"] by simp

text \<open>\<open>captures_iter\<close>: the placeholders of a string, with the variable and the functions of each.\<close>

fun captures_iter :: "serde_libs \<Rightarrow> string \<Rightarrow> (string \<times> string) list" where
  "captures_iter L [] = []"
| "captures_iter L (c # s) =
     (case match_template L (c # s) of
        None \<Rightarrow> captures_iter L s
      | Some (var, fns, rest) \<Rightarrow> (var, fns) # captures_iter L rest)"

section \<open>Functions\<close>

datatype function_error = ApplyingFunction string | ParsingFunction string | UnknownFunctionName string

fun function_error_fmt :: "function_error \<Rightarrow> string" where
  "function_error_fmt (ApplyingFunction s) = ''applying function: '' @ s"
| "function_error_fmt (ParsingFunction s) = ''parsing function: '' @ s"
| "function_error_fmt (UnknownFunctionName s) = ''not supported function: '' @ s"

text \<open>\<open>Indent\<close> holds an unsigned 8-bit number.\<close>

datatype supported_function = Indent nat

definition newline :: char where
  "newline = CHR 0x0A"

fun function_apply :: "supported_function \<Rightarrow> string \<Rightarrow> function_error + string" where
  "function_apply (Indent n) s = Inr (replace_all [newline] (newline # replicate n (CHR '' '')) s)"

definition function_parse :: "string \<Rightarrow> function_error + supported_function" where
  "function_parse s =
     (case strip_prefix ''indent'' (map to_ascii_lowercase (trim s)) of
        None \<Rightarrow> Inl (UnknownFunctionName s)
      | Some n_parameter \<Rightarrow>
          (case parse_uint 8 (trim n_parameter) of
             None \<Rightarrow> Inl (ParsingFunction (''parsing space number parameter: '' @ s))
           | Some n \<Rightarrow> Inr (Indent n)))"

text \<open>The expression for the functions is an alternative: a backslash followed by letters \<open>s\<close>, or a name with its
  parameter.\<close>

definition match_function :: "serde_libs \<Rightarrow> string \<Rightarrow> (string \<times> string) option" where
  "match_function L s =
     (case s of
        [] \<Rightarrow> None
      | c # r \<Rightarrow>
          if c = CHR 0x5C then Some (c # takeWhile (\<lambda>d. d = CHR ''s'') r, dropWhile (\<lambda>d. d = CHR ''s'') r)
          else
            (case span_chars is_whitespace s of
               (w1, s1) \<Rightarrow>
                 let name = takeWhile is_ascii_alphabetic s1; s2 = dropWhile is_ascii_alphabetic s1 in
                 if name = [] then None
                 else
                   (case span_chars is_whitespace s2 of
                      (w2, s3) \<Rightarrow>
                        (case span_chars (is_decimal_digit L) s3 of
                           (n, s4) \<Rightarrow> Some (w1 @ name @ w2 @ n, s4)))))"

lemma match_function_append: "match_function L s = Some (m, r) \<Longrightarrow> s = m @ r \<and> m \<noteq> []"
  by (auto simp: match_function_def Let_def dest!: span_chars_append split: prod.splits list.splits if_splits)
    (metis takeWhile_dropWhile_id)+

lemma length_match_function [termination_simp]:
  "match_function L (c # s) = Some (m, r) \<Longrightarrow> length r < Suc (length s)"
  by (drule match_function_append) (metis length_Cons length_append less_add_same_cancel2 length_greater_0_conv)

fun find_functions :: "serde_libs \<Rightarrow> string \<Rightarrow> string list" where
  "find_functions L [] = []"
| "find_functions L (c # s) =
     (case match_function L (c # s) of
        None \<Rightarrow> find_functions L s
      | Some (m, r) \<Rightarrow> m # find_functions L r)"

definition parse_function_list :: "serde_libs \<Rightarrow> string \<Rightarrow> function_error + supported_function list" where
  "parse_function_list L s = try_map (\<lambda>m. function_parse (trim_start_matches ''|'' m)) (find_functions L s)"

section \<open>Strings\<close>

type_synonym variables = "(string \<times> variable) list"

definition normalized_var :: "string \<Rightarrow> variables \<Rightarrow> agent_type_error + variable" where
  "normalized_var name vars = ok_or (MissingTemplateKey name) (map_of vars name)"

text \<open>The text a placeholder stands for.\<close>

definition placeholder_value :: "serde_libs \<Rightarrow> variables \<Rightarrow> string \<times> string \<Rightarrow> agent_type_error + string" where
  "placeholder_value L vars capture =
     (case capture of
        (captured_var, captured_functions) \<Rightarrow>
          rbind (normalized_var captured_var vars) (\<lambda>v.
          rbind (map_ok (trivial_value_fmt L)
                   (ok_or (MissingTemplateKey (placeholder captured_var captured_functions)) (get_final_value v))) (\<lambda>val.
          rbind (map_err (\<lambda>e. RenderingTemplate (function_error_fmt e)) (parse_function_list L captured_functions)) (\<lambda>functions.
          try_fold (\<lambda>acc m. map_err (\<lambda>e. RenderingTemplate (function_error_fmt e)) (function_apply m acc)) val functions))))"

definition template_string :: "serde_libs \<Rightarrow> variables \<Rightarrow> string \<Rightarrow> agent_type_error + string" where
  "template_string L vars s =
     try_fold (\<lambda>render_result capture.
        map_ok (\<lambda>final_value. replace_all (placeholder (fst capture) (snd capture)) final_value render_result)
          (placeholder_value L vars capture))
       s (captures_iter L s)"

section \<open>JSON values\<close>

definition template_trim :: "string \<Rightarrow> string" where
  "template_trim s = trim_end_char (CHR ''}'') (trim_start_matches ''${'' s)"

definition only_template_var :: "serde_libs \<Rightarrow> string \<Rightarrow> bool" where
  "only_template_var L s = (case match_template L s of Some (_, _, rest) \<Rightarrow> rest = [] | None \<Rightarrow> False)"

definition template_yaml_value_string :: "serde_libs \<Rightarrow> variables \<Rightarrow> string \<Rightarrow> agent_type_error + json" where
  "template_yaml_value_string L vars s =
     (if \<not> only_template_var L s then map_ok JString (template_string L vars s)
      else
        (let var_name = template_trim s in
         rbind (normalized_var var_name vars) (\<lambda>var_spec.
         rbind (ok_or (MissingValue var_name) (get_final_value var_spec)) (\<lambda>var_value.
         case v_variable_type var_spec of
           YamlType _ \<Rightarrow>
             ok_or (UnexpectedValueForKey var_name (trivial_value_fmt L var_value)) (to_yaml_value var_value)
         | BoolType _ \<Rightarrow> map_err Serialization (sl_yaml_from_str L (trivial_value_fmt L var_value))
         | NumberType _ \<Rightarrow> map_err Serialization (sl_yaml_from_str L (trivial_value_fmt L var_value))
         | _ \<Rightarrow> Inr (JString (trivial_value_fmt L var_value))))))"

fun template_json :: "serde_libs \<Rightarrow> variables \<Rightarrow> json \<Rightarrow> agent_type_error + json"
  and template_map :: "serde_libs \<Rightarrow> variables \<Rightarrow> (string \<times> json) list \<Rightarrow> agent_type_error + (string \<times> json) list"
  and template_vec :: "serde_libs \<Rightarrow> variables \<Rightarrow> json list \<Rightarrow> agent_type_error + json list" where
  "template_json L vars (JObject m) = map_ok JObject (template_map L vars m)"
| "template_json L vars (JArray xs) = map_ok JArray (template_vec L vars xs)"
| "template_json L vars (JString s) = template_yaml_value_string L vars s"
| "template_json L vars j = Inr j"
| "template_map L vars [] = Inr []"
| "template_map L vars ((k, v) # m) =
     rbind (template_json L vars v) (\<lambda>v. rbind (template_map L vars m) (\<lambda>m. Inr ((k, v) # m)))"
| "template_vec L vars [] = Inr []"
| "template_vec L vars (x # xs) =
     rbind (template_json L vars x) (\<lambda>x. rbind (template_vec L vars xs) (\<lambda>xs. Inr (x # xs)))"

definition template_yaml_config :: "serde_libs \<Rightarrow> variables \<Rightarrow> json yaml_config \<Rightarrow> agent_type_error + json yaml_config" where
  "template_yaml_config L vars c = template_map L vars c"

section \<open>A placeholder does not depend on what follows\<close>

lemma brace_not_cont [simp]: "\<not> is_cont (CHR ''}'')"
  by (simp add: is_cont_def)

lemma takeWhile_brace:
  assumes "\<not> p (CHR ''}'')"
  shows "takeWhile p (u @ CHR ''}'' # t) = takeWhile p u" "dropWhile p (u @ CHR ''}'' # t) = dropWhile p u @ CHR ''}'' # t"
  using assms by (induction u) simp_all

lemma span_chars_brace:
  assumes "\<And>r. \<not> p (CHR ''}'' # r)"
  shows "\<exists>a b. u = a @ b \<and> (\<forall>t. span_chars p (u @ CHR ''}'' # t) = (a, b @ CHR ''}'' # t))"
proof (induction u rule: length_induct)
  case (1 u)
  show ?case
  proof (cases u)
    case Nil
    then show ?thesis using assms by simp
  next
    case (Cons c s)
    show ?thesis
    proof (cases "p (c # takeWhile is_cont s)")
      case True
      obtain a b where ab: "dropWhile is_cont s = a @ b" "\<And>t. span_chars p (dropWhile is_cont s @ CHR ''}'' # t) = (a, b @ CHR ''}'' # t)"
        using "1.IH"[rule_format, of "dropWhile is_cont s"] Cons by (auto simp: length_dropWhile_less)
      have "s = takeWhile is_cont s @ a @ b" using ab(1) by (metis takeWhile_dropWhile_id)
      then have "u = (c # takeWhile is_cont s @ a) @ b"
        "\<forall>t. span_chars p (u @ CHR ''}'' # t) = (c # takeWhile is_cont s @ a, b @ CHR ''}'' # t)"
        using Cons True ab(2) by (simp_all add: takeWhile_brace)
      then show ?thesis by blast
    next
      case False
      then have "u = [] @ u" "\<forall>t. span_chars p (u @ CHR ''}'' # t) = ([], u @ CHR ''}'' # t)"
        using Cons by (simp_all add: takeWhile_brace)
      then show ?thesis by blast
    qed
  qed
qed

lemma white_space_no_brace: "\<forall>w \<in> set white_space. (125 :: nat) \<notin> set w \<and> 36 \<notin> set w"
  by code_simp

lemma whitespace_brace: "\<not> is_whitespace (CHR ''}'' # r)"
  using white_space_no_brace by (force simp: is_whitespace_def)

lemma digit_brace: "\<not> is_decimal_digit L (CHR ''}'' # r)"
  by (auto simp: is_decimal_digit_def is_ascii_digit_def)

lemma match_pipe_brace:
  "(\<forall>t. match_pipe L (u @ CHR ''}'' # t) = None) \<or>
   (\<exists>m b. u = m @ b \<and> m \<noteq> [] \<and> (\<forall>t. match_pipe L (u @ CHR ''}'' # t) = Some (m, b @ CHR ''}'' # t)))"
proof -
  obtain w1 s1 where s1: "u = w1 @ s1" "\<And>t. span_chars is_whitespace (u @ CHR ''}'' # t) = (w1, s1 @ CHR ''}'' # t)"
    using span_chars_brace[of is_whitespace, OF whitespace_brace] by blast
  show ?thesis
  proof (cases "\<exists>s2. s1 = CHR ''|'' # s2")
    case False
    then have "match_pipe L (u @ CHR ''}'' # t) = None" for t
      using s1(2)[of t] by (cases s1) (auto simp: match_pipe_def)
    then show ?thesis by blast
  next
    case True
    then obtain s2 where s2: "s1 = CHR ''|'' # s2" by blast
    obtain w2 s3 where s3: "s2 = w2 @ s3" "\<And>t. span_chars is_whitespace (s2 @ CHR ''}'' # t) = (w2, s3 @ CHR ''}'' # t)"
      using span_chars_brace[of is_whitespace, OF whitespace_brace] by blast
    obtain w3 s5 where s5: "dropWhile is_ascii_alphabetic s3 = w3 @ s5"
        "\<And>t. span_chars is_whitespace (dropWhile is_ascii_alphabetic s3 @ CHR ''}'' # t) = (w3, s5 @ CHR ''}'' # t)"
      using span_chars_brace[of is_whitespace, OF whitespace_brace] by blast
    obtain n s6 where s6: "s5 = n @ s6" "\<And>t. span_chars (is_decimal_digit L) (s5 @ CHR ''}'' # t) = (n, s6 @ CHR ''}'' # t)"
      using span_chars_brace[of "is_decimal_digit L", OF digit_brace] by blast
    have alpha: "\<not> is_ascii_alphabetic (CHR ''}'')" by (simp add: ascii_defs)
    note tw = takeWhile_brace[of is_ascii_alphabetic, OF alpha]
    show ?thesis
    proof (cases "takeWhile is_ascii_alphabetic s3 = []")
      case True
      then have "match_pipe L (u @ CHR ''}'' # t) = None" for t
        using s1(2)[of t] s2 s3(2)[of t] by (simp add: match_pipe_def tw)
      then show ?thesis by blast
    next
      case False
      let ?m = "w1 @ CHR ''|'' # w2 @ takeWhile is_ascii_alphabetic s3 @ w3 @ n"
      have "s3 = takeWhile is_ascii_alphabetic s3 @ w3 @ n @ s6" using s5(1) s6(1) by (metis takeWhile_dropWhile_id)
      then have "u = ?m @ s6" using s1(1) s2 s3(1) by simp
      moreover have "match_pipe L (u @ CHR ''}'' # t) = Some (?m, s6 @ CHR ''}'' # t)" for t
        using False s1(2)[of t] s2 s3(2)[of t] s5(2)[of t] s6(2)[of t] by (simp add: match_pipe_def tw)
      moreover have "?m \<noteq> []" by simp
      ultimately show ?thesis by blast
    qed
  qed
qed

lemma match_pipes_brace: "\<exists>a b. u = a @ b \<and> (\<forall>t. match_pipes L (u @ CHR ''}'' # t) = (a, b @ CHR ''}'' # t))"
proof (induction u rule: length_induct)
  case (1 u)
  from match_pipe_brace[of L u] show ?case
  proof (elim disjE exE conjE)
    assume "\<forall>t. match_pipe L (u @ CHR ''}'' # t) = None"
    then show ?thesis by (simp add: match_pipes.simps[of L "u @ CHR ''}'' # _"])
  next
    fix m b
    assume u: "u = m @ b" "m \<noteq> []" and m: "\<forall>t. match_pipe L (u @ CHR ''}'' # t) = Some (m, b @ CHR ''}'' # t)"
    obtain a' b' where b: "b = a' @ b'" "\<forall>t. match_pipes L (b @ CHR ''}'' # t) = (a', b' @ CHR ''}'' # t)"
      using "1.IH"[rule_format, of b] u by auto
    have "match_pipes L (u @ CHR ''}'' # t) = (m @ a', b' @ CHR ''}'' # t)" for t
      unfolding match_pipes.simps[of L "u @ CHR ''}'' # t"] m[rule_format] using b(2) by simp
    moreover have "u = (m @ a') @ b'" using u b(1) by simp
    ultimately show ?thesis by blast
  qed
qed

lemma match_template_brace:
  "(\<forall>t. match_template L (''${nr-'' @ u @ CHR ''}'' # t) = None) \<or>
   (\<exists>var fns. \<forall>t. match_template L (''${nr-'' @ u @ CHR ''}'' # t) = Some (var, fns, t)) \<or>
   (\<exists>var fns b. \<forall>t. match_template L (''${nr-'' @ u @ CHR ''}'' # t) = Some (var, fns, b @ CHR ''}'' # t))"
proof -
  have low: "\<not> is_ascii_lowercase (CHR ''}'')" and nam: "\<not> is_name_char (CHR ''}'')"
    by (simp_all add: ascii_defs is_name_char_def)
  note tw = takeWhile_brace[of is_ascii_lowercase, OF low] takeWhile_brace[of is_name_char, OF nam]
  have strip: "strip_prefix ''${nr-'' (''${nr-'' @ x) = Some x" for x by (simp add: strip_prefix_Some)
  show ?thesis
  proof (cases "dropWhile is_ascii_lowercase u")
    case Nil
    have "match_template L (''${nr-'' @ u @ CHR ''}'' # t) = None" for t
      unfolding match_template_def strip by (simp add: tw Nil del: dropWhile_eq_Nil_conv)
    then show ?thesis by blast
  next
    case (Cons c s2)
    obtain fns b where b: "dropWhile is_name_char s2 = fns @ b"
        "\<And>t. match_pipes L (dropWhile is_name_char s2 @ CHR ''}'' # t) = (fns, b @ CHR ''}'' # t)"
      using match_pipes_brace[of "dropWhile is_name_char s2" L] by blast
    let ?bad = "takeWhile is_ascii_lowercase u = [] \<or> c \<noteq> CHR '':'' \<or> takeWhile is_name_char s2 = []"
    let ?var = "''nr-'' @ takeWhile is_ascii_lowercase u @ '':'' @ takeWhile is_name_char s2"
    have m: "match_template L (''${nr-'' @ u @ CHR ''}'' # t) =
        (if ?bad then None
         else case b @ CHR ''}'' # t of d # rest \<Rightarrow> if d = CHR ''}'' then Some (?var, fns, rest) else None | [] \<Rightarrow> None)" for t
      unfolding match_template_def strip using Cons b(2)[of t] by (simp add: tw)
    show ?thesis unfolding m
      by (cases ?bad; cases b) simp_all
  qed
qed

lemma match_template_nr:
  assumes "match_template L s = Some (var, fns, rest)"
  obtains u where "placeholder var fns = ''${nr-'' @ u @ ''}''"
  using assms by (auto simp: match_template_def placeholder_def Let_def split: option.splits list.splits prod.splits if_splits)

lemma match_template_any:
  assumes "match_template L s = Some (var, fns, rest)"
  shows "match_template L (placeholder var fns @ t) = Some (var, fns, t)"
proof -
  obtain u where u: "placeholder var fns = ''${nr-'' @ u @ ''}''" using match_template_nr[OF assms] .
  have m: "match_template L (''${nr-'' @ u @ CHR ''}'' # rest) = Some (var, fns, rest)"
    using assms match_template_append[OF assms] u by simp
  from match_template_brace[of L u] show ?thesis
  proof (elim disjE exE)
    fix var' fns' b
    assume "\<forall>t. match_template L (''${nr-'' @ u @ CHR ''}'' # t) = Some (var', fns', b @ CHR ''}'' # t)"
    then have "rest = b @ CHR ''}'' # rest" using m by simp
    then show ?thesis by (metis append_Cons append_eq_append_conv2 list.distinct(1) self_append_conv2 append_is_Nil_conv)
  qed (use m u in auto)
qed

section \<open>Where dollars and braces occur\<close>

text \<open>The variable and the functions of a placeholder contain neither.\<close>

definition undelimited :: "string \<Rightarrow> bool" where
  "undelimited s \<longleftrightarrow> CHR ''$'' \<notin> set s \<and> CHR ''}'' \<notin> set s"

lemma undelimited_simps [simp]:
  "undelimited []" "undelimited (c # s) \<longleftrightarrow> c \<noteq> CHR ''$'' \<and> c \<noteq> CHR ''}'' \<and> undelimited s"
  "undelimited (s @ t) \<longleftrightarrow> undelimited s \<and> undelimited t"
  by (auto simp: undelimited_def)

lemma whitespace_undelimited: "is_whitespace ch \<Longrightarrow> undelimited ch"
  using white_space_no_brace by (force simp: is_whitespace_def undelimited_def)

lemma conts_undelimited: "undelimited (takeWhile is_cont r)"
  by (auto simp: undelimited_def is_cont_def dest!: set_takeWhileD)

lemma span_whitespace_undelimited: "span_chars is_whitespace s = (a, b) \<Longrightarrow> undelimited a"
  unfolding undelimited_def using whitespace_undelimited by (metis span_chars_consumed undelimited_def)

lemma digit_undelimited: "is_decimal_digit L (c # takeWhile is_cont r) \<Longrightarrow> undelimited (c # takeWhile is_cont r)"
  using conts_undelimited by (auto simp: is_decimal_digit_def is_ascii_digit_def split: if_splits)

lemma span_digit_undelimited: "span_chars (is_decimal_digit L) s = (a, b) \<Longrightarrow> undelimited a"
  unfolding undelimited_def using digit_undelimited by (metis span_chars_consumed undelimited_def)

lemma takeWhile_undelimited:
  "undelimited (takeWhile is_ascii_alphabetic s)" "undelimited (takeWhile is_ascii_lowercase s)"
  "undelimited (takeWhile is_name_char s)"
  by (auto dest!: set_takeWhileD simp: ascii_defs is_name_char_def undelimited_def)

lemma match_pipe_undelimited: "match_pipe L s = Some (m, r) \<Longrightarrow> undelimited m"
  using takeWhile_undelimited
  by (auto simp: match_pipe_def Let_def dest!: span_whitespace_undelimited span_digit_undelimited
      split: prod.splits list.splits if_splits)

lemma match_pipes_undelimited: "match_pipes L s = (fns, r) \<Longrightarrow> undelimited fns"
proof (induction L s arbitrary: fns r rule: match_pipes.induct)
  case (1 L s)
  show ?case
  proof (cases "match_pipe L s")
    case None
    with "1.prems" show ?thesis by (simp add: match_pipes.simps[of L s])
  next
    case (Some mr)
    obtain m r1 where mr: "mr = (m, r1)" by (cases mr)
    obtain ms r2 where ms: "match_pipes L r1 = (ms, r2)" by fastforce
    have "undelimited ms" using "1.IH"[OF Some _ ms] mr by simp
    moreover have "fns = m @ ms" using "1.prems" Some mr ms by (simp add: match_pipes.simps[of L s])
    ultimately show ?thesis using match_pipe_undelimited[of L s m r1] Some mr by simp
  qed
qed

lemma match_template_undelimited:
  "match_template L s = Some (var, fns, rest) \<Longrightarrow> undelimited var \<and> undelimited fns"
  using takeWhile_undelimited
  by (auto simp: match_template_def Let_def dest!: match_pipes_undelimited split: option.splits list.splits prod.splits if_splits)

section \<open>Rendering is substitution\<close>

text \<open>A string as literal text and slots for variables, and its rendering by substituting all slots at once.\<close>

datatype segment = Literal string | Slot string string

fun segments :: "serde_libs \<Rightarrow> string \<Rightarrow> segment list" where
  "segments L [] = []"
| "segments L (c # s) =
     (case match_template L (c # s) of
        Some (var, fns, rest) \<Rightarrow> Slot var fns # segments L rest
      | None \<Rightarrow> (case segments L s of Literal t # ss \<Rightarrow> Literal (c # t) # ss | ss \<Rightarrow> Literal [c] # ss))"

fun segment_text :: "segment \<Rightarrow> string" where
  "segment_text (Literal t) = t"
| "segment_text (Slot var fns) = placeholder var fns"

fun render_segment :: "serde_libs \<Rightarrow> variables \<Rightarrow> segment \<Rightarrow> agent_type_error + string" where
  "render_segment L vars (Literal t) = Inr t"
| "render_segment L vars (Slot var fns) = placeholder_value L vars (var, fns)"

definition substitute :: "serde_libs \<Rightarrow> variables \<Rightarrow> string \<Rightarrow> agent_type_error + string" where
  "substitute L vars s = map_ok concat (try_map (render_segment L vars) (segments L s))"

text \<open>Text in which, and at the end of which, no placeholder can begin.\<close>

fun plain :: "string \<Rightarrow> bool" where
  "plain [] = True"
| "plain (c # s) = ((c = CHR ''$'' \<longrightarrow> s \<noteq> [] \<and> hd s \<noteq> CHR ''{'') \<and> plain s)"

fun segment_ok :: "serde_libs \<Rightarrow> segment \<Rightarrow> bool" where
  "segment_ok L (Literal t) = plain t"
| "segment_ok L (Slot var fns) = (match_template L (placeholder var fns) = Some (var, fns, []))"

fun slots :: "segment list \<Rightarrow> (string \<times> string) list" where
  "slots [] = []"
| "slots (Literal _ # ss) = slots ss"
| "slots (Slot var fns # ss) = (var, fns) # slots ss"

lemma segments_text: "concat (map segment_text (segments L s)) = s"
proof (induction L s rule: segments.induct)
  case (2 L c s)
  show ?case
  proof (cases "match_template L (c # s)")
    case None
    with "2.IH"(1)[OF None] show ?thesis by (auto split: list.splits segment.splits)
  next
    case (Some vfr)
    then obtain var fns rest where vfr: "match_template L (c # s) = Some (var, fns, rest)" by (cases vfr) auto
    with "2.IH"(2)[OF vfr refl refl]
    have "concat (map segment_text (segments L (c # s))) = placeholder var fns @ rest" by simp
    with match_template_append[OF vfr] show ?thesis by metis
  qed
qed simp

lemma slots_segments: "slots (segments L s) = captures_iter L s"
proof (induction L s rule: segments.induct)
  case (2 L c s)
  then show ?case by (auto split: option.splits list.splits segment.splits)
qed simp

lemma segments_slot_ok: "Slot var fns \<in> set (segments L s) \<Longrightarrow> segment_ok L (Slot var fns)"
proof (induction L s rule: segments.induct)
  case (2 L c s)
  show ?case
  proof (cases "match_template L (c # s)")
    case None
    with 2 show ?thesis by (auto split: list.splits segment.splits)
  next
    case (Some vfr)
    then obtain v f rest where vfr: "match_template L (c # s) = Some (v, f, rest)" by (cases vfr) auto
    with 2(2)[OF vfr refl refl] "2.prems" match_template_any[OF vfr, of "[]"] show ?thesis by auto
  qed
qed simp

lemma plain_suffix: "plain (u @ w) \<Longrightarrow> plain w"
  by (induction u) auto

lemma placeholder_not_prefix_plain:
  assumes "plain w" and "w \<noteq> []"
  shows "strip_prefix (placeholder var fns) (w @ t) = None"
  using assms by (cases w; cases "tl w") (auto simp: placeholder_def)

lemma placeholder_not_inside:
  assumes "CHR ''$'' \<notin> set w" and "w \<noteq> []"
  shows "strip_prefix (placeholder var fns) (w @ t) = None"
  using assms by (cases w) (auto simp: placeholder_def)

lemma slot_match: "segment_ok L (Slot var fns) \<Longrightarrow> match_template L (placeholder var fns @ t) = Some (var, fns, t)"
  using match_template_any by fastforce

lemma replace_slot_other:
  assumes "segment_ok L (Slot var fns)" and "segment_ok L (Slot v f)" and "(v, f) \<noteq> (var, fns)"
  shows "replace_all (placeholder var fns) x (placeholder v f @ t) = placeholder v f @ replace_all (placeholder var fns) x t"
proof (rule replace_all_append)
  show "placeholder var fns \<noteq> []" by (simp add: placeholder_def)
  fix u w
  assume uw: "u @ w = placeholder v f" "w \<noteq> []"
  show "strip_prefix (placeholder var fns) (w @ t) = None"
  proof (cases u)
    case Nil
    show ?thesis
    proof (cases "strip_prefix (placeholder var fns) (w @ t)")
      case (Some r)
      then have "placeholder v f @ t = placeholder var fns @ r" using uw Nil by (simp add: strip_prefix_Some)
      with slot_match[OF assms(1), of r] slot_match[OF assms(2), of t] assms(3) show ?thesis by simp
    qed simp
  next
    case (Cons c u')
    then have "u' @ w = CHR ''{'' # v @ f @ ''}''" using uw by (simp add: placeholder_def)
    then have "set w \<subseteq> set (CHR ''{'' # v @ f @ ''}'')" by (metis set_append Un_upper2)
    then have "CHR ''$'' \<notin> set w"
      using match_template_undelimited[of L _ v f] assms(2) by (auto simp: undelimited_def)
    with uw(2) show ?thesis by (rule placeholder_not_inside[rotated])
  qed
qed

lemma replace_segments:
  assumes "segment_ok L (Slot var fns)" and "\<forall>seg \<in> set segs. segment_ok L seg"
  shows "replace_all (placeholder var fns) x (concat (map segment_text segs)) =
    concat (map (\<lambda>seg. if seg = Slot var fns then x else segment_text seg) segs)"
  using assms(2)
proof (induction segs)
  case (Cons seg segs)
  have ne: "placeholder var fns \<noteq> []" by (simp add: placeholder_def)
  show ?case
  proof (cases seg)
    case (Literal t)
    have "replace_all (placeholder var fns) x (t @ concat (map segment_text segs)) =
        t @ replace_all (placeholder var fns) x (concat (map segment_text segs))"
      using Cons.prems Literal plain_suffix
      by (intro replace_all_append[OF _ ne] placeholder_not_prefix_plain) auto
    with Cons Literal show ?thesis by simp
  next
    case (Slot v f)
    then show ?thesis
      using Cons replace_all_pat[OF ne] replace_slot_other[OF assms(1), of v f] by (cases "(v, f) = (var, fns)") auto
  qed
qed simp

text \<open>The segments after the slots in \<open>D\<close> were replaced.\<close>

fun replaced :: "(string \<times> string) set \<Rightarrow> (string \<times> string \<Rightarrow> 'e + string) \<Rightarrow> segment \<Rightarrow> segment" where
  "replaced D val (Literal t) = Literal t"
| "replaced D val (Slot v f) =
     (if (v, f) \<in> D then (case val (v, f) of Inr x \<Rightarrow> Literal x | Inl _ \<Rightarrow> Slot v f) else Slot v f)"

definition replaced_text :: "(string \<times> string) set \<Rightarrow> (string \<times> string \<Rightarrow> 'e + string) \<Rightarrow> segment list \<Rightarrow> string" where
  "replaced_text D val segs = concat (map (\<lambda>seg. segment_text (replaced D val seg)) segs)"

lemma replaced_step:
  assumes "val (v, f) = Inr x" and "segment_ok L (Slot v f)"
    and "\<forall>seg \<in> set segs. segment_ok L (replaced D val seg)"
  shows "replace_all (placeholder v f) x (replaced_text D val segs) =
    replaced_text (insert (v, f) D) val segs"
proof -
  have "(if replaced D val seg = Slot v f then x else segment_text (replaced D val seg)) =
      segment_text (replaced (insert (v, f) D) val seg)" for seg
    using assms(1) by (cases seg) (auto split: sum.splits)
  then show ?thesis
    using replace_segments[OF assms(2), of "map (replaced D val) segs" x] assms(3) by (simp add: replaced_text_def comp_def)
qed

lemma try_fold_replace:
  fixes val :: "string \<times> string \<Rightarrow> 'e + string"
  assumes "\<forall>seg \<in> set segs. segment_ok L seg" and "\<And>v f x. Slot v f \<in> set segs \<Longrightarrow> val (v, f) = Inr x \<Longrightarrow> plain x"
    and "\<forall>(v, f) \<in> set cs. Slot v f \<in> set segs"
  shows "try_fold (\<lambda>r c. map_ok (\<lambda>x. replace_all (placeholder (fst c) (snd c)) x r) (val c))
      (replaced_text D val segs) cs =
    map_ok (\<lambda>_. replaced_text (set cs \<union> D) val segs) (try_map val cs)"
  using assms(3)
proof (induction cs arbitrary: D)
  case (Cons c cs)
  obtain v f where c: "c = (v, f)" by (cases c)
  show ?case
  proof (cases "val (v, f)")
    case (Inr x)
    have "segment_ok L (replaced D val seg)" if "seg \<in> set segs" for seg
      using assms(1,2) that by (cases seg) (auto split: sum.splits)
    then have "replace_all (placeholder v f) x (replaced_text D val segs) =
        replaced_text (insert (v, f) D) val segs"
      using Inr Cons.prems c assms(1) by (intro replaced_step) auto
    with Cons Inr c show ?thesis by (cases "try_map val cs") simp_all
  qed (simp add: c)
qed simp

lemma try_map_render_slots:
  "map_ok (\<lambda>_. ()) (try_map (render_segment L vars) segs) = map_ok (\<lambda>_. ()) (try_map (placeholder_value L vars) (slots segs))"
proof (induction segs rule: slots.induct)
  case (2 t ss)
  then show ?case by (cases "try_map (render_segment L vars) ss"; cases "try_map (placeholder_value L vars) (slots ss)") simp_all
next
  case (3 var fns ss)
  then show ?case
    by (cases "placeholder_value L vars (var, fns)"; cases "try_map (render_segment L vars) ss";
        cases "try_map (placeholder_value L vars) (slots ss)") simp_all
qed simp

lemma render_segments_text:
  "try_map (render_segment L vars) segs = Inr ts \<Longrightarrow>
     map (\<lambda>seg. segment_text (replaced (set (slots segs) \<union> D) (placeholder_value L vars) seg)) segs = ts"
proof (induction segs arbitrary: ts D rule: slots.induct)
  case (3 var fns ss)
  then obtain x us where "placeholder_value L vars (var, fns) = Inr x" "try_map (render_segment L vars) ss = Inr us" "ts = x # us"
    by (auto simp: result_simps)
  with "3.IH"[of us "insert (var, fns) D"] show ?case by (simp add: Un_insert_right insert_commute)
qed (auto simp: result_simps)

lemma slots_set: "(v, f) \<in> set (slots segs) \<longleftrightarrow> Slot v f \<in> set segs"
  by (induction segs rule: slots.induct) auto

text \<open>C15. Rendering a string substitutes all of its placeholders at once, with the values of their variables after their functions,
  and fails as the first placeholder that has no value does. This holds if no placeholder can begin in
  the text around the placeholders or in the values: neither has a dollar sign that ends it or is followed
  by a brace.\<close>

theorem template_string_substitutes:
  assumes "\<And>t. Literal t \<in> set (segments L s) \<Longrightarrow> plain t"
    and "\<And>capture x. capture \<in> set (captures_iter L s) \<Longrightarrow> placeholder_value L vars capture = Inr x \<Longrightarrow> plain x"
  shows "template_string L vars s = substitute L vars s"
proof -
  let ?val = "placeholder_value L vars" and ?segs = "segments L s"
  have "segment_ok L seg" if "seg \<in> set ?segs" for seg
  proof (cases seg)
    case (Literal t)
    with that assms(1)[of t] show ?thesis by simp
  next
    case (Slot v f)
    with that segments_slot_ok show ?thesis by blast
  qed
  moreover have "plain x" if "Slot v f \<in> set ?segs" "?val (v, f) = Inr x" for v f x
    using assms(2) that by (metis slots_segments slots_set)
  ultimately have "try_fold (\<lambda>r c. map_ok (\<lambda>x. replace_all (placeholder (fst c) (snd c)) x r) (?val c))
      (replaced_text {} ?val ?segs) (slots ?segs) =
    map_ok (\<lambda>_. replaced_text (set (slots ?segs) \<union> {}) ?val ?segs) (try_map ?val (slots ?segs))"
    by (intro try_fold_replace) (auto simp: slots_set)
  moreover have "replaced_text {} ?val ?segs = s"
  proof -
    have "replaced {} ?val seg = seg" for seg by (cases seg) simp_all
    then show ?thesis by (simp add: replaced_text_def segments_text)
  qed
  ultimately have t: "template_string L vars s =
      map_ok (\<lambda>_. replaced_text (set (slots ?segs) \<union> {}) ?val ?segs) (try_map ?val (slots ?segs))"
    by (simp add: template_string_def slots_segments)
  show ?thesis
  proof (cases "try_map (render_segment L vars) ?segs")
    case (Inl e)
    with try_map_render_slots[of L vars ?segs] t show ?thesis
      by (cases "try_map ?val (slots ?segs)") (simp_all add: substitute_def)
  next
    case (Inr ts)
    with try_map_render_slots[of L vars ?segs] t render_segments_text[OF Inr, of "{}"] show ?thesis
      by (cases "try_map ?val (slots ?segs)") (simp_all add: substitute_def replaced_text_def)
  qed
qed

section \<open>Values that are one placeholder\<close>

lemma match_pipe_has_pipe: "match_pipe L s = Some (m, r) \<Longrightarrow> CHR ''|'' \<in> set m"
  by (auto simp: match_pipe_def Let_def split: prod.splits list.splits if_splits)

lemma match_pipes_has_pipe: "match_pipes L s = (fns, r) \<Longrightarrow> fns \<noteq> [] \<Longrightarrow> CHR ''|'' \<in> set fns"
  using match_pipe_has_pipe by (fastforce simp: match_pipes.simps[of L s] split: option.splits prod.splits)

lemma match_template_has_pipe:
  "match_template L s = Some (var, fns, rest) \<Longrightarrow> fns \<noteq> [] \<Longrightarrow> CHR ''|'' \<in> set fns"
  by (auto simp: match_template_def Let_def dest: match_pipes_has_pipe split: option.splits list.splits prod.splits if_splits)

lemma match_template_var:
  assumes "match_template L s = Some (var, fns, rest)"
  obtains r where "var = ''nr-'' @ r"
  using assms by (auto simp: match_template_def Let_def split: option.splits list.splits prod.splits if_splits)

lemma trim_end_char_undelimited: "undelimited s \<Longrightarrow> trim_end_char (CHR ''}'') (s @ ''}'') = s"
  by (cases s rule: rev_cases) (auto simp: trim_end_char_def)

lemma template_trim_placeholder:
  assumes "match_template L s = Some (var, fns, rest)"
  shows "template_trim (placeholder var fns) = var @ fns"
proof -
  obtain r where r: "var = ''nr-'' @ r" using match_template_var[OF assms] .
  have "trim_start_matches ''${'' (placeholder var fns) = var @ fns @ ''}''"
    by (subst trim_start_matches.simps) (simp add: placeholder_def r trim_start_matches.simps)
  moreover have "undelimited (var @ fns)" using match_template_undelimited[OF assms] by simp
  ultimately show ?thesis using trim_end_char_undelimited[of "var @ fns"] by (simp add: template_trim_def)
qed

text \<open>C40. A YAML string that consists of one placeholder with functions is never rendered: the functions are taken for a
  part of the name, so no variable is found, although the same placeholder is rendered within other text.\<close>

theorem whole_placeholder_with_functions_fails:
  assumes "match_template L s = Some (var, fns, [])" and "fns \<noteq> []"
    and "\<forall>name \<in> fst ` set vars. CHR ''|'' \<notin> set name"
  shows "template_yaml_value_string L vars s = Inl (MissingTemplateKey (var @ fns))"
proof -
  have s: "s = placeholder var fns" using match_template_append[OF assms(1)] by simp
  have "CHR ''|'' \<in> set (var @ fns)" using match_template_has_pipe[OF assms(1,2)] by simp
  then have "map_of vars (var @ fns) = None" unfolding map_of_eq_None_iff using assms(3) by blast
  then show ?thesis
    using assms(1) template_trim_placeholder[OF assms(1)] s
    by (simp add: template_yaml_value_string_def only_template_var_def normalized_var_def)
qed

theorem whole_placeholder_with_functions_fails_witness:
  "template_yaml_value_string sample_libs [(''nr-var:a'', new_final_string_variable ''x'')] ''${nr-var:a|indent 2}'' =
     Inl (MissingTemplateKey ''nr-var:a|indent 2'') \<and>
   template_yaml_value_string sample_libs [(''nr-var:a'', new_final_string_variable ''x'')] ''-${nr-var:a|indent 2}'' =
     Inr (JString ''-x'')"
proof -
  have "match_template sample_libs ''${nr-var:a|indent 2}'' = Some (''nr-var:a'', ''|indent 2'', [])"
    "\<forall>name \<in> fst ` set [(''nr-var:a'', new_final_string_variable ''x'')]. CHR ''|'' \<notin> set name"
    "template_yaml_value_string sample_libs [(''nr-var:a'', new_final_string_variable ''x'')] ''-${nr-var:a|indent 2}'' =
     Inr (JString ''-x'')"
    by code_simp+
  then show ?thesis
    using whole_placeholder_with_functions_fails[of sample_libs "''${nr-var:a|indent 2}''" "''nr-var:a''" "''|indent 2''"
        "[(''nr-var:a'', new_final_string_variable ''x'')]"] by simp
qed

theorem template_string_substitutes_witness:
  "template_string sample_libs [(''nr-var:a'', new_final_string_variable ''1''), (''nr-var:b'', new_final_string_variable ''$2'')]
     ''a=${nr-var:a}, b=${nr-var:b}'' = Inr ''a=1, b=$2''"
proof -
  let ?vars = "[(''nr-var:a'', new_final_string_variable ''1''), (''nr-var:b'', new_final_string_variable ''$2'')]"
  have s: "segments sample_libs ''a=${nr-var:a}, b=${nr-var:b}'' =
      [Literal ''a='', Slot ''nr-var:a'' [], Literal '', b='', Slot ''nr-var:b'' []]"
    and c: "captures_iter sample_libs ''a=${nr-var:a}, b=${nr-var:b}'' = [(''nr-var:a'', []), (''nr-var:b'', [])]"
    and v: "placeholder_value sample_libs ?vars (''nr-var:a'', []) = Inr ''1''"
      "placeholder_value sample_libs ?vars (''nr-var:b'', []) = Inr ''$2''"
    and r: "substitute sample_libs ?vars ''a=${nr-var:a}, b=${nr-var:b}'' = Inr ''a=1, b=$2''"
    by code_simp+
  have "template_string sample_libs ?vars ''a=${nr-var:a}, b=${nr-var:b}'' =
      substitute sample_libs ?vars ''a=${nr-var:a}, b=${nr-var:b}''"
  proof (rule template_string_substitutes)
    show "plain t" if "Literal t \<in> set (segments sample_libs ''a=${nr-var:a}, b=${nr-var:b}'')" for t
      using that unfolding s by auto
    show "plain x" if "capture \<in> set (captures_iter sample_libs ''a=${nr-var:a}, b=${nr-var:b}'')"
      "placeholder_value sample_libs ?vars capture = Inr x" for capture x
      using that v unfolding c by auto
  qed
  then show ?thesis unfolding r .
qed

text \<open>Without the condition on the values the order of the placeholders matters.\<close>

lemma template_string_order:
  "let vars = [(''nr-var:a'', new_final_string_variable ''${nr-var:b}''), (''nr-var:b'', new_final_string_variable ''1'')]
   in template_string sample_libs vars ''${nr-var:a} ${nr-var:b}'' = Inr ''1 1'' \<and>
      template_string sample_libs vars ''${nr-var:b} ${nr-var:a}'' = Inr ''1 ${nr-var:b}''"
  by code_simp

end
