(* ===== verification/Http_Client.thy ===== *)
theory Http_Client
  imports Health Backoff File_System
begin

text \<open>
  The HTTP client of the program (\<open>http/client.rs\<close>) and its configuration (\<open>http/config.rs\<close>): timeouts, the proxy with
  its certificates, the classification of transport errors and of unsuccessful responses, and the conversion of
  errors for the libraries that use the client. The library that talks HTTP is the parameter \<open>http_libs\<close>. Paths are
  strings here, an empty path stands for an option that is not set.
\<close>

section \<open>Proxy\<close>

abbreviation HTTP_PROXY_ENV_NAME :: string where
  "HTTP_PROXY_ENV_NAME \<equiv> ''HTTP_PROXY''"

abbreviation HTTPS_PROXY_ENV_NAME :: string where
  "HTTPS_PROXY_ENV_NAME \<equiv> ''HTTPS_PROXY''"

datatype proxy_error = InvalidProxyUrl string string

record 'u proxy_config =
  px_url :: "'u option"
  px_ca_bundle_dir :: string
  px_ca_bundle_file :: string
  px_ignore_system_proxy :: bool

definition proxy_config_default :: "'u proxy_config" where
  "proxy_config_default = \<lparr>px_url = None, px_ca_bundle_dir = [], px_ca_bundle_file = [], px_ignore_system_proxy = False\<rparr>"

definition proxy_url_try_from :: "(string \<Rightarrow> string + 'u) \<Rightarrow> string \<Rightarrow> proxy_error + 'u option" where
  "proxy_url_try_from parse_uri s =
     (if s = [] then Inr None
      else rbind (map_err (InvalidProxyUrl s) (parse_uri s)) (\<lambda>uri. Inr (Some uri)))"

definition proxy_url_deserialize :: "(string \<Rightarrow> string + 'u) \<Rightarrow> string option \<Rightarrow> proxy_error + 'u option" where
  "proxy_url_deserialize parse_uri s = (case s of None \<Rightarrow> Inr None | Some s \<Rightarrow> proxy_url_try_from parse_uri s)"

fun proxy_url_fmt :: "('u \<Rightarrow> string) \<Rightarrow> 'u option \<Rightarrow> string" where
  "proxy_url_fmt show_uri (Some url) = show_uri url"
| "proxy_url_fmt show_uri None = []"

text \<open>\<open>std::env::var\<close>.\<close>

datatype var_error = NotPresent | NotUnicode string

definition env_var :: "(string \<times> string) list \<Rightarrow> string \<Rightarrow> var_error + string" where
  "env_var env name =
     (case map_of env name of
        None \<Rightarrow> Inl NotPresent
      | Some v \<Rightarrow> if utf8_valid (map of_char v) then Inr v else Inl (NotUnicode v))"

definition with_env_aware_url ::
  "(string \<Rightarrow> string + 'u) \<Rightarrow> (string \<Rightarrow> var_error + string) \<Rightarrow> 'u proxy_config \<Rightarrow> proxy_error + 'u proxy_config" where
  "with_env_aware_url parse_uri var c =
     (if px_url c \<noteq> None then Inr c
      else if px_ignore_system_proxy c then Inr c
      else
        let s = (case var HTTPS_PROXY_ENV_NAME of
                   Inr s \<Rightarrow> s
                 | Inl _ \<Rightarrow> (case var HTTP_PROXY_ENV_NAME of Inr s \<Rightarrow> s | Inl _ \<Rightarrow> []))
        in rbind (proxy_url_try_from parse_uri s) (\<lambda>url. Inr (c\<lparr>px_url := url\<rparr>)))"

definition try_with_url_from_env ::
  "(string \<Rightarrow> string + 'u) \<Rightarrow> (string \<times> string) list \<Rightarrow> 'u proxy_config \<Rightarrow> proxy_error + 'u proxy_config" where
  "try_with_url_from_env parse_uri env c = with_env_aware_url parse_uri (env_var env) c"

text \<open>The options of the command line (\<open>cli/common/proxy_config.rs\<close>).\<close>

record proxy_options =
  po_proxy_url :: "string option"
  po_proxy_ca_bundle_dir :: "string option"
  po_proxy_ca_bundle_file :: "string option"
  po_ignore_system_proxy :: bool

definition proxy_config_try_from :: "(string \<Rightarrow> string + 'u) \<Rightarrow> proxy_options \<Rightarrow> proxy_error + 'u proxy_config" where
  "proxy_config_try_from parse_uri v =
     rbind (proxy_url_try_from parse_uri (case po_proxy_url v of None \<Rightarrow> [] | Some s \<Rightarrow> s)) (\<lambda>url.
     Inr \<lparr>px_url = url,
          px_ca_bundle_dir = (case po_proxy_ca_bundle_dir v of None \<Rightarrow> [] | Some s \<Rightarrow> s),
          px_ca_bundle_file = (case po_proxy_ca_bundle_file v of None \<Rightarrow> [] | Some s \<Rightarrow> s),
          px_ignore_system_proxy = po_ignore_system_proxy v\<rparr>)"

section \<open>Configuration\<close>

definition DEFAULT_CLIENT_TIMEOUT :: duration where
  "DEFAULT_CLIENT_TIMEOUT = from_secs 30"

record 'u http_config =
  hc_timeout :: duration
  hc_conn_timeout :: duration
  hc_proxy :: "'u proxy_config"
  hc_tls_info :: bool

definition http_config_default :: "'u http_config" where
  "http_config_default =
     \<lparr>hc_timeout = DEFAULT_CLIENT_TIMEOUT, hc_conn_timeout = DEFAULT_CLIENT_TIMEOUT, hc_proxy = proxy_config_default,
      hc_tls_info = False\<rparr>"

definition http_config_new :: "duration \<Rightarrow> duration \<Rightarrow> 'u proxy_config \<Rightarrow> 'u http_config" where
  "http_config_new timeout conn_timeout proxy =
     \<lparr>hc_timeout = timeout, hc_conn_timeout = conn_timeout, hc_proxy = proxy, hc_tls_info = False\<rparr>"

definition with_tls_info :: "'u http_config \<Rightarrow> 'u http_config" where
  "with_tls_info c = c\<lparr>hc_tls_info := True\<rparr>"

section \<open>Certificates\<close>

abbreviation CERT_EXTENSION :: string where
  "CERT_EXTENSION \<equiv> ''pem''"

datatype http_build_error = ClientBuilder string | CertificateError string string

definition certificate_error :: "string \<Rightarrow> string \<Rightarrow> http_build_error" where
  "certificate_error path err = CertificateError (from_utf8_lossy path) err"

text \<open>\<open>Path::extension\<close>: what follows the last dot of the file name, unless the dot begins the name.\<close>

definition file_name :: "string \<Rightarrow> string option" where
  "file_name path =
     (case rev (path_components path) of
        Normal name # _ \<Rightarrow> Some name
      | _ \<Rightarrow> None)"

definition name_extension :: "string \<Rightarrow> string option" where
  "name_extension name =
     (case dropWhile (\<lambda>c. c \<noteq> CHR ''.'') (rev name) of
        [] \<Rightarrow> None
      | _ # stem \<Rightarrow> if stem = [] then None else Some (rev (takeWhile (\<lambda>c. c \<noteq> CHR ''.'') (rev name))))"

definition path_extension :: "string \<Rightarrow> string option" where
  "path_extension path = Option.bind (file_name path) name_extension"

definition path_has_cert_extension :: "string \<Rightarrow> bool" where
  "path_has_cert_extension path =
     (case path_extension path of
        Some extension \<Rightarrow> extension = CERT_EXTENSION
      | None \<Rightarrow> False)"

text \<open>What the client uses of the operating system and of the HTTP library: the content of a file, the entries of a
  directory (each of which may be unreadable), the parsers of certificates and proxies, and the construction of a
  client.\<close>

record ('c, 'p) client_builder =
  cb_timeout :: duration
  cb_connect_timeout :: duration
  cb_tls_info :: bool
  cb_proxy :: "'p option"
  cb_root_certificates :: "'c list"

record ('u, 'c, 'p, 'k) http_libs =
  hx_read_file :: "string \<Rightarrow> string + string"
  hx_read_dir :: "string \<Rightarrow> string + (string + string) list"
  hx_from_pem_bundle :: "string \<Rightarrow> string + 'c list"
  hx_show_uri :: "'u \<Rightarrow> string"
  hx_proxy_all :: "string \<Rightarrow> string + 'p"
  hx_build :: "('c, 'p) client_builder \<Rightarrow> string + 'k"

definition certs_from_file :: "('u, 'c, 'p, 'k) http_libs \<Rightarrow> string \<Rightarrow> http_build_error + 'c list" where
  "certs_from_file X path =
     (if path = [] then Inr []
      else
        rbind (map_err (certificate_error path) (hx_read_file X path)) (\<lambda>buf.
        map_err (certificate_error path) (hx_from_pem_bundle X buf)))"

fun cert_entry :: "string + string \<Rightarrow> string option" where
  "cert_entry (Inl err) = None"
| "cert_entry (Inr path) = (if path_has_cert_extension path then Some path else None)"

definition cert_paths_from_dir :: "('u, 'c, 'p, 'k) http_libs \<Rightarrow> string \<Rightarrow> http_build_error + string list" where
  "cert_paths_from_dir X dir_path =
     (if dir_path = [] then Inr []
      else
        rbind (map_err (certificate_error dir_path) (hx_read_dir X dir_path)) (\<lambda>dir_entries.
        Inr (List.map_filter cert_entry dir_entries)))"

definition certs_from_paths :: "('u, 'c, 'p, 'k) http_libs \<Rightarrow> string \<Rightarrow> string \<Rightarrow> http_build_error + 'c list" where
  "certs_from_paths X ca_bundle_file ca_bundle_dir =
     rbind (certs_from_file X ca_bundle_file) (\<lambda>certs.
     rbind (cert_paths_from_dir X ca_bundle_dir) (\<lambda>paths.
     rbind (try_map (certs_from_file X) paths) (\<lambda>more.
     Inr (certs @ concat more))))"

definition http_client_new :: "('u, 'c, 'p, 'k) http_libs \<Rightarrow> 'u http_config \<Rightarrow> http_build_error + 'k" where
  "http_client_new X c =
     (let builder = \<lparr>cb_timeout = hc_timeout c, cb_connect_timeout = hc_conn_timeout c, cb_tls_info = hc_tls_info c,
                     cb_proxy = None, cb_root_certificates = []\<rparr>;
          proxy_url = proxy_url_fmt (hx_show_uri X) (px_url (hc_proxy c))
      in rbind
           (if proxy_url = [] then Inr builder
            else
              rbind (map_err (\<lambda>err. ClientBuilder (''invalid proxy url: '' @ err)) (hx_proxy_all X proxy_url)) (\<lambda>proxy.
              rbind (certs_from_paths X (px_ca_bundle_file (hc_proxy c)) (px_ca_bundle_dir (hc_proxy c))) (\<lambda>certs.
              Inr (builder\<lparr>cb_proxy := Some proxy, cb_root_certificates := certs\<rparr>))))
           (\<lambda>builder. map_err ClientBuilder (hx_build X builder)))"

section \<open>Requests\<close>

record reqwest_error =
  re_connect :: bool
  re_timeout :: bool
  re_builder :: bool
  re_request :: bool
  re_msg :: string

datatype http_response_error =
    ReadingResponse string
  | BuildingResponse string
  | BuildingRequest string
  | UnsuccessfulStatus nat string
  | ConnectError reqwest_error
  | TimeoutError reqwest_error
  | DnsError reqwest_error
  | GenericTransportError reqwest_error

fun contains_str :: "string \<Rightarrow> string \<Rightarrow> bool" where
  "contains_str p [] \<longleftrightarrow> p = []"
| "contains_str p (c # s) \<longleftrightarrow> starts_with p (c # s) \<or> contains_str p s"

text \<open>The message is put in lower case before it is searched for ASCII letters, so only its ASCII letters matter.\<close>

definition from_reqwest_error :: "reqwest_error \<Rightarrow> http_response_error" where
  "from_reqwest_error e =
     (if re_connect e then ConnectError e
      else if re_timeout e then TimeoutError e
      else if re_builder e \<or> re_request e then
        (if contains_str ''dns'' (map to_ascii_lowercase (re_msg e)) then DnsError e else BuildingRequest (re_msg e))
      else GenericTransportError e)"

text \<open>\<open>show_status\<close> prints a status code with its reason.\<close>

fun http_response_error_fmt :: "(nat \<Rightarrow> string) \<Rightarrow> http_response_error \<Rightarrow> string" where
  "http_response_error_fmt show_status (ReadingResponse m) = ''could read response body: '' @ m"
| "http_response_error_fmt show_status (BuildingResponse m) = ''could build response: '' @ m"
| "http_response_error_fmt show_status (BuildingRequest m) = ''could build request: '' @ m"
| "http_response_error_fmt show_status (UnsuccessfulStatus status_code body) =
     ''unsuccessful response: '' @ show_status status_code @ '' - body: '' @ from_utf8_lossy body"
| "http_response_error_fmt show_status (ConnectError e) =
     ''connection error: could not connect to the host. this is often caused by a firewall, proxy, or network routing issue. original error: '' @
     re_msg e"
| "http_response_error_fmt show_status (TimeoutError e) =
     ''timeout error: the request timed out. original error: '' @ re_msg e"
| "http_response_error_fmt show_status (DnsError e) =
     ''dns resolution error: could not resolve the host. please check your dns configuration. original error: '' @ re_msg e"
| "http_response_error_fmt show_status (GenericTransportError e) = ''generic transport error: '' @ re_msg e"

record http_request =
  rq_method :: string
  rq_uri :: string
  rq_headers :: "(string \<times> string) list"
  rq_body :: string

text \<open>A response of the library: reading its body may fail. \<open>'t\<close> is what it knows about the connection.\<close>

record 't reqwest_response =
  rr_status :: nat
  rr_version :: string
  rr_tls_info :: "'t option"
  rr_bytes :: "string + string"

record 't http_response =
  hr_status :: nat
  hr_version :: string
  hr_tls_info :: "'t option"
  hr_body :: string

definition status_is_success :: "nat \<Rightarrow> bool" where
  "status_is_success status \<longleftrightarrow> 200 \<le> status \<and> status < 300"

text \<open>A response builder only fails for an invalid part; the status and the version are those of a response.\<close>

definition try_build_response :: "'t reqwest_response \<Rightarrow> http_response_error + 't http_response" where
  "try_build_response res =
     rbind (map_err ReadingResponse (rr_bytes res)) (\<lambda>body.
     Inr \<lparr>hr_status = rr_status res, hr_version = rr_version res, hr_tls_info = rr_tls_info res, hr_body = body\<rparr>)"

definition http_send ::
  "(http_request \<Rightarrow> reqwest_error + 't reqwest_response) \<Rightarrow> http_request \<Rightarrow> http_response_error + 't http_response" where
  "http_send client request =
     rbind (map_err from_reqwest_error (client request)) (\<lambda>res.
     if status_is_success (rr_status res) then try_build_response res
     else
       rbind (map_err ReadingResponse (rr_bytes res)) (\<lambda>body.
       Inl (UnsuccessfulStatus (rr_status res) body)))"

section \<open>Errors for the other libraries\<close>

datatype opamp_http_client_error = OpampTransportError string | OpampHttpBodyError string
datatype cloud_client_error = CloudResponseError nat string | CloudTransportError string
datatype oauth_http_client_error = OauthTransportError string | OauthInvalidResponse string

definition http_error_msg :: "(nat \<Rightarrow> string) \<Rightarrow> nat \<Rightarrow> string \<Rightarrow> string" where
  "http_error_msg show_status status_code body = ''HTTP Error '' @ show_status status_code @ '': '' @ from_utf8_lossy body"

fun opamp_error_from :: "(nat \<Rightarrow> string) \<Rightarrow> http_response_error \<Rightarrow> opamp_http_client_error" where
  "opamp_error_from show_status (UnsuccessfulStatus status_code body) = OpampHttpBodyError (http_error_msg show_status status_code body)"
| "opamp_error_from show_status (BuildingRequest msg) = OpampHttpBodyError msg"
| "opamp_error_from show_status (BuildingResponse msg) = OpampHttpBodyError msg"
| "opamp_error_from show_status (ReadingResponse msg) = OpampHttpBodyError msg"
| "opamp_error_from show_status err = OpampTransportError (http_response_error_fmt show_status err)"

fun cloud_error_from :: "(nat \<Rightarrow> string) \<Rightarrow> http_response_error \<Rightarrow> cloud_client_error" where
  "cloud_error_from show_status (UnsuccessfulStatus status_code body) = CloudResponseError status_code (from_utf8_lossy body)"
| "cloud_error_from show_status other_error = CloudTransportError (http_response_error_fmt show_status other_error)"

fun oauth_error_from :: "(nat \<Rightarrow> string) \<Rightarrow> http_response_error \<Rightarrow> oauth_http_client_error" where
  "oauth_error_from show_status (UnsuccessfulStatus status_code body) = OauthInvalidResponse (http_error_msg show_status status_code body)"
| "oauth_error_from show_status (BuildingRequest msg) = OauthInvalidResponse msg"
| "oauth_error_from show_status (BuildingResponse msg) = OauthInvalidResponse msg"
| "oauth_error_from show_status (ReadingResponse msg) = OauthInvalidResponse msg"
| "oauth_error_from show_status err = OauthTransportError (http_response_error_fmt show_status err)"

section \<open>Lemmas\<close>

text \<open>A response is returned only with a success status and a body that could be read.\<close>

lemma http_send_Inr:
  "http_send client request = Inr resp \<longleftrightarrow>
     (\<exists>res. client request = Inr res \<and> status_is_success (rr_status res) \<and> rr_bytes res = Inr (hr_body resp) \<and>
        hr_status resp = rr_status res \<and> hr_version resp = rr_version res \<and> hr_tls_info resp = rr_tls_info res)"
  by (cases resp) (auto simp: http_send_def try_build_response_def rbind_eq_Inr map_err_eq_Inr split: if_splits)

lemma http_send_unsuccessful:
  "http_send client request = Inl (UnsuccessfulStatus code body) \<longleftrightarrow>
     (\<exists>res. client request = Inr res \<and> \<not> status_is_success code \<and> rr_status res = code \<and> rr_bytes res = Inr body)"
  by (auto simp: http_send_def try_build_response_def rbind_eq_Inl map_err_eq_Inl map_err_eq_Inr from_reqwest_error_def
      split: if_splits)

text \<open>A transport error is told apart from a response by the libraries that use the client.\<close>

lemma opamp_transport_iff:
  "(\<exists>m. opamp_error_from show_status e = OpampTransportError m) \<longleftrightarrow>
     (\<exists>x. e \<in> {ConnectError x, TimeoutError x, DnsError x, GenericTransportError x})"
  by (cases e) auto

text \<open>The proxy of the configuration wins over the environment, and there \<open>HTTPS_PROXY\<close> wins over \<open>HTTP_PROXY\<close>, even when
  it is empty.\<close>

lemma env_proxy_order:
  "with_env_aware_url parse_uri var c =
     (if px_url c \<noteq> None \<or> px_ignore_system_proxy c then Inr c
      else case (var HTTPS_PROXY_ENV_NAME, var HTTP_PROXY_ENV_NAME) of
             (Inr s, _) \<Rightarrow> map_ok (\<lambda>url. c\<lparr>px_url := url\<rparr>) (proxy_url_try_from parse_uri s)
           | (Inl _, Inr s) \<Rightarrow> map_ok (\<lambda>url. c\<lparr>px_url := url\<rparr>) (proxy_url_try_from parse_uri s)
           | _ \<Rightarrow> Inr c)"
  by (cases c) (auto simp: with_env_aware_url_def proxy_url_try_from_def rbind_def map_ok_def map_err_def split: sum.splits)

lemma certs_only_pem:
  assumes "cert_paths_from_dir X dir_path = Inr paths"
  shows "list_all path_has_cert_extension paths"
proof -
  have "path_has_cert_extension p" if "cert_entry e = Some p" for p e
    using that by (cases e) (simp_all split: if_split_asm)
  then show ?thesis
    using assms by (auto simp: cert_paths_from_dir_def list_all_iff rbind_eq_Inr map_filter_mem split: if_split_asm)
qed

text \<open>Certificates are only loaded when there is a proxy.\<close>

lemma no_proxy_no_certificates:
  assumes "px_url (hc_proxy c) = None"
  shows "http_client_new X c =
     map_err ClientBuilder (hx_build X \<lparr>cb_timeout = hc_timeout c, cb_connect_timeout = hc_conn_timeout c,
       cb_tls_info = hc_tls_info c, cb_proxy = None, cb_root_certificates = []\<rparr>)"
  using assms by (simp add: http_client_new_def)

end
