(* ===== verification/Secret_Providers.thy ===== *)
theory Secret_Providers
  imports Templates Http_Client
begin

text \<open>
  Secrets (\<open>secrets_provider.rs\<close> and below, \<open>agent_type/variable/secret_variables.rs\<close>): the providers that read them from
  environment variables, files, Kubernetes secrets and Vault, the registry of providers, and the secrets a
  configuration names in its placeholders. The environment, the files, the Kubernetes client and the HTTP
  library are parameters.
\<close>

section \<open>Environment and files\<close>

definition env_get_secret :: "(string \<times> string) list \<Rightarrow> string \<Rightarrow> var_error + string" where
  "env_get_secret env secret_path = env_var env secret_path"

definition file_secret_path :: "string \<Rightarrow> string + string" where
  "file_secret_path value' = (if trim value' = [] then Inl ''secret path cannot be empty'' else Inr value')"

text \<open>\<open>fs::read_to_string\<close>: the bytes of the file, which have to be UTF-8.\<close>

definition read_to_string :: "(string \<Rightarrow> string + string) \<Rightarrow> string \<Rightarrow> string + string" where
  "read_to_string read path =
     rbind (read path) (\<lambda>content.
       if utf8_valid (map of_char content) then Inr content else Inl ''stream did not contain valid UTF-8'')"

definition file_get_secret :: "(string \<Rightarrow> string + string) \<Rightarrow> string \<Rightarrow> string + string" where
  "file_get_secret read secret_path =
     rbind (file_secret_path secret_path) (\<lambda>path.
     map_err (\<lambda>err. ''reading '' @ sq secret_path @ '' secret: '' @ err)
       (map_ok trim (read_to_string read path)))"

section \<open>Kubernetes\<close>

record k8s_secret_path =
  ksp_namespace :: string
  ksp_name :: string
  ksp_key :: string

definition k8s_secret_path_try_from :: "string \<Rightarrow> string + k8s_secret_path" where
  "k8s_secret_path_try_from s =
     (let parts = split_on (CHR '':'') s
      in if length parts \<noteq> 3 \<or> list_ex (\<lambda>p. p = []) parts
         then Inl (''secret path '' @ sq s @ '' does not have a valid format '' @ sq ''<namespace>:<name>:<key>'')
         else Inr \<lparr>ksp_namespace = parts ! 0, ksp_name = parts ! 1, ksp_key = parts ! 2\<rparr>)"

definition build_secret_path :: "string \<Rightarrow> string \<Rightarrow> string \<Rightarrow> string" where
  "build_secret_path namespace name key = namespace @ '':'' @ name @ '':'' @ key"

definition k8s_get_secret ::
  "(string \<Rightarrow> string \<Rightarrow> string \<Rightarrow> string + string option) \<Rightarrow> string \<Rightarrow> string + string" where
  "k8s_get_secret get_secret_key secret_path =
     rbind (k8s_secret_path_try_from secret_path) (\<lambda>p.
     rbind (map_err (\<lambda>err. ''getting '' @ secret_path @ '' secret: '' @ err)
              (get_secret_key (ksp_name p) (ksp_namespace p) (ksp_key p))) (\<lambda>secret.
     ok_or (sq secret_path @ '' secret not found'') secret))"

section \<open>Vault\<close>

datatype vault_error =
    VaultHttpClient http_build_error
  | VaultInvalidHeaderValue string
  | VaultParseError string
  | VaultSerdeError string
  | VaultBuildingError string
  | VaultHttpTransportError string
  | VaultDeserializeError string
  | IncorrectSecretPath string
  | SourceNotFound
  | SecretNotFound
  | ConnectionFailed string
  | VaultGenericError string

record vault_secret_path =
  vsp_source :: string
  vsp_mount :: string
  vsp_path :: string
  vsp_name :: string

definition vault_secret_path_from_str :: "string \<Rightarrow> vault_error + vault_secret_path" where
  "vault_secret_path_from_str s =
     (let parts = split_on (CHR '':'') s
      in if length parts \<noteq> 4 \<or> list_ex (\<lambda>p. p = []) parts then Inl (IncorrectSecretPath s)
         else Inr \<lparr>vsp_source = parts ! 0, vsp_mount = parts ! 1, vsp_path = parts ! 2, vsp_name = parts ! 3\<rparr>)"

datatype secret_engine = Kv1 | Kv2

text \<open>What is used of the libraries for URLs, HTTP and JSON. The two last are the maps of secrets in the answers of the two
  engines.\<close>

record ('u, 't) vault_libs =
  vl_join :: "'u \<Rightarrow> string \<Rightarrow> string + 'u"
  vl_path :: "'u \<Rightarrow> string"
  vl_set_path :: "string \<Rightarrow> 'u \<Rightarrow> 'u"
  vl_as_str :: "'u \<Rightarrow> string"
  vl_uri :: "string \<Rightarrow> string + string"
  vl_header_value :: "string \<Rightarrow> string + string"
  vl_show_status :: "nat \<Rightarrow> string"
  vl_show_utf8_error :: "string \<Rightarrow> string"
  vl_send :: "http_request \<Rightarrow> reqwest_error + 't reqwest_response"
  vl_kv1_data :: "string \<Rightarrow> string + (string \<times> string) list"
  vl_kv2_data :: "string \<Rightarrow> string + (string \<times> string) list"

fun get_url :: "('u, 't) vault_libs \<Rightarrow> secret_engine \<Rightarrow> 'u \<Rightarrow> string \<Rightarrow> string \<Rightarrow> vault_error + 'u" where
  "get_url V Kv1 url mount path = map_err VaultParseError (vl_join V url (mount @ ''/'' @ path))"
| "get_url V Kv2 url mount path = map_err VaultParseError (vl_join V url (mount @ ''/data/'' @ path))"

fun parse_secret_response ::
  "('u, 't) vault_libs \<Rightarrow> secret_engine \<Rightarrow> string \<Rightarrow> string \<Rightarrow> vault_error + string option" where
  "parse_secret_response V Kv1 name body = map_ok (\<lambda>data. map_of data name) (map_err VaultSerdeError (vl_kv1_data V body))"
| "parse_secret_response V Kv2 name body = map_ok (\<lambda>data. map_of data name) (map_err VaultSerdeError (vl_kv2_data V body))"

record 'u vault_source =
  vs_url :: 'u
  vs_token :: string
  vs_engine :: secret_engine

text \<open>\<open>VaultSource::new\<close>: the path of the URL ends in a slash.\<close>

definition vault_source_new :: "('u, 't) vault_libs \<Rightarrow> 'u vault_source \<Rightarrow> 'u vault_source" where
  "vault_source_new V config =
     (let path = vl_path V (vs_url config)
      in if ends_with_char (\<lambda>c. c = CHR ''/'') path then config
         else config\<lparr>vs_url := vl_set_path V (path @ ''/'') (vs_url config)\<rparr>)"

record 'u vault_config =
  vc_sources :: "(string \<times> 'u vault_source) list"
  vc_client_timeout :: duration
  vc_proxy_config :: "'u proxy_config"

text \<open>A Vault provider is its client and its sources.\<close>

record ('u, 'k) vault =
  va_client :: 'k
  va_sources :: "(string \<times> 'u vault_source) list"

definition vault_try_build ::
  "('u, 't) vault_libs \<Rightarrow> ('u, 'c, 'p, 'k) http_libs \<Rightarrow> 'u vault_config \<Rightarrow> vault_error + ('u, 'k) vault" where
  "vault_try_build V X config =
     (let sources = map (\<lambda>(name, c). (name, vault_source_new V c)) (vc_sources config)
      in rbind (map_err VaultHttpClient
                  (http_client_new X (http_config_new (vc_client_timeout config) (vc_client_timeout config) (vc_proxy_config config))))
           (\<lambda>client. Inr \<lparr>va_client = client, va_sources = sources\<rparr>))"

fun vault_send_error :: "('u, 't) vault_libs \<Rightarrow> http_response_error \<Rightarrow> vault_error" where
  "vault_send_error V (UnsuccessfulStatus status_code body) =
     (if status_code = 404 then SecretNotFound
      else VaultGenericError (''the vault source responded with status: '' @ vl_show_status V status_code))"
| "vault_send_error V e = ConnectionFailed (http_response_error_fmt (vl_show_status V) e)"

definition vault_get_secret :: "('u, 't) vault_libs \<Rightarrow> ('u, 'k) vault \<Rightarrow> string \<Rightarrow> vault_error + string" where
  "vault_get_secret V vault secret_path =
     rbind (vault_secret_path_from_str secret_path) (\<lambda>p.
     rbind (ok_or SourceNotFound (map_of (va_sources vault) (vsp_source p))) (\<lambda>source.
     rbind (get_url V (vs_engine source) (vs_url source) (vsp_mount p) (vsp_path p)) (\<lambda>url.
     rbind (map_err VaultBuildingError (vl_uri V (vl_as_str V url))) (\<lambda>uri.
     rbind (map_err VaultInvalidHeaderValue (vl_header_value V (vs_token source))) (\<lambda>token.
     rbind (map_err (vault_send_error V)
              (http_send (vl_send V)
                 \<lparr>rq_method = ''GET'', rq_uri = uri, rq_headers = [(''X-Vault-Token'', token)], rq_body = []\<rparr>)) (\<lambda>response.
     rbind (if utf8_valid (map of_char (hr_body response)) then Inr (hr_body response)
            else Inl (VaultDeserializeError (''invalid utf8 response: '' @ vl_show_utf8_error V (hr_body response)))) (\<lambda>body.
     rbind (parse_secret_response V (vs_engine source) (vsp_name p) body) (\<lambda>maybe_secret.
     ok_or SecretNotFound maybe_secret))))))))"

fun http_build_error_fmt :: "http_build_error \<Rightarrow> string" where
  "http_build_error_fmt (ClientBuilder m) = ''could not build the http client: '' @ m"
| "http_build_error_fmt (CertificateError path err) = ''could not load certificates from '' @ path @ '': '' @ err"

fun vault_error_fmt :: "vault_error \<Rightarrow> string" where
  "vault_error_fmt (VaultHttpClient e) = ''could not build the vault http client: '' @ http_build_error_fmt e"
| "vault_error_fmt (VaultInvalidHeaderValue m) = ''invalid header: '' @ m"
| "vault_error_fmt (VaultParseError m) = ''could not parse mount and path for secret source: '' @ m"
| "vault_error_fmt (VaultSerdeError m) =
     ''error deserializing the JSON config. Check your Vault endpoint URL (is /v1/ missing?): '' @ m"
| "vault_error_fmt (VaultBuildingError m) = ''could not build the HTTP client: '' @ m"
| "vault_error_fmt (VaultHttpTransportError m) = ''http transport error: '' @ m"
| "vault_error_fmt (VaultDeserializeError m) = ''unable to deserialize body: '' @ m"
| "vault_error_fmt (IncorrectSecretPath s) =
     ''secret path '' @ sq s @ '' does not have a valid format '' @ sq ''source:mount:path:name''"
| "vault_error_fmt SourceNotFound = ''secret source not found''"
| "vault_error_fmt SecretNotFound = ''secret not found in the specified source''"
| "vault_error_fmt (ConnectionFailed m) = ''source url can'' @ [CHR 0x27] @ ''t be reached: '' @ m"
| "vault_error_fmt (VaultGenericError m) = m"

section \<open>Registry\<close>

datatype secrets_providers_error =
    VaultProviderError vault_error
  | K8sSecretProviderError string
  | EnvProviderError var_error
  | FileProviderError string

fun var_error_fmt :: "(string \<Rightarrow> string) \<Rightarrow> var_error \<Rightarrow> string" where
  "var_error_fmt show_os NotPresent = ''environment variable not found''"
| "var_error_fmt show_os (NotUnicode v) = ''environment variable was not valid unicode: '' @ show_os v"

fun secrets_providers_error_fmt :: "(string \<Rightarrow> string) \<Rightarrow> secrets_providers_error \<Rightarrow> string" where
  "secrets_providers_error_fmt show_os (VaultProviderError e) = ''vault provider failed: '' @ vault_error_fmt e"
| "secrets_providers_error_fmt show_os (K8sSecretProviderError m) = ''k8s secret provider failed: resolving k8s secret: '' @ m"
| "secrets_providers_error_fmt show_os (EnvProviderError e) =
     ''env var provider failed: failed to retrieve secret from environment variable: '' @ var_error_fmt show_os e"
| "secrets_providers_error_fmt show_os (FileProviderError m) = ''file secret provider failed: resolving file secret: '' @ m"

datatype ('u, 'k) secrets_provider =
    VaultProvider "('u, 'k) vault"
  | K8sSecretProvider
  | FileProvider
  | EnvProvider

text \<open>What the providers read.\<close>

record ('u, 't) secrets_world =
  sw_env :: "(string \<times> string) list"
  sw_read :: "string \<Rightarrow> string + string"
  sw_get_secret_key :: "string \<Rightarrow> string \<Rightarrow> string \<Rightarrow> string + string option"
  sw_vault :: "('u, 't) vault_libs"
  sw_show_os :: "string \<Rightarrow> string"

fun get_secret :: "('u, 't) secrets_world \<Rightarrow> ('u, 'k) secrets_provider \<Rightarrow> string \<Rightarrow> secrets_providers_error + string" where
  "get_secret W (VaultProvider v) secret_path = map_err VaultProviderError (vault_get_secret (sw_vault W) v secret_path)"
| "get_secret W K8sSecretProvider secret_path =
     map_err K8sSecretProviderError (k8s_get_secret (sw_get_secret_key W) secret_path)"
| "get_secret W FileProvider secret_path = map_err FileProviderError (file_get_secret (sw_read W) secret_path)"
| "get_secret W EnvProvider secret_path = map_err EnvProviderError (env_get_secret (sw_env W) secret_path)"

type_synonym ('u, 'k) secrets_registry = "(namespace, ('u, 'k) secrets_provider) amap"

definition registry_with_env :: "('u, 'k) secrets_registry \<Rightarrow> ('u, 'k) secrets_registry" where
  "registry_with_env r = AList.update NsEnvironmentVariable EnvProvider r"

definition registry_with_k8s_secret :: "('u, 'k) secrets_registry \<Rightarrow> ('u, 'k) secrets_registry" where
  "registry_with_k8s_secret r = AList.update NsK8sSecret K8sSecretProvider r"

definition registry_with_file :: "('u, 'k) secrets_registry \<Rightarrow> ('u, 'k) secrets_registry" where
  "registry_with_file r = AList.update NsFile FileProvider r"

definition registry_with_config ::
  "('u, 't) vault_libs \<Rightarrow> ('u, 'c, 'p, 'k) http_libs \<Rightarrow> 'u vault_config option \<Rightarrow> ('u, 'k) secrets_registry \<Rightarrow>
   secrets_providers_error + ('u, 'k) secrets_registry" where
  "registry_with_config V X config r =
     (case config of
        None \<Rightarrow> Inr r
      | Some vault_config \<Rightarrow>
          rbind (map_err VaultProviderError (vault_try_build V X vault_config)) (\<lambda>vault.
          Inr (AList.update NsVault (VaultProvider vault) r)))"

section \<open>Secrets of a configuration\<close>

text \<open>For each namespace the names of its secrets; a set of names is a list without repetitions.\<close>

type_synonym secret_variables = "(string, string list) amap"

text \<open>\<open>None\<close> stands for the panic when a placeholder has no separator.\<close>

definition add_namespaced_variable :: "string \<Rightarrow> secret_variables \<Rightarrow> secret_variables option" where
  "add_namespaced_variable variable' vars =
     (case split_once (CHR '':'') variable' of
        None \<Rightarrow> None
      | Some (prefix, var_name) \<Rightarrow>
          Some (AList.update prefix (List.insert var_name (case map_of vars prefix of None \<Rightarrow> [] | Some names \<Rightarrow> names)) vars))"

fun add_captures :: "(string \<times> string) list \<Rightarrow> secret_variables \<Rightarrow> secret_variables option" where
  "add_captures [] result = Some result"
| "add_captures ((captured_var, captured_functions) # captures) result =
     Option.bind (if is_secret_variable captured_var then add_namespaced_variable captured_var result else Some result)
       (add_captures captures)"

definition secret_variables_from :: "serde_libs \<Rightarrow> string \<Rightarrow> secret_variables option" where
  "secret_variables_from L s = add_captures (captures_iter L s) []"

datatype secret_variables_error = SecretsLoadError string string | SecretsYamlParseError

definition secret_variables_try_from ::
  "serde_libs \<Rightarrow> (json yaml_config \<Rightarrow> string + string) \<Rightarrow> json yaml_config \<Rightarrow> (secret_variables_error + secret_variables) option" where
  "secret_variables_try_from L to_str config =
     (case yaml_into_string to_str config of
        Inl _ \<Rightarrow> Some (Inl SecretsYamlParseError)
      | Inr s \<Rightarrow> map_option Inr (secret_variables_from L s))"

fun load_namespace ::
  "('u, 't) secrets_world \<Rightarrow> namespace \<Rightarrow> ('u, 'k) secrets_provider \<Rightarrow> string list \<Rightarrow> variables \<Rightarrow>
   secret_variables_error + variables" where
  "load_namespace W namespace provider [] result = Inr result"
| "load_namespace W namespace provider (secret_path # secrets_paths) result =
     rbind (map_err (\<lambda>e. SecretsLoadError secret_path (secrets_providers_error_fmt (sw_show_os W) e))
              (get_secret W provider secret_path)) (\<lambda>secret_value.
     load_namespace W namespace provider secrets_paths
       (AList.update (namespaced_name namespace secret_path) (new_final_string_variable secret_value) result))"

fun load_namespaces ::
  "('u, 't) secrets_world \<Rightarrow> secret_variables \<Rightarrow> ('u, 'k) secrets_registry \<Rightarrow> variables \<Rightarrow> secret_variables_error + variables" where
  "load_namespaces W vars [] result = Inr result"
| "load_namespaces W vars ((namespace, provider) # registry) result =
     (case map_of vars (namespace_fmt namespace) of
        None \<Rightarrow> load_namespaces W vars registry result
      | Some secrets_paths \<Rightarrow>
          rbind (load_namespace W namespace provider secrets_paths result) (load_namespaces W vars registry))"

definition load_secrets ::
  "('u, 't) secrets_world \<Rightarrow> ('u, 'k) secrets_registry \<Rightarrow> secret_variables \<Rightarrow> secret_variables_error + variables" where
  "load_secrets W registry vars = (if registry = [] then Inr [] else load_namespaces W vars registry [])"

definition load_env_vars :: "(string \<times> string) list \<Rightarrow> variables" where
  "load_env_vars vars_os =
     hm_collect (map (\<lambda>(k, v). (namespaced_name NsEnvironmentVariable (from_utf8_lossy k),
       new_final_string_variable (from_utf8_lossy v))) vars_os)"

section \<open>Which secrets are loaded\<close>

lemma namespace_no_sep: "CHR '':'' \<notin> set (namespace_fmt ns)"
  by (cases ns) simp_all

lemma namespaced_name_inj: "namespaced_name ns a = namespaced_name ns' b \<longleftrightarrow> ns = ns' \<and> a = b"
proof
  assume "namespaced_name ns a = namespaced_name ns' b"
  then have "split_once (CHR '':'') (namespace_fmt ns @ CHR '':'' # a) = Some (namespace_fmt ns', b)"
    unfolding namespaced_name_def split_once_Some using namespace_no_sep by simp
  then have "namespace_fmt ns = namespace_fmt ns' \<and> a = b" by (simp add: split_once_Some_I namespace_no_sep)
  then show "ns = ns' \<and> a = b" by (cases ns; cases ns') simp_all
qed simp

lemma split_namespaced: "split_once (CHR '':'') v = Some (namespace_fmt ns, name) \<longleftrightarrow> v = namespaced_name ns name"
  by (simp add: split_once_Some namespaced_name_def namespace_no_sep)

lemma match_template_separator:
  assumes "match_template L s = Some (var, fns, rest)"
  shows "CHR '':'' \<in> set var"
  using assms by (auto simp: match_template_def Let_def split: option.splits list.splits prod.splits if_splits)

lemma captures_separator: "(var, fns) \<in> set (captures_iter L s) \<Longrightarrow> CHR '':'' \<in> set var"
proof (induction L s rule: captures_iter.induct)
  case (2 L c s)
  then show ?case
    by (cases "match_template L (c # s)") (auto dest: match_template_separator)
qed simp

lemma split_once_total: "d \<in> set s \<Longrightarrow> \<exists>a b. split_once d s = Some (a, b)"
  by (induction s) auto

lemma add_captures_total:
  assumes "\<forall>(var, fns) \<in> set cs. CHR '':'' \<in> set var"
  shows "\<exists>r'. add_captures cs r = Some r'"
  using assms
proof (induction cs arbitrary: r)
  case (Cons c cs)
  obtain var fns where c: "c = (var, fns)" by fastforce
  with Cons.prems obtain a b where "split_once (CHR '':'') var = Some (a, b)" using split_once_total by fastforce
  with Cons c show ?case by (simp add: add_namespaced_variable_def)
qed simp

lemma secret_variables_from_total: "\<exists>vars. secret_variables_from L s = Some vars"
  unfolding secret_variables_from_def by (rule add_captures_total) (auto dest: captures_separator)

definition secret_names :: "secret_variables \<Rightarrow> string \<Rightarrow> string set" where
  "secret_names vars prefix = (case map_of vars prefix of None \<Rightarrow> {} | Some names \<Rightarrow> set names)"

lemma add_captures_names:
  assumes "add_captures cs r = Some r'"
  shows "secret_names r' prefix = secret_names r prefix \<union>
    {name. \<exists>(var, fns) \<in> set cs. is_secret_variable var \<and> split_once (CHR '':'') var = Some (prefix, name)}"
  using assms
proof (induction cs arbitrary: r)
  case (Cons c cs)
  obtain var fns where c: "c = (var, fns)" by fastforce
  obtain r1 where r1: "(if is_secret_variable var then add_namespaced_variable var r else Some r) = Some r1" "add_captures cs r1 = Some r'"
    using Cons.prems c by (auto simp: bind_eq_Some_conv)
  have "secret_names r1 prefix = secret_names r prefix \<union>
    {name. is_secret_variable var \<and> split_once (CHR '':'') var = Some (prefix, name)}"
    using r1(1) by (auto simp: add_namespaced_variable_def secret_names_def map_of_update split: if_splits option.splits)
  with Cons.IH[OF r1(2)] c show ?case by auto
qed (simp add: secret_names_def)

lemma load_namespace_lookup:
  assumes "load_namespace W ns p paths r = Inr r'"
  shows "map_of r' k =
      (case find (\<lambda>path. namespaced_name ns path = k) paths of
         None \<Rightarrow> map_of r k
       | Some path \<Rightarrow> Some (new_final_string_variable (projr (get_secret W p path)))) \<and>
    (\<forall>path \<in> set paths. is_ok (get_secret W p path))"
  using assms
proof (induction paths arbitrary: r)
  case (Cons path paths)
  obtain v where v: "get_secret W p path = Inr v"
    "load_namespace W ns p paths (AList.update (namespaced_name ns path) (new_final_string_variable v) r) = Inr r'"
    using Cons.prems by (auto simp: rbind_eq_Inr map_err_eq_Inr)
  have "q = path" if "namespaced_name ns path = k" "find (\<lambda>path. namespaced_name ns path = k) paths = Some q" for q
    using that by (auto simp: find_Some_iff namespaced_name_inj)
  then show ?case using Cons.IH[OF v(2)] v(1) by (auto simp: map_of_update is_ok_iff split: option.splits)
qed simp

lemma find_namespaced:
  "find (\<lambda>q. namespaced_name n q = namespaced_name ns path) paths = (if ns = n \<and> path \<in> set paths then Some path else None)"
  by (induction paths) (auto simp: namespaced_name_inj)

lemma load_namespaces_lookup:
  assumes "load_namespaces W vars reg r = Inr r'" and "amap_ok reg"
  shows "map_of r' (namespaced_name ns path) =
      (case map_of reg ns of
         None \<Rightarrow> map_of r (namespaced_name ns path)
       | Some p \<Rightarrow>
           if path \<in> secret_names vars (namespace_fmt ns) then Some (new_final_string_variable (projr (get_secret W p path)))
           else map_of r (namespaced_name ns path)) \<and>
    (\<forall>p. map_of reg ns = Some p \<longrightarrow> path \<in> secret_names vars (namespace_fmt ns) \<longrightarrow> is_ok (get_secret W p path))"
  using assms
proof (induction reg arbitrary: r)
  case (Cons x reg)
  obtain n q where x: "x = (n, q)" by fastforce
  have fresh: "map_of reg n = None" and ok: "amap_ok reg"
    using Cons.prems x by (auto simp: amap_ok_def map_of_eq_None_iff)
  obtain r1 where r1: "load_namespaces W vars reg r1 = Inr r'"
    "map_of vars (namespace_fmt n) = None \<and> r1 = r \<or>
     (\<exists>paths. map_of vars (namespace_fmt n) = Some paths \<and> load_namespace W n q paths r = Inr r1)"
    using Cons.prems(1) x by (auto simp: rbind_eq_Inr split: option.splits)
  have here: "map_of r1 (namespaced_name ns path) =
      (if ns = n \<and> path \<in> secret_names vars (namespace_fmt n) then Some (new_final_string_variable (projr (get_secret W q path)))
       else map_of r (namespaced_name ns path)) \<and>
    (path \<in> secret_names vars (namespace_fmt n) \<longrightarrow> is_ok (get_secret W q path))"
    using r1(2)
  proof (elim disjE exE conjE)
    fix paths assume p: "map_of vars (namespace_fmt n) = Some paths" "load_namespace W n q paths r = Inr r1"
    show ?thesis
      using load_namespace_lookup[OF p(2), of "namespaced_name ns path"] by (simp add: secret_names_def p(1) find_namespaced)
  qed (simp add: secret_names_def)
  show ?case
  proof (cases "ns = n")
    case True
    then show ?thesis using Cons.IH[OF r1(1) ok] here fresh x by simp
  next
    case False
    then show ?thesis using Cons.IH[OF r1(1) ok] here x by (cases "map_of reg ns") simp_all
  qed
qed simp

text \<open>C20. The secrets a configuration names in its placeholders are exactly the ones that are loaded: after a successful
  load the variable \<open>namespace:path\<close> is there if and only if a placeholder of the configuration names it and its
  namespace has a provider, and its value is what that provider returns. Finding the placeholders never
  panics.\<close>

theorem secrets_resolved:
  assumes "secret_variables_from L s = Some vars" and "load_secrets W registry vars = Inr m" and "amap_ok registry"
    and "ns \<in> {NsVault, NsK8sSecret, NsFile, NsEnvironmentVariable}"
  shows "map_of m (namespaced_name ns path) =
    (if (\<exists>fns. (namespaced_name ns path, fns) \<in> set (captures_iter L s)) \<and> map_of registry ns \<noteq> None
     then Some (new_final_string_variable (projr (get_secret W (the (map_of registry ns)) path)))
     else None) \<and>
    (map_of m (namespaced_name ns path) \<noteq> None \<longrightarrow> is_ok (get_secret W (the (map_of registry ns)) path))"
proof -
  have secret: "is_secret_variable (namespaced_name ns path)"
    using assms(4) by (auto simp: is_secret_variable_def namespaced_name_def starts_with_def)
  have names: "path \<in> secret_names vars (namespace_fmt ns) \<longleftrightarrow> (\<exists>fns. (namespaced_name ns path, fns) \<in> set (captures_iter L s))"
    using add_captures_names[OF assms(1)[unfolded secret_variables_from_def], of "namespace_fmt ns"] secret
    by (auto simp: split_namespaced secret_names_def)
  show ?thesis
  proof (cases "registry = []")
    case False
    then have l: "load_namespaces W vars registry [] = Inr m" using assms(2) by (simp add: load_secrets_def)
    show ?thesis
      using load_namespaces_lookup[OF l assms(3), of ns path] by (cases "map_of registry ns") (simp_all add: names)
  qed (use assms(2) in \<open>simp add: load_secrets_def\<close>)
qed

definition sample_vault_libs :: "(unit, unit) vault_libs" where
  "sample_vault_libs =
     \<lparr>vl_join = \<lambda>u _. Inr u, vl_path = \<lambda>_. ''/v1/'', vl_set_path = \<lambda>_ u. u, vl_as_str = \<lambda>_. ''http://vault/v1/'', vl_uri = Inr,
      vl_header_value = Inr, vl_show_status = show_nat, vl_show_utf8_error = \<lambda>s. s,
      vl_send = \<lambda>_. Inr \<lparr>rr_status = 404, rr_version = ''HTTP/1.1'', rr_tls_info = None, rr_bytes = Inr ''''\<rparr>,
      vl_kv1_data = \<lambda>_. Inr [], vl_kv2_data = \<lambda>_. Inr []\<rparr>"

definition sample_world :: "(unit, unit) secrets_world" where
  "sample_world =
     \<lparr>sw_env = [(''TOKEN'', ''abc''), (''OTHER'', ''x'')], sw_read = \<lambda>_. Inl ''no such file'', sw_get_secret_key = \<lambda>_ _ _. Inr None,
      sw_vault = sample_vault_libs, sw_show_os = \<lambda>s. s\<rparr>"

definition sample_secrets_registry :: "(unit, unit) secrets_registry" where
  "sample_secrets_registry = registry_with_file (registry_with_env [])"

theorem secrets_resolved_witness:
  "\<exists>vars m.
     secret_variables_from sample_libs ''a: ${nr-env:TOKEN}'' = Some vars \<and>
     load_secrets sample_world sample_secrets_registry vars = Inr m \<and>
     map_of m ''nr-env:TOKEN'' = Some (new_final_string_variable ''abc'') \<and> map_of m ''nr-env:OTHER'' = None"
proof -
  have v: "secret_variables_from sample_libs ''a: ${nr-env:TOKEN}'' = Some [(''nr-env'', [''TOKEN''])]" by code_simp
  have m: "load_secrets sample_world sample_secrets_registry [(''nr-env'', [''TOKEN''])] =
    Inr [(''nr-env:TOKEN'', new_final_string_variable ''abc'')]" by code_simp
  have c: "captures_iter sample_libs ''a: ${nr-env:TOKEN}'' = [(''nr-env:TOKEN'', '''')]" by code_simp
  have r: "map_of sample_secrets_registry NsEnvironmentVariable = Some EnvProvider"
    "amap_ok sample_secrets_registry" "get_secret sample_world (EnvProvider :: (unit, unit) secrets_provider) ''TOKEN'' = Inr ''abc''" by code_simp+
  show ?thesis
    using secrets_resolved[OF v m r(2), of NsEnvironmentVariable "''TOKEN''"]
      secrets_resolved[OF v m r(2), of NsEnvironmentVariable "''OTHER''"] v m
    by (simp add: c r namespaced_name_def)
qed

section \<open>Paths of secrets\<close>

text \<open>The path of a Kubernetes secret is read back as it was built, if no part has a separator.\<close>

lemma k8s_secret_path_roundtrip:
  assumes "CHR '':'' \<notin> set namespace" and "CHR '':'' \<notin> set name" and "CHR '':'' \<notin> set key"
    and "namespace \<noteq> []" and "name \<noteq> []" and "key \<noteq> []"
  shows "k8s_secret_path_try_from (build_secret_path namespace name key) =
     Inr \<lparr>ksp_namespace = namespace, ksp_name = name, ksp_key = key\<rparr>"
proof -
  have "build_secret_path namespace name key = join '':'' [namespace, name, key]" by (simp add: build_secret_path_def)
  then have "split_on (CHR '':'') (build_secret_path namespace name key) = [namespace, name, key]"
    using assms split_on_join[of "CHR '':''" "[namespace, name, key]"] by simp
  then show ?thesis using assms by (simp add: k8s_secret_path_try_from_def)
qed

text \<open>A secret is read from Vault only with a success status, from the source and under the name that its path gives.\<close>

lemma vault_get_secret_Inr:
  assumes "vault_get_secret V vault secret_path = Inr secret"
  shows "\<exists>p source body. vault_secret_path_from_str secret_path = Inr p \<and> map_of (va_sources vault) (vsp_source p) = Some source \<and>
    parse_secret_response V (vs_engine source) (vsp_name p) body = Inr (Some secret)"
  using assms unfolding vault_get_secret_def
  by (auto simp: rbind_eq_Inr ok_or_eq_Inr)

end
