(* ===== verification/Host_Filesystem.thy ===== *)
theory Host_Filesystem
  imports File_System "HOL-Library.List_Lexorder" "HOL-Library.Char_ord"
begin

text \<open>
  The files an agent type declares for its sub-agents on a host, once rendered
  (\<open>agent_type/runtime_config/on_host/filesystem/rendered.rs\<close>): writing them, deleting the ones that are
  declared no more according to a manifest kept on disk, and deleting the ephemeral ones when the
  sub-agent stops. A \<open>PathBuf\<close> is the list of its components, the keys below a directory are relative.
  The disk has no symbolic links.
\<close>

section \<open>The functions of the standard library\<close>

definition std_read :: "os_faults \<Rightarrow> path \<Rightarrow> disk \<Rightarrow> io_error + string" where
  "std_read os p d =
     (case file_at d p of
        None \<Rightarrow> Inl (io_err NotFound ''no such file or directory'')
      | Some content \<Rightarrow> (case os_read os d p of Some m \<Rightarrow> Inl (io_other m) | None \<Rightarrow> Inr content))"

definition std_write :: "os_faults \<Rightarrow> path \<Rightarrow> string \<Rightarrow> (disk, io_error, unit) action" where
  "std_write os p content d =
     (case os_open os d p of
        Some e \<Rightarrow> (Inl e, d)
      | None \<Rightarrow>
          if is_dir d p then (Inl (io_other ''is a directory''), d)
          else if \<not> is_dir d (butlast p) then (Inl (io_err NotFound ''no such file or directory''), d)
          else
            (case os_write os d p of
               Some (n, e) \<Rightarrow> (Inl e, put_file p (take n content) d)
             | None \<Rightarrow> (Inr (), put_file p content d)))"

definition std_create_dir_all :: "os_faults \<Rightarrow> path \<Rightarrow> (disk, io_error, unit) action" where
  "std_create_dir_all os p d =
     (case os_mkdir os d p of
        Some e \<Rightarrow> (Inl e, d)
      | None \<Rightarrow>
          let prefixes = map (\<lambda>n. take n p) [1..<Suc (length p)]
          in if list_ex (is_file d) prefixes then (Inl (io_other ''not a directory''), d)
             else (Inr (), d\<lparr>dk_dirs := dk_dirs d @ filter (\<lambda>q. \<not> is_dir d q) prefixes\<rparr>))"

definition std_remove_dir_all :: "os_faults \<Rightarrow> path \<Rightarrow> (disk, io_error, unit) action" where
  "std_remove_dir_all os p d =
     (case os_rmdir os d p of
        Some (removed, e) \<Rightarrow> (Inl e, remove_tree (\<lambda>q. under p q \<and> q \<in> set removed) d)
      | None \<Rightarrow>
          if is_dir d p then (Inr (), remove_tree (under p) d) else (Inl (io_other ''not a directory''), d))"

section \<open>Entries\<close>

abbreviation MANAGED_PATHS_MANIFEST_FILENAME :: string where
  "MANAGED_PATHS_MANIFEST_FILENAME \<equiv> ''.ac-managed-paths.json''"

datatype rendered_entry =
    RenderedFile string bool
  | RenderedDir "(path \<times> rendered_entry) list" bool
  | RenderedDirContentFromMap "(path \<times> string) list"

datatype fs_entries_error =
    CreatingDirectory path io_error
  | CreatingFile path io_error
  | NoParentDir path
  | DeletingPath path io_error

fun entry_persistent :: "rendered_entry \<Rightarrow> bool" where
  "entry_persistent (RenderedFile _ persistent) = persistent"
| "entry_persistent (RenderedDir _ persistent) = persistent"
| "entry_persistent (RenderedDirContentFromMap _) = False"

fun collect_declared :: "path \<Rightarrow> rendered_entry \<Rightarrow> path list"
  and collect_children :: "path \<Rightarrow> (path \<times> rendered_entry) list \<Rightarrow> path list" where
  "collect_declared p (RenderedFile _ _) = [p]"
| "collect_declared p (RenderedDir children _) = p # collect_children p children"
| "collect_declared p (RenderedDirContentFromMap files) = p # map (\<lambda>(sub, _). p @ sub) files"
| "collect_children p [] = []"
| "collect_children p ((sub, child) # children) = collect_declared (p @ sub) child @ collect_children p children"

definition delete_path :: "os_faults \<Rightarrow> path \<Rightarrow> (disk, fs_entries_error, unit) action" where
  "delete_path os p d =
     smap_err (DeletingPath p) (if is_dir d p then std_remove_dir_all os p else remove_file os p) d"

definition ensure_dir :: "os_faults \<Rightarrow> path \<Rightarrow> (disk, fs_entries_error, unit) action" where
  "ensure_dir os p = smap_err (CreatingDirectory p) (dir_create os p)"

definition write_file :: "os_faults \<Rightarrow> path \<Rightarrow> string \<Rightarrow> (disk, fs_entries_error, unit) action" where
  "write_file os p content =
     sbind (slift (ok_or (NoParentDir p) (parent p))) (\<lambda>dir.
     sbind (ensure_dir os dir) (\<lambda>_.
     smap_err (CreatingFile p) (file_write os p content)))"

fun write_files :: "os_faults \<Rightarrow> path \<Rightarrow> (path \<times> string) list \<Rightarrow> (disk, fs_entries_error, unit) action" where
  "write_files os p [] = slift (Inr ())"
| "write_files os p ((name, content) # files) = sbind (write_file os (p @ name) content) (\<lambda>_. write_files os p files)"

fun entry_write :: "os_faults \<Rightarrow> path \<Rightarrow> rendered_entry \<Rightarrow> (disk, fs_entries_error, unit) action"
  and children_write :: "os_faults \<Rightarrow> path \<Rightarrow> (path \<times> rendered_entry) list \<Rightarrow> (disk, fs_entries_error, unit) action" where
  "entry_write os p (RenderedFile content _) = write_file os p content"
| "entry_write os p (RenderedDir children _) = sbind (ensure_dir os p) (\<lambda>_. children_write os p children)"
| "entry_write os p (RenderedDirContentFromMap files) = sbind (ensure_dir os p) (\<lambda>_. write_files os p files)"
| "children_write os p [] = slift (Inr ())"
| "children_write os p ((sub, child) # children) =
     sbind (entry_write os (p @ sub) child) (\<lambda>_. children_write os p children)"

fun entry_delete_ephemeral :: "os_faults \<Rightarrow> path \<Rightarrow> rendered_entry \<Rightarrow> (disk, fs_entries_error, unit) action"
  and children_delete_ephemeral :: "os_faults \<Rightarrow> path \<Rightarrow> (path \<times> rendered_entry) list \<Rightarrow> (disk, fs_entries_error, unit) action" where
  "entry_delete_ephemeral os p (RenderedDir children True) = children_delete_ephemeral os p children"
| "entry_delete_ephemeral os p entry =
     (\<lambda>d. if \<not> entry_persistent entry \<and> path_exists d p then delete_path os p d else (Inr (), d))"
| "children_delete_ephemeral os p [] = slift (Inr ())"
| "children_delete_ephemeral os p ((sub, child) # children) =
     sbind (entry_delete_ephemeral os (p @ sub) child) (\<lambda>_. children_delete_ephemeral os p children)"

section \<open>Manifest\<close>

text \<open>The JSON codec of the manifest: printing fails on paths that are not valid UTF-8.\<close>

record manifest_codec =
  mc_from_slice :: "string \<Rightarrow> string list option"
  mc_to_vec :: "string list \<Rightarrow> string option"

definition manifest_load :: "os_faults \<Rightarrow> manifest_codec \<Rightarrow> path \<Rightarrow> disk \<Rightarrow> string list" where
  "manifest_load os M p d =
     (case std_read os p d of
        Inl _ \<Rightarrow> []
      | Inr raw \<Rightarrow> (case mc_from_slice M raw of None \<Rightarrow> [] | Some managed_paths \<Rightarrow> managed_paths))"

definition manifest_save ::
  "os_faults \<Rightarrow> manifest_codec \<Rightarrow> path list \<Rightarrow> path \<Rightarrow> (disk, io_error, unit) action" where
  "manifest_save os M managed_paths p =
     sbind (case parent p of None \<Rightarrow> slift (Inr ()) | Some dir \<Rightarrow> std_create_dir_all os dir) (\<lambda>_.
     sbind (slift (ok_or (io_err InvalidData ''path contains invalid UTF-8 characters'') (mc_to_vec M (map path_string managed_paths)))) (\<lambda>body.
     std_write os p body))"

section \<open>File system of a sub-agent\<close>

record rendered_filesystem =
  rf_base_dir :: path
  rf_entries :: "(path \<times> rendered_entry) list"

definition manifest_path :: "rendered_filesystem \<Rightarrow> path" where
  "manifest_path fs = rf_base_dir fs @ [MANAGED_PATHS_MANIFEST_FILENAME]"

definition collect_declared_paths :: "rendered_filesystem \<Rightarrow> path list" where
  "collect_declared_paths fs = remdups (concat (map (\<lambda>(p, entry). collect_declared p entry) (rf_entries fs)))"

definition is_within_base :: "string \<Rightarrow> path \<Rightarrow> bool" where
  "is_within_base s base_dir \<longleftrightarrow> ParentDir \<notin> set (path_components s) \<and> is_absolute s \<and> under base_dir (path_of s)"

definition read_manifest :: "os_faults \<Rightarrow> manifest_codec \<Rightarrow> rendered_filesystem \<Rightarrow> disk \<Rightarrow> path list" where
  "read_manifest os M fs d =
     remdups (map path_of (filter (\<lambda>s. \<not> (is_absolute s \<and> path_of s = manifest_path fs) \<and> is_within_base s (rf_base_dir fs))
       (manifest_load os M (manifest_path fs) d)))"

fun entries_write :: "os_faults \<Rightarrow> (path \<times> rendered_entry) list \<Rightarrow> (disk, fs_entries_error, unit) action" where
  "entries_write os [] = slift (Inr ())"
| "entries_write os ((p, entry) # entries) = sbind (entry_write os p entry) (\<lambda>_. entries_write os entries)"

fun delete_stale :: "os_faults \<Rightarrow> path list \<Rightarrow> disk \<Rightarrow> disk" where
  "delete_stale os [] d = d"
| "delete_stale os (p # ps) d = delete_stale os ps (if path_exists d p then snd (delete_path os p d) else d)"

definition stale_paths :: "os_faults \<Rightarrow> manifest_codec \<Rightarrow> rendered_filesystem \<Rightarrow> disk \<Rightarrow> path list" where
  "stale_paths os M fs d =
     sort_key (\<lambda>p. - int (length p))
       (filter (\<lambda>p. p \<notin> set (collect_declared_paths fs)) (read_manifest os M fs d))"

definition filesystem_write :: "os_faults \<Rightarrow> manifest_codec \<Rightarrow> rendered_filesystem \<Rightarrow> (disk, fs_entries_error, unit) action" where
  "filesystem_write os M fs d =
     sbind (entries_write os (rf_entries fs)) (\<lambda>_ d.
       (Inr (), snd (manifest_save os M (sort (collect_declared_paths fs)) (manifest_path fs) d)))
     (delete_stale os (stale_paths os M fs d) d)"

fun entries_delete_ephemeral :: "os_faults \<Rightarrow> (path \<times> rendered_entry) list \<Rightarrow> (disk, fs_entries_error, unit) action" where
  "entries_delete_ephemeral os [] = slift (Inr ())"
| "entries_delete_ephemeral os ((p, entry) # entries) =
     sbind (entry_delete_ephemeral os p entry) (\<lambda>_. entries_delete_ephemeral os entries)"

definition filesystem_delete_ephemeral :: "os_faults \<Rightarrow> rendered_filesystem \<Rightarrow> (disk, fs_entries_error, unit) action" where
  "filesystem_delete_ephemeral os fs = entries_delete_ephemeral os (rf_entries fs)"

section \<open>What the operations leave alone\<close>

lemma std_write_frame:
  "std_write os p c d = (r, d') \<Longrightarrow> (q \<noteq> p \<longrightarrow> file_at d' q = file_at d q) \<and> is_dir d' q = is_dir d q"
  by (auto simp: std_write_def split: option.splits prod.splits if_splits)

lemma file_write_dirs: "file_write os p c d = (r, d') \<Longrightarrow> is_dir d' q = is_dir d q"
  by (auto simp: file_write_def split: sum.splits option.splits prod.splits if_splits)

lemma std_create_dir_all_frame:
  assumes "std_create_dir_all os p d = (r, d')"
  shows "file_at d' q = file_at d q" "is_dir d q \<Longrightarrow> is_dir d' q" "is_dir d' q \<Longrightarrow> is_dir d q \<or> under q p"
proof -
  show "file_at d' q = file_at d q" "is_dir d q \<Longrightarrow> is_dir d' q"
    using assms by (auto simp: std_create_dir_all_def Let_def is_dir_def split: option.splits if_splits)
  assume "is_dir d' q"
  then have "is_dir d q \<or> q \<in> set (map (\<lambda>n. take n p) [1..<Suc (length p)])"
    using assms by (auto simp: std_create_dir_all_def Let_def is_dir_def simp del: upt_Suc split: option.splits if_splits)
  then show "is_dir d q \<or> under q p"
    unfolding under_iff by (auto simp del: upt_Suc) (metis append_take_drop_id)
qed

lemma dir_create_std: "dir_create os p d = (case validate_path p of Inl e \<Rightarrow> (Inl e, d) | Inr _ \<Rightarrow> std_create_dir_all os p d)"
  by (simp add: dir_create_def std_create_dir_all_def split: sum.splits)

lemma ensure_dir_frame:
  assumes "ensure_dir os p d = (r, d')"
  shows "file_at d' q = file_at d q" "is_dir d q \<Longrightarrow> is_dir d' q" "is_dir d' q \<Longrightarrow> is_dir d q \<or> under q p"
  using assms std_create_dir_all_frame[of os p d]
  by (auto simp: ensure_dir_def smap_err_def dir_create_std map_prod_def split: sum.splits prod.splits)

lemma delete_path_frame:
  assumes "delete_path os p d = (r, d')" and "\<not> under p q"
  shows "file_at d' q = file_at d q" "is_dir d' q = is_dir d q"
proof -
  have "q \<noteq> p" using assms(2) by auto
  then show "file_at d' q = file_at d q" "is_dir d' q = is_dir d q"
    using assms
    by (auto simp: delete_path_def smap_err_def std_remove_dir_all_def remove_file_def map_prod_def is_dir_remove_tree
        is_dir_def[of _ "[]"] split: option.splits prod.splits if_splits)
qed

lemma delete_path_only_removes:
  assumes "delete_path os p d = (r, d')"
  shows "is_dir d' q \<Longrightarrow> is_dir d q" "file_at d' q = Some c \<Longrightarrow> file_at d q = Some c"
  using assms
  by (auto simp: delete_path_def smap_err_def std_remove_dir_all_def remove_file_def map_prod_def is_dir_remove_tree
      is_dir_def[of _ "[]"] split: option.splits prod.splits if_splits)

definition writes_only :: "path set \<Rightarrow> disk \<Rightarrow> disk \<Rightarrow> bool" where
  "writes_only S d d' \<longleftrightarrow>
     (\<forall>q. q \<notin> S \<longrightarrow> file_at d' q = file_at d q) \<and> (\<forall>q. is_dir d q \<longrightarrow> is_dir d' q) \<and>
     (\<forall>q. is_dir d' q \<longrightarrow> is_dir d q \<or> (\<exists>p \<in> S. under q p))"

lemma writes_only_refl [simp]: "writes_only S d d"
  by (simp add: writes_only_def)

lemma writes_only_trans:
  "writes_only S d d1 \<Longrightarrow> writes_only T d1 d2 \<Longrightarrow> S \<subseteq> U \<Longrightarrow> T \<subseteq> U \<Longrightarrow> writes_only U d d2"
  unfolding writes_only_def by (metis subsetD)

text \<open>An action that only writes below some paths.\<close>

definition writes :: "path set \<Rightarrow> (disk, 'e, 'a) action \<Rightarrow> bool" where
  "writes S m \<longleftrightarrow> (\<forall>d r d'. m d = (r, d') \<longrightarrow> writes_only S d d')"

lemma writesD: "writes S m \<Longrightarrow> m d = (r, d') \<Longrightarrow> writes_only S d d'"
  by (simp add: writes_def)

lemma writes_mono: "writes S m \<Longrightarrow> S \<subseteq> T \<Longrightarrow> writes T m"
  unfolding writes_def by (meson writes_only_refl writes_only_trans)

lemma writes_slift [simp]: "writes S (slift r)"
  by (simp add: writes_def slift_def)

lemma writes_sbind:
  assumes "writes S m" and "\<And>x. writes T (f x)"
  shows "writes (S \<union> T) (sbind m f)"
  unfolding writes_def
proof (intro allI impI)
  fix d r d'
  assume run: "sbind m f d = (r, d')"
  obtain r1 d1 where m: "m d = (r1, d1)" by fastforce
  have S: "writes_only S d d1" using writesD[OF assms(1) m] .
  have "writes_only T d1 d'" using run m writesD[OF assms(2)] by (cases r1) (auto simp: sbind_def)
  from writes_only_trans[OF S this] show "writes_only (S \<union> T) d d'" by blast
qed

lemma writes_ensure_dir: "writes {p} (ensure_dir os p)"
  unfolding writes_def writes_only_def using ensure_dir_frame[of os p] by blast

lemma writes_file_write: "writes {p} (smap_err h (file_write os p c))"
proof -
  have "writes_only {p} d d'" if "file_write os p c d = (r, d')" for d r d'
    using file_write_other[OF that] file_write_dirs[OF that] by (auto simp: writes_only_def)
  then show ?thesis by (auto simp: writes_def smap_err_def map_prod_def split: prod.splits)
qed

lemma writes_parent: "parent p = Some dir \<Longrightarrow> writes {p} (ensure_dir os dir)"
proof -
  assume p: "parent p = Some dir"
  have dir: "dir = butlast p" "p \<noteq> []" using p by (cases p; simp)+
  have "under q p" if "under q dir" for q
    using that append_butlast_last_id[OF dir(2)] unfolding dir under_iff by (metis append_assoc)
  then show ?thesis unfolding writes_def writes_only_def using ensure_dir_frame[of os dir] by blast
qed

lemma writes_write_file: "writes {p} (write_file os p c)"
proof (cases "parent p")
  case None
  then show ?thesis by (simp add: write_file_def writes_def sbind_def slift_def)
next
  case (Some dir)
  then have "write_file os p c = sbind (ensure_dir os dir) (\<lambda>_. smap_err (CreatingFile p) (file_write os p c))"
    by (auto simp: write_file_def sbind_def slift_def)
  then show ?thesis using writes_sbind[OF writes_parent[OF Some] writes_file_write[of p "CreatingFile p" os c]] by simp
qed

lemma writes_write_files: "writes ((\<lambda>(sub, _). p @ sub) ` set files) (write_files os p files)"
proof (induction files)
  case (Cons f files)
  then show ?case using writes_sbind[OF writes_write_file Cons.IH] by (cases f) simp
qed simp

lemma writes_entry:
  "writes (set (collect_declared p e)) (entry_write os p e)"
  "writes (set (collect_children p ch)) (children_write os p ch)"
proof (induction os p e and os p ch rule: entry_write_children_write.induct)
  case (2 os p children persistent)
  then show ?case using writes_sbind[OF writes_ensure_dir 2] by simp
next
  case (3 os p files)
  then show ?case using writes_sbind[OF writes_ensure_dir writes_write_files] by (simp add: case_prod_unfold)
next
  case (5 os p sub child children)
  then show ?case using writes_sbind[OF 5] by simp
qed (simp_all add: writes_write_file)

lemma writes_entries: "writes (\<Union>(p, e) \<in> set es. set (collect_declared p e)) (entries_write os es)"
proof (induction es)
  case (Cons pe es)
  then show ?case using writes_sbind[OF writes_entry(1) Cons.IH] by (cases pe) simp
qed simp

lemma writes_manifest_save: "writes {p} (manifest_save os M ps p)"
proof (cases "parent p")
  case None
  then have "p = []" by (cases p) simp_all
  then have "writes {p} (std_write os p c)" for c
    using std_write_frame[of os p c] unfolding writes_def writes_only_def by blast
  then show ?thesis
    unfolding manifest_save_def None option.case
    using writes_sbind[of "{p}" "slift (Inr ())" "{p}"] writes_sbind[of "{p}" "slift r" "{p}" for r]
    by (metis Un_absorb writes_slift)
next
  case (Some dir)
  have dir: "dir = butlast p" "p \<noteq> []" using Some by (cases p; simp)+
  have up: "under q p" if "under q dir" for q
    using that append_butlast_last_id[OF dir(2)] unfolding dir under_iff by (metis append_assoc)
  have c: "writes {p} (std_create_dir_all os dir)"
    unfolding writes_def writes_only_def using std_create_dir_all_frame[of os dir] up by blast
  have w: "writes {p} (std_write os p body)" for body
    using std_write_frame[of os p body] unfolding writes_def writes_only_def by blast
  have "writes {p} (sbind (slift r) (std_write os p))" for r
    using writes_sbind[of "{p}" "slift r" "{p}" "std_write os p"] w by simp
  from writes_sbind[OF c this] show ?thesis unfolding manifest_save_def Some option.case by simp
qed

lemma delete_stale_frame:
  "\<forall>p \<in> set ps. \<not> under p q \<Longrightarrow> file_at (delete_stale os ps d) q = file_at d q \<and> is_dir (delete_stale os ps d) q = is_dir d q"
proof (induction ps arbitrary: d)
  case (Cons p ps)
  have "file_at (snd (delete_path os p d)) q = file_at d q" "is_dir (snd (delete_path os p d)) q = is_dir d q"
    using delete_path_frame[of os p d "fst (delete_path os p d)" "snd (delete_path os p d)" q] Cons.prems by auto
  with Cons show ?case by auto
qed simp

lemma delete_stale_only_removes:
  "is_dir (delete_stale os ps d) q \<Longrightarrow> is_dir d q" "file_at (delete_stale os ps d) q = Some c \<Longrightarrow> file_at d q = Some c"
proof (induction ps arbitrary: d)
  case (Cons p ps)
  {
    case 1
    then show ?case using Cons.IH(1) delete_path_only_removes(1)[of os p d "fst (delete_path os p d)" "snd (delete_path os p d)"]
      by (auto split: if_splits)
  next
    case 2
    then show ?case using Cons.IH(2) delete_path_only_removes(2)[of os p d "fst (delete_path os p d)" "snd (delete_path os p d)"]
      by (fastforce split: if_splits)
  }
qed simp_all

lemma set_declared: "set (collect_declared_paths fs) = (\<Union>(p, e) \<in> set (rf_entries fs). set (collect_declared p e))"
  by (auto simp: collect_declared_paths_def)

lemma set_stale: "set (stale_paths os M fs d) = set (read_manifest os M fs d) - set (collect_declared_paths fs)"
  by (auto simp: stale_paths_def)

lemma filesystem_write_cases:
  assumes "filesystem_write os M fs d = (r, d')"
  shows "writes_only (insert (manifest_path fs) (set (collect_declared_paths fs))) (delete_stale os (stale_paths os M fs d) d) d'"
proof -
  let ?save = "\<lambda>_ d. (Inr (), snd (manifest_save os M (sort (collect_declared_paths fs)) (manifest_path fs) d)) :: (fs_entries_error + unit) \<times> disk"
  have "writes {manifest_path fs} (?save x)" for x
    unfolding writes_def using writesD[OF writes_manifest_save] by (metis prod.collapse snd_conv)
  then have "writes (set (collect_declared_paths fs) \<union> {manifest_path fs}) (sbind (entries_write os (rf_entries fs)) ?save)"
    unfolding set_declared by (intro writes_sbind writes_entries)
  from writesD[OF this assms[unfolded filesystem_write_def]] show ?thesis by simp
qed

text \<open>Nothing changes but what is declared, the manifest, and what is below the managed paths that are declared no
  more.\<close>

lemma filesystem_write_frame:
  assumes "filesystem_write os M fs d = (r, d')" and "q \<notin> set (collect_declared_paths fs)" and "q \<noteq> manifest_path fs"
    and "\<forall>p \<in> set (read_manifest os M fs d). p \<notin> set (collect_declared_paths fs) \<longrightarrow> \<not> under p q"
  shows "file_at d' q = file_at d q"
  using filesystem_write_cases[OF assms(1)] delete_stale_frame[of "stale_paths os M fs d" q os d] assms(2-4)
  unfolding writes_only_def set_stale by auto

lemma read_manifest_within: "p \<in> set (read_manifest os M fs d) \<Longrightarrow> under (rf_base_dir fs) p"
  by (auto simp: read_manifest_def is_within_base_def)

definition entries_below :: "rendered_filesystem \<Rightarrow> bool" where
  "entries_below fs \<longleftrightarrow> list_all (\<lambda>(p, _). under (rf_base_dir fs) p) (rf_entries fs)"

lemma collect_declared_under:
  "x \<in> set (collect_declared p e) \<Longrightarrow> under p x"
  "x \<in> set (collect_children p ch) \<Longrightarrow> under p x"
  by (induction p e and p ch rule: collect_declared_collect_children.induct) (auto simp: under_iff)

lemma under_trans: "under p q \<Longrightarrow> under q r \<Longrightarrow> under p r"
  by (auto simp: under_iff)

lemma filesystem_write_outside:
  assumes "entries_below fs" and "filesystem_write os M fs d = (r, d')" and "\<not> under (rf_base_dir fs) q"
  shows "file_at d' q = file_at d q \<and> (is_dir d q \<longrightarrow> is_dir d' q) \<and>
    (is_dir d' q \<longrightarrow> is_dir d q \<or> under q (rf_base_dir fs))"
proof -
  let ?d1 = "delete_stale os (stale_paths os M fs d) d"
  have below: "under (rf_base_dir fs) p" if "p \<in> insert (manifest_path fs) (set (collect_declared_paths fs))" for p
    using that assms(1) collect_declared_under(1) under_trans
    by (fastforce simp: set_declared entries_below_def list_all_iff manifest_path_def)
  have w: "writes_only (insert (manifest_path fs) (set (collect_declared_paths fs))) ?d1 d'"
    by (rule filesystem_write_cases[OF assms(2)])
  have stale: "\<forall>p \<in> set (stale_paths os M fs d). \<not> under p q"
  proof
    fix p assume "p \<in> set (stale_paths os M fs d)"
    then show "\<not> under p q" using read_manifest_within under_trans assms(3) unfolding set_stale by blast
  qed
  note d1 = delete_stale_frame[OF stale, of os d]
  have up: "under q (rf_base_dir fs)" if "p \<in> insert (manifest_path fs) (set (collect_declared_paths fs))" "under q p" for p
  proof -
    have "\<exists>x. p = rf_base_dir fs @ x" "\<exists>y. p = q @ y" using below[OF that(1)] that(2) by (simp_all add: under_iff)
    then obtain x y where "p = rf_base_dir fs @ x" "p = q @ y" by blast
    then have "(\<exists>z. q = rf_base_dir fs @ z) \<or> (\<exists>z. rf_base_dir fs = q @ z)"
      by (metis append_eq_append_conv2)
    then show ?thesis using assms(3) by (auto simp: under_iff)
  qed
  have "q \<notin> insert (manifest_path fs) (set (collect_declared_paths fs))" using below assms(3) by blast
  then have "file_at d' q = file_at ?d1 q" "is_dir ?d1 q \<longrightarrow> is_dir d' q" "is_dir d' q \<longrightarrow> is_dir ?d1 q \<or> under q (rf_base_dir fs)"
    using w up unfolding writes_only_def by simp_all metis
  with d1 show ?thesis by simp
qed

text \<open>C21. On a disk without symbolic links, writing the files of a sub-agent, which are all declared below its
  directory, changes nothing outside that directory, whatever the manifest found on disk says and whatever fails: no file is written, truncated or deleted there, no directory is removed, and the
  only directories that can appear are those on the way to it.\<close>

theorem filesystem_write_confined:
  assumes "entries_below fs" and "filesystem_write os M fs d = (r, d')" and "\<not> under (rf_base_dir fs) q"
  shows "file_at d' q = file_at d q \<and> (is_dir d q \<longrightarrow> is_dir d' q) \<and>
    (is_dir d' q \<longrightarrow> is_dir d q \<or> under q (rf_base_dir fs))"
  using assms by (rule filesystem_write_outside)

section \<open>What a write leaves on disk\<close>

fun declared_files :: "path \<Rightarrow> rendered_entry \<Rightarrow> (path \<times> string) list"
  and declared_child_files :: "path \<Rightarrow> (path \<times> rendered_entry) list \<Rightarrow> (path \<times> string) list" where
  "declared_files p (RenderedFile content _) = [(p, content)]"
| "declared_files p (RenderedDir children _) = declared_child_files p children"
| "declared_files p (RenderedDirContentFromMap files) = map (\<lambda>(sub, content). (p @ sub, content)) files"
| "declared_child_files p [] = []"
| "declared_child_files p ((sub, child) # children) = declared_files (p @ sub) child @ declared_child_files p children"

text \<open>A key is a single name in UTF-8, not the one of the manifest.\<close>

definition name_ok :: "string \<Rightarrow> bool" where
  "name_ok name \<longleftrightarrow> segment_name name \<and> utf8_valid (map of_char name)"

fun key_ok :: "path \<Rightarrow> bool" where
  "key_ok [name] \<longleftrightarrow> name_ok name \<and> name \<noteq> MANAGED_PATHS_MANIFEST_FILENAME"
| "key_ok _ \<longleftrightarrow> False"

definition keys_ok :: "(path \<times> 'a) list \<Rightarrow> bool" where
  "keys_ok m \<longleftrightarrow> distinct (map fst m) \<and> list_all key_ok (map fst m)"

fun entry_ok :: "rendered_entry \<Rightarrow> bool"
  and children_ok :: "(path \<times> rendered_entry) list \<Rightarrow> bool" where
  "entry_ok (RenderedFile _ _) \<longleftrightarrow> True"
| "entry_ok (RenderedDir children _) \<longleftrightarrow> keys_ok children \<and> children_ok children"
| "entry_ok (RenderedDirContentFromMap files) \<longleftrightarrow> keys_ok files"
| "children_ok [] \<longleftrightarrow> True"
| "children_ok ((_, child) # children) \<longleftrightarrow> entry_ok child \<and> children_ok children"

lemma key_okE: "key_ok k \<Longrightarrow> \<exists>n. k = [n] \<and> name_ok n \<and> n \<noteq> MANAGED_PATHS_MANIFEST_FILENAME"
  by (cases k rule: key_ok.cases) simp_all

lemma keys_ok_Cons: "keys_ok ((k, v) # m) \<longleftrightarrow> key_ok k \<and> k \<notin> fst ` set m \<and> keys_ok m"
  by (auto simp: keys_ok_def)

lemma siblings_apart:
  assumes "key_ok a" and "key_ok b" and "a \<noteq> b" and "under (p @ a) x"
  shows "\<not> under (p @ b) x"
  using key_okE[OF assms(1)] key_okE[OF assms(2)] assms(3,4) by (auto simp: under_iff)

lemma keys_okD: "keys_ok m \<Longrightarrow> (k, v) \<in> set m \<Longrightarrow> key_ok k"
  by (auto simp: keys_ok_def list_all_iff)

lemma collect_children_sub:
  "x \<in> set (collect_children p ch) \<Longrightarrow> \<exists>k \<in> fst ` set ch. under (p @ k) x"
  by (induction ch) (auto dest: collect_declared_under(1))

lemma declared_files_collect:
  "x \<in> set (declared_files p e) \<Longrightarrow> fst x \<in> set (collect_declared p e)"
  "x \<in> set (declared_child_files p ch) \<Longrightarrow> fst x \<in> set (collect_children p ch)"
  by (induction p e and p ch rule: collect_declared_collect_children.induct) auto

lemma write_file_ok: "write_file os p c d = (Inr u, d') \<Longrightarrow> file_at d' p = Some c"
  by (auto simp: write_file_def result_simps dest!: file_write_ok)

lemma write_files_ok:
  assumes "write_files os p files d = (Inr u, d')" and "keys_ok files" and "(k, c) \<in> set files"
  shows "file_at d' (p @ k) = Some c"
  using assms
proof (induction files arbitrary: d)
  case (Cons f files)
  obtain n c' where f: "f = (n, c')" by fastforce
  obtain d1 where d1: "write_file os (p @ n) c' d = (Inr (), d1)" "write_files os p files d1 = (Inr u, d')"
    using Cons.prems(1) f by (auto simp: result_simps)
  show ?case
  proof (cases "(k, c) = f")
    case True
    have "p @ n \<notin> (\<lambda>(sub, _). p @ sub) ` set files" using Cons.prems(2) f by (auto simp: keys_ok_Cons image_iff)
    then have "file_at d' (p @ n) = file_at d1 (p @ n)"
      using writesD[OF writes_write_files d1(2)] by (auto simp: writes_only_def)
    then show ?thesis using write_file_ok[OF d1(1)] True f by simp
  next
    case False
    then show ?thesis using Cons.IH[OF d1(2)] Cons.prems(2,3) f by (auto simp: keys_ok_Cons)
  qed
qed simp

lemma entry_write_ok:
  "entry_write os p e d = (Inr (), d') \<Longrightarrow> entry_ok e \<Longrightarrow> x \<in> set (declared_files p e) \<Longrightarrow> file_at d' (fst x) = Some (snd x)"
  "children_write os p ch d = (Inr (), d') \<Longrightarrow> keys_ok ch \<Longrightarrow> children_ok ch \<Longrightarrow> x \<in> set (declared_child_files p ch) \<Longrightarrow>
     file_at d' (fst x) = Some (snd x)"
proof (induction os p e and os p ch arbitrary: d d' and d d' rule: entry_write_children_write.induct)
  case (1 os p content persistent)
  then show ?case using write_file_ok by auto
next
  case (2 os p children persistent)
  then show ?case by (auto simp: result_simps)
next
  case (3 os p files)
  then show ?case using write_files_ok by (auto simp: result_simps)
next
  case (5 os p sub child children)
  obtain d1 where d1: "entry_write os (p @ sub) child d = (Inr (), d1)" "children_write os p children d1 = (Inr (), d')"
    using 5(3) by (auto simp: result_simps)
  have keys: "key_ok sub" "sub \<notin> fst ` set children" "keys_ok children" using 5(4) by (auto simp: keys_ok_Cons)
  show ?case
  proof (cases "x \<in> set (declared_files (p @ sub) child)")
    case True
    then have u: "under (p @ sub) (fst x)" using declared_files_collect(1) collect_declared_under(1) by blast
    have "fst x \<notin> set (collect_children p children)"
    proof
      assume "fst x \<in> set (collect_children p children)"
      then obtain kv where kv: "kv \<in> set children" "under (p @ fst kv) (fst x)" using collect_children_sub by blast
      then have "key_ok (fst kv)" "sub \<noteq> fst kv" using keys_okD[OF keys(3), of "fst kv" "snd kv"] keys(2) by auto
      with siblings_apart[OF keys(1) _ _ u] kv(2) show False by blast
    qed
    then have "file_at d' (fst x) = file_at d1 (fst x)"
      using writesD[OF writes_entry(2) d1(2)] by (simp add: writes_only_def)
    then show ?thesis using 5(1)[OF d1(1) _ True] 5(5) by simp
  next
    case False
    then show ?thesis using 5(2)[OF d1(2) keys(3)] 5(5,6) by simp
  qed
qed (simp_all add: slift_def)

section \<open>Well-formed file systems\<close>

definition relative_entries :: "rendered_filesystem \<Rightarrow> (path \<times> rendered_entry) list" where
  "relative_entries fs = map (\<lambda>(p, e). (drop (length (rf_base_dir fs)) p, e)) (rf_entries fs)"

definition filesystem_ok :: "rendered_filesystem \<Rightarrow> bool" where
  "filesystem_ok fs \<longleftrightarrow> list_all name_ok (rf_base_dir fs) \<and> entries_below fs \<and>
     keys_ok (relative_entries fs) \<and> children_ok (relative_entries fs)"

lemma entries_relative:
  assumes "entries_below fs"
  shows "entries_write os (rf_entries fs) = children_write os (rf_base_dir fs) (relative_entries fs)"
    "set (collect_declared_paths fs) = set (collect_children (rf_base_dir fs) (relative_entries fs))"
proof -
  have abs: "rf_base_dir fs @ drop (length (rf_base_dir fs)) p = p" if "under (rf_base_dir fs) p" for p
    using that by (auto simp: under_iff)
  have "entries_write os es = children_write os b (map (\<lambda>(p, e). (drop (length b) p, e)) es)
    \<and> (\<Union>(p, e) \<in> set es. set (collect_declared p e)) = set (collect_children b (map (\<lambda>(p, e). (drop (length b) p, e)) es))"
    if "b = rf_base_dir fs" "list_all (\<lambda>(p, _). under b p) es" for b es
    using that(2) abs[folded that(1)] by (induction es) auto
  then show "entries_write os (rf_entries fs) = children_write os (rf_base_dir fs) (relative_entries fs)"
    "set (collect_declared_paths fs) = set (collect_children (rf_base_dir fs) (relative_entries fs))"
    using assms unfolding entries_below_def relative_entries_def set_declared by blast+
qed

definition filesystem_files :: "rendered_filesystem \<Rightarrow> (path \<times> string) list" where
  "filesystem_files fs = declared_child_files (rf_base_dir fs) (relative_entries fs)"

lemma declared_below_key:
  assumes "filesystem_ok fs" and "x \<in> set (collect_declared_paths fs)"
  shows "\<exists>k. key_ok k \<and> under (rf_base_dir fs @ k) x"
  using assms entries_relative(2)[of fs] collect_children_sub[of x "rf_base_dir fs" "relative_entries fs"]
  by (auto simp: filesystem_ok_def dest!: keys_okD)

lemma manifest_not_declared:
  assumes "filesystem_ok fs"
  shows "manifest_path fs \<notin> set (collect_declared_paths fs)"
proof
  assume "manifest_path fs \<in> set (collect_declared_paths fs)"
  then obtain k where "key_ok k" "under (rf_base_dir fs @ k) (manifest_path fs)" using declared_below_key[OF assms] by blast
  then show False using key_okE[of k] by (auto simp: under_iff manifest_path_def)
qed

lemma filesystem_write_Inr:
  assumes "filesystem_write os M fs d = (Inr u, d')"
  obtains d1 r2 where "entries_write os (rf_entries fs) (delete_stale os (stale_paths os M fs d) d) = (Inr (), d1)"
    "manifest_save os M (sort (collect_declared_paths fs)) (manifest_path fs) d1 = (r2, d')"
proof -
  obtain d1 where "entries_write os (rf_entries fs) (delete_stale os (stale_paths os M fs d) d) = (Inr (), d1)"
    "d' = snd (manifest_save os M (sort (collect_declared_paths fs)) (manifest_path fs) d1)"
    using assms by (auto simp: filesystem_write_def result_simps)
  then show thesis using that by (metis prod.collapse)
qed

lemma filesystem_write_files:
  assumes "filesystem_ok fs" and "filesystem_write os M fs d = (Inr u, d')" and "x \<in> set (filesystem_files fs)"
  shows "file_at d' (fst x) = Some (snd x)"
proof -
  obtain d1 r2 where run: "entries_write os (rf_entries fs) (delete_stale os (stale_paths os M fs d) d) = (Inr (), d1)"
    "manifest_save os M (sort (collect_declared_paths fs)) (manifest_path fs) d1 = (r2, d')"
    by (rule filesystem_write_Inr[OF assms(2)])
  have ok: "entries_below fs" "keys_ok (relative_entries fs)" "children_ok (relative_entries fs)"
    using assms(1) by (simp_all add: filesystem_ok_def)
  have "file_at d1 (fst x) = Some (snd x)"
    using entry_write_ok(2)[OF run(1)[unfolded entries_relative(1)[OF ok(1)]] ok(2,3)] assms(3)
    by (simp add: filesystem_files_def)
  moreover have "fst x \<noteq> manifest_path fs"
    using manifest_not_declared[OF assms(1)] declared_files_collect(2)[of x] assms(3) entries_relative(2)[OF ok(1)]
    by (auto simp: filesystem_files_def)
  ultimately show ?thesis using writesD[OF writes_manifest_save run(2)] by (simp add: writes_only_def)
qed

lemma declared_closed:
  "x \<in> set (collect_declared p e) \<Longrightarrow> entry_ok e \<Longrightarrow> under q x \<Longrightarrow> under p q \<Longrightarrow> q \<in> set (collect_declared p e)"
  "x \<in> set (collect_children p ch) \<Longrightarrow> keys_ok ch \<Longrightarrow> children_ok ch \<Longrightarrow> under q x \<Longrightarrow> under p q \<Longrightarrow> q \<noteq> p \<Longrightarrow>
     q \<in> set (collect_children p ch)"
proof (induction p e and p ch rule: collect_declared_collect_children.induct)
  case (1 p content persistent)
  then show ?case by (auto simp: under_iff)
next
  case (2 p children persistent)
  then show ?case by (cases "q = p") (auto simp: under_iff)
next
  case (3 p files)
  then obtain sub c where x: "x = p \<or> (x = p @ sub \<and> (sub, c) \<in> set files)" by auto
  show ?case
  proof (cases "q = p")
    case False
    then have "x = p @ sub" "(sub, c) \<in> set files" using x 3 by (auto simp: under_iff)
    moreover obtain n where "sub = [n]" using key_okE[OF keys_okD] 3(2) calculation(2) by fastforce
    ultimately have "q = x" using False 3(3,4) by (auto simp: under_iff Cons_eq_append_conv append_eq_Cons_conv)
    then show ?thesis using 3(1) by simp
  qed simp
next
  case (5 p sub child children)
  have keys: "key_ok sub" "keys_ok children" "entry_ok child" "children_ok children" using 5(4,5) by (auto simp: keys_ok_Cons)
  show ?case
  proof (cases "x \<in> set (collect_declared (p @ sub) child)")
    case True
    obtain n where n: "sub = [n]" using key_okE[OF keys(1)] by blast
    have "under (p @ sub) q"
      using collect_declared_under(1)[OF True] 5(6,7,8) n by (auto simp: under_iff Cons_eq_append_conv append_eq_Cons_conv)
    then show ?thesis using 5(1)[OF True keys(3) 5(6)] by simp
  next
    case False
    then show ?thesis using 5(2)[OF _ keys(2,4) 5(6,7,8)] 5(3) by simp
  qed
qed simp

lemma declared_names:
  "x \<in> set (collect_declared p e) \<Longrightarrow> entry_ok e \<Longrightarrow> list_all name_ok p \<Longrightarrow> list_all name_ok x"
  "x \<in> set (collect_children p ch) \<Longrightarrow> keys_ok ch \<Longrightarrow> children_ok ch \<Longrightarrow> list_all name_ok p \<Longrightarrow> list_all name_ok x"
proof (induction p e and p ch rule: collect_declared_collect_children.induct)
  case (3 p files)
  have "list_all name_ok k" if "(k, c) \<in> set files" for k c
    using key_okE[OF keys_okD[OF _ that]] 3(2) by auto
  then show ?case using 3 by auto
next
  case (5 p sub child children)
  then have "key_ok sub" "keys_ok children" by (auto simp: keys_ok_Cons)
  then show ?case using 5 key_okE[of sub] by auto
qed auto

section \<open>From one version to the next\<close>

lemma std_read_no_faults:
  "std_read no_faults p d =
     (case file_at d p of None \<Rightarrow> Inl (io_err NotFound ''no such file or directory'') | Some content \<Rightarrow> Inr content)"
  by (simp add: std_read_def no_faults_def split: option.splits)

lemma read_manifest_subset: "set (read_manifest os M fs d) \<subseteq> set (read_manifest no_faults M fs d)"
  by (auto simp: read_manifest_def manifest_load_def std_read_def no_faults_def split: option.splits)

lemma read_manifest_cong:
  "rf_base_dir fs = rf_base_dir fs' \<Longrightarrow> file_at d (manifest_path fs) = file_at d' (manifest_path fs) \<Longrightarrow>
     read_manifest no_faults M fs d = read_manifest no_faults M fs' d'"
  by (simp add: read_manifest_def manifest_load_def std_read_no_faults manifest_path_def)

lemma read_manifest_readable:
  "os_read os d (manifest_path fs) = None \<Longrightarrow> read_manifest os M fs d = read_manifest no_faults M fs d"
  by (simp add: read_manifest_def manifest_load_def std_read_def no_faults_def split: option.splits)

text \<open>Faults that the code only logs: deleting stale paths, and reading or saving the manifest.\<close>

definition deletes_work :: "os_faults \<Rightarrow> bool" where
  "deletes_work os \<longleftrightarrow> (\<forall>d p. os_unlink os d p = None \<and> os_rmdir os d p = None)"

definition manifest_saves :: "os_faults \<Rightarrow> rendered_filesystem \<Rightarrow> bool" where
  "manifest_saves os fs \<longleftrightarrow>
     (\<forall>d. os_mkdir os d (rf_base_dir fs) = None \<and> os_open os d (manifest_path fs) = None \<and>
        os_write os d (manifest_path fs) = None)"

lemma delete_path_gone:
  "deletes_work os \<Longrightarrow> p \<noteq> [] \<Longrightarrow> path_exists d p \<Longrightarrow> \<not> path_exists (snd (delete_path os p d)) p"
  by (auto simp: delete_path_def smap_err_def std_remove_dir_all_def remove_file_def deletes_work_def path_exists_def
      is_file_def is_dir_remove_tree)

lemma delete_stale_exists: "path_exists (delete_stale os ps d) q \<Longrightarrow> path_exists d q"
  unfolding path_exists_def is_file_def
  using delete_stale_only_removes(1)[of os ps d q] delete_stale_only_removes(2)[of os ps d q] by blast

lemma delete_stale_gone:
  "deletes_work os \<Longrightarrow> p \<in> set ps \<Longrightarrow> p \<noteq> [] \<Longrightarrow> \<not> path_exists (delete_stale os ps d) p"
proof (induction ps arbitrary: d)
  case (Cons q ps)
  show ?case
  proof (cases "p \<in> set ps")
    case False
    let ?d1 = "if path_exists d q then snd (delete_path os q d) else d"
    have "\<not> path_exists ?d1 p" using Cons.prems False delete_path_gone by auto
    then show ?thesis using delete_stale_exists[of os ps ?d1 p] by auto
  qed (use Cons in auto)
qed simp

definition manifest_codec_ok :: "manifest_codec \<Rightarrow> bool" where
  "manifest_codec_ok M \<longleftrightarrow>
     (\<forall>ps. list_all (\<lambda>p. utf8_valid (map of_char p)) ps \<longrightarrow>
        (\<exists>body. mc_to_vec M ps = Some body \<and> mc_from_slice M body = Some ps))"

lemma utf8_valid_append: "utf8_valid a \<Longrightarrow> utf8_valid b \<Longrightarrow> utf8_valid (a @ b)"
proof (induction a rule: utf8_valid.induct)
  case (2 b1 bs)
  consider "b1 < 0x80" | "0xC2 \<le> b1 \<and> b1 \<le> 0xDF" | "0xE0 \<le> b1 \<and> b1 \<le> 0xEF" | "0xF0 \<le> b1 \<and> b1 \<le> 0xF4"
    using 2(5) by (simp only: utf8_valid.simps split: if_splits)
  then show ?case
  proof cases
    case 1
    then show ?thesis using 2 by simp
  next
    case c: 2
    then obtain b2 r where "bs = b2 # r" "utf8_cont b2 \<and> utf8_valid r" using 2(5) by (cases bs) auto
    then show ?thesis using c 2(2,6) by simp
  next
    case c: 3
    then obtain b2 b3 r where "bs = b2 # b3 # r" using 2(5) by (auto split: list.splits)
    then show ?thesis using c 2(3,5,6) by simp
  next
    case c: 4
    then obtain b2 b3 b4 r where "bs = b2 # b3 # b4 # r" using 2(5) by (auto split: list.splits)
    then show ?thesis using c 2(4,5,6) by simp
  qed
qed simp

lemma utf8_valid_join:
  "list_all (\<lambda>p. utf8_valid (map of_char p)) ps \<Longrightarrow> utf8_valid (map of_char (join ''/'' ps))"
  by (induction "''/''" ps rule: join.induct) (auto intro!: utf8_valid_append)

lemma utf8_valid_path_string: "list_all name_ok p \<Longrightarrow> utf8_valid (map of_char (path_string p))"
  using utf8_valid_join[of p] by (auto simp: path_string_def name_ok_def list_all_iff)

lemma name_ok_segment: "list_all name_ok p \<Longrightarrow> list_all segment_name p"
  by (auto simp: list_all_iff name_ok_def)

text \<open>The directory of a sub-agent is there and its manifest lists what is declared.\<close>

definition base_ready :: "rendered_filesystem \<Rightarrow> disk \<Rightarrow> bool" where
  "base_ready fs d \<longleftrightarrow> (\<forall>q. under q (rf_base_dir fs) \<longrightarrow> is_dir d q \<and> file_at d q = None) \<and> \<not> is_dir d (manifest_path fs)"

definition tracks :: "manifest_codec \<Rightarrow> rendered_filesystem \<Rightarrow> disk \<Rightarrow> bool" where
  "tracks M fs d \<longleftrightarrow> base_ready fs d \<and> set (read_manifest no_faults M fs d) = set (collect_declared_paths fs)"

lemma declared_strictly_below:
  assumes "filesystem_ok fs" and "x \<in> set (collect_declared_paths fs)"
  shows "under (rf_base_dir fs) x" "\<not> under x (rf_base_dir fs)" "\<not> under (manifest_path fs) x" "\<not> under x (manifest_path fs)" "x \<noteq> []"
proof -
  obtain k where "key_ok k" "under (rf_base_dir fs @ k) x" using declared_below_key[OF assms] by blast
  then obtain n y where "n \<noteq> MANAGED_PATHS_MANIFEST_FILENAME" "x = rf_base_dir fs @ n # y"
    using key_okE[of k] by (auto simp: under_iff)
  then show "under (rf_base_dir fs) x" "\<not> under x (rf_base_dir fs)" "\<not> under (manifest_path fs) x" "\<not> under x (manifest_path fs)" "x \<noteq> []"
    by (auto simp: under_iff manifest_path_def)
qed

lemma base_ready_stale:
  assumes "filesystem_ok fs" and "base_ready fs' d" and "rf_base_dir fs' = rf_base_dir fs" and "set ps \<subseteq> set (collect_declared_paths fs)"
  shows "base_ready fs' (delete_stale os ps d)"
proof -
  have apart: "\<forall>p \<in> set ps. \<not> under p q" if "under q (rf_base_dir fs) \<or> q = manifest_path fs" for q
    using that assms(4) declared_strictly_below(2,4)[OF assms(1)] under_trans by blast
  have man: "manifest_path fs' = manifest_path fs" using assms(3) by (simp add: manifest_path_def)
  show ?thesis
    using assms(2) delete_stale_frame[OF apart] unfolding base_ready_def assms(3) man by metis
qed

lemma base_ready_writes:
  assumes "filesystem_ok fs" and "base_ready fs d" and "writes_only (set (collect_declared_paths fs)) d d'"
  shows "base_ready fs d'"
proof -
  have "q \<notin> set (collect_declared_paths fs)" if "under q (rf_base_dir fs)" for q
    using that declared_strictly_below(2)[OF assms(1)] by blast
  moreover have "\<not> is_dir d' (manifest_path fs)"
    using assms(2,3) declared_strictly_below(3)[OF assms(1)] unfolding writes_only_def base_ready_def by blast
  ultimately show ?thesis using assms(2,3) unfolding writes_only_def base_ready_def by simp
qed

lemma filesystem_okD:
  assumes "filesystem_ok fs"
  shows "entries_below fs" "keys_ok (relative_entries fs)" "children_ok (relative_entries fs)" "list_all name_ok (rf_base_dir fs)"
  using assms by (simp_all add: filesystem_ok_def)

lemma parent_nonempty: "p \<noteq> [] \<Longrightarrow> parent p = Some (butlast p)"
  by (cases p) simp_all

lemma declared_name_ok:
  assumes "filesystem_ok fs" and "p \<in> set (collect_declared_paths fs)"
  shows "list_all name_ok p"
  using declared_names(2)[of p "rf_base_dir fs" "relative_entries fs"] filesystem_okD[OF assms(1)]
    entries_relative(2)[of fs] assms(2) by simp

text \<open>What is read from a manifest that was written.\<close>

lemma manifest_body:
  assumes "filesystem_ok fs" and "manifest_codec_ok M"
  shows "\<exists>body. mc_to_vec M (map path_string (sort (collect_declared_paths fs))) = Some body \<and>
    (\<forall>d. file_at d (manifest_path fs) = Some body \<longrightarrow>
       set (read_manifest no_faults M fs d) = set (collect_declared_paths fs))"
proof -
  let ?ps = "sort (collect_declared_paths fs)" and ?b = "rf_base_dir fs"
  have names: "list_all name_ok p" if "p \<in> set ?ps" for p using that declared_name_ok[OF assms(1)] by simp
  have "list_all (\<lambda>p. utf8_valid (map of_char p)) (map path_string ?ps)"
    using names utf8_valid_path_string by (auto simp: list_all_iff)
  then obtain body where body: "mc_to_vec M (map path_string ?ps) = Some body" "mc_from_slice M body = Some (map path_string ?ps)"
    using assms(2) unfolding manifest_codec_ok_def by blast
  have "set (read_manifest no_faults M fs d) = set ?ps" if at: "file_at d (manifest_path fs) = Some body" for d
  proof -
    have load: "manifest_load no_faults M (manifest_path fs) d = map path_string ?ps"
      by (simp add: manifest_load_def std_read_def at body no_faults_def)
    have "path_of (path_string p) = p \<and> p \<noteq> manifest_path fs \<and> is_within_base (path_string p) ?b" if "p \<in> set ?ps" for p
    proof -
      note seg = name_ok_segment[OF names[OF that]]
      have "p \<in> set (collect_declared_paths fs)" using that by simp
      then show ?thesis
        using path_of_string[OF seg] path_components_string[OF seg] declared_strictly_below(1)[OF assms(1)] manifest_not_declared[OF assms(1)]
        by (auto simp: is_within_base_def)
    qed
    then show ?thesis unfolding read_manifest_def load by (auto simp: image_iff)
  qed
  then show ?thesis using body(1) by auto
qed

lemma manifest_saved:
  assumes "filesystem_ok fs" and "manifest_codec_ok M" and "base_ready fs d" and "manifest_saves os fs"
    and "manifest_save os M (sort (collect_declared_paths fs)) (manifest_path fs) d = (r, d')"
  shows "tracks M fs d'"
proof -
  let ?ps = "sort (collect_declared_paths fs)" and ?b = "rf_base_dir fs"
  obtain body where body: "mc_to_vec M (map path_string ?ps) = Some body"
    "\<And>d. file_at d (manifest_path fs) = Some body \<Longrightarrow> set (read_manifest no_faults M fs d) = set (collect_declared_paths fs)"
    using manifest_body[OF assms(1,2)] by blast
  have par: "parent (manifest_path fs) = Some ?b" by (simp add: parent_nonempty manifest_path_def)
  obtain d1 where d1: "std_create_dir_all os ?b d = (Inr (), d1)"
  proof -
    have "file_at d (take n ?b) = None" for n
      using assms(3) unfolding base_ready_def under_iff by (metis append_take_drop_id)
    then show thesis
      using that assms(4) by (simp add: std_create_dir_all_def manifest_saves_def list_ex_iff is_file_def Let_def del: upt_Suc)
  qed
  have ready: "base_ready fs d1"
  proof -
    have "\<not> under (manifest_path fs) ?b" by (simp add: under_iff manifest_path_def)
    then have "\<not> is_dir d1 (manifest_path fs)" using assms(3) std_create_dir_all_frame(3)[OF d1] unfolding base_ready_def by blast
    then show ?thesis using assms(3) std_create_dir_all_frame(1,2)[OF d1] unfolding base_ready_def by simp
  qed
  have "is_dir d1 ?b" using ready by (simp add: base_ready_def)
  then have d': "d' = put_file (manifest_path fs) body d1"
    using assms(4,5) par d1 body(1) ready
    by (simp add: manifest_save_def sbind_def slift_def std_write_def manifest_saves_def base_ready_def)
      (simp add: manifest_path_def)
  then have "set (read_manifest no_faults M fs d') = set (collect_declared_paths fs)" using body(2) by simp
  moreover have "base_ready fs d'"
    using ready unfolding d' base_ready_def manifest_path_def by (auto simp: under_iff)
  ultimately show ?thesis by (simp add: tracks_def)
qed

text \<open>C22. From one version of an agent to the next: if the manifest lists what the old version declared and writing
  the new version returns without an error, then every file it declares has its content. The errors that the
  code only logs do not make it fail, so the rest depends on them: if the manifest could be read and nothing
  failed to be deleted, every path that only the old version declared is gone; if saving the manifest met no
  error of the operating system, it lists what the new version declares.\<close>

theorem update_reconciles:
  assumes "filesystem_ok old" and "filesystem_ok new" and "rf_base_dir new = rf_base_dir old" and "manifest_codec_ok M"
    and "tracks M old d" and "filesystem_write os M new d = (Inr (), d')"
  shows "list_all (\<lambda>(p, content). file_at d' p = Some content) (filesystem_files new) \<and>
    (os_read os d (manifest_path new) = None \<longrightarrow> deletes_work os \<longrightarrow>
       list_all (\<lambda>p. p \<in> set (collect_declared_paths new) \<or> \<not> path_exists d' p) (collect_declared_paths old)) \<and>
    (manifest_saves os new \<longrightarrow> tracks M new d')"
proof -
  let ?stale = "stale_paths os M new d" and ?new = "set (collect_declared_paths new)" and ?b = "rf_base_dir new"
  let ?d0 = "delete_stale os ?stale d"
  obtain d1 r2 where run: "entries_write os (rf_entries new) ?d0 = (Inr (), d1)"
    "manifest_save os M (sort (collect_declared_paths new)) (manifest_path new) d1 = (r2, d')"
    by (rule filesystem_write_Inr[OF assms(6)])
  have man: "manifest_path new = manifest_path old" using assms(3) by (simp add: manifest_path_def)
  have listed: "set (read_manifest no_faults M new d) = set (collect_declared_paths old)"
    using assms(5) read_manifest_cong[OF assms(3), of d d M] by (simp add: tracks_def)
  have stale: "set ?stale \<subseteq> set (collect_declared_paths old)"
    using read_manifest_subset[of os M new d] listed unfolding set_stale by blast
  have "base_ready new d" using assms(5) unfolding tracks_def base_ready_def assms(3) man by simp
  then have "base_ready new ?d0" using base_ready_stale[OF assms(1) _ assms(3)] stale by blast
  moreover have w: "writes_only ?new ?d0 d1" using writesD[OF writes_entries run(1)] by (simp add: set_declared)
  ultimately have "base_ready new d1" using base_ready_writes[OF assms(2)] by blast
  then have "manifest_saves os new \<longrightarrow> tracks M new d'" using manifest_saved[OF assms(2,4) _ _ run(2)] by blast
  moreover have "\<not> path_exists d' p" if p: "p \<in> set (collect_declared_paths old)" "p \<notin> ?new"
    and works: "os_read os d (manifest_path new) = None" "deletes_work os" for p
  proof -
    note below = declared_strictly_below[OF assms(1) p(1)]
    have "p \<in> set ?stale" using read_manifest_readable[of os d new M, OF works(1)] listed p unfolding set_stale by simp
    then have "\<not> path_exists ?d0 p" using delete_stale_gone[OF works(2)] below(5) by blast
    moreover have "writes_only (insert (manifest_path new) ?new) ?d0 d'" by (rule filesystem_write_cases[OF assms(6)])
    moreover have "p \<noteq> manifest_path new" using manifest_not_declared[OF assms(1)] p(1) man by auto
    moreover have "\<not> under p x" if "x \<in> insert (manifest_path new) ?new" for x
    proof
      assume px: "under p x"
      have "x \<in> ?new" using that px below(4) man by auto
      moreover have "under ?b p" "p \<noteq> ?b" using below(1,2) assms(3) by auto
      ultimately have "p \<in> ?new"
        using declared_closed(2)[of x ?b "relative_entries new" p] filesystem_okD[OF assms(2)] entries_relative(2)[of new] px by simp
      with p(2) show False by simp
    qed
    ultimately show ?thesis using p(2) unfolding writes_only_def path_exists_def is_file_def by (metis insert_iff)
  qed
  moreover have "list_all (\<lambda>(p, content). file_at d' p = Some content) (filesystem_files new)"
    using filesystem_write_files[OF assms(2,6)] by (auto simp: list_all_iff)
  ultimately show ?thesis by (auto simp: list_all_iff)
qed

section \<open>A write that fails\<close>

lemma failed_write_keeps_manifest:
  assumes "filesystem_ok old" and "filesystem_ok fs" and "rf_base_dir fs = rf_base_dir old" and "tracks M old d"
    and "filesystem_write os M fs d = (Inl e, d')"
  shows "file_at d' (manifest_path fs) = file_at d (manifest_path fs)"
proof -
  let ?d0 = "delete_stale os (stale_paths os M fs d) d"
  have man: "manifest_path fs = manifest_path old" using assms(3) by (simp add: manifest_path_def)
  have "set (stale_paths os M fs d) \<subseteq> set (collect_declared_paths old)"
    using read_manifest_subset[of os M fs d] read_manifest_cong[OF assms(3), of d d M] assms(4)
    unfolding set_stale tracks_def by auto
  then have "\<forall>p \<in> set (stale_paths os M fs d). \<not> under p (manifest_path fs)"
    using declared_strictly_below(4)[OF assms(1)] unfolding man by blast
  note d0 = delete_stale_frame[OF this, of os d]
  have "entries_write os (rf_entries fs) ?d0 = (Inl e, d')"
    using assms(5) by (auto simp: filesystem_write_def result_simps)
  then have "writes_only (set (collect_declared_paths fs)) ?d0 d'"
    using writesD[OF writes_entries] by (simp add: set_declared)
  then show ?thesis using d0 manifest_not_declared[OF assms(2)] unfolding writes_only_def by simp
qed

text \<open>No path in the manifest is \<open>p\<close> or above it.\<close>

definition not_listed :: "manifest_codec \<Rightarrow> rendered_filesystem \<Rightarrow> path \<Rightarrow> disk \<Rightarrow> bool" where
  "not_listed M fs p d \<longleftrightarrow> (\<forall>q \<in> set (read_manifest no_faults M fs d). \<not> under q p)"

lemma manifest_save_content:
  assumes "manifest_save os M ps (manifest_path fs) d = (r, d')" and "\<And>d. os_write os d (manifest_path fs) = None"
  shows "file_at d' (manifest_path fs) = file_at d (manifest_path fs) \<or>
    mc_to_vec M (map path_string ps) = file_at d' (manifest_path fs)"
proof -
  let ?m = "manifest_path fs"
  have par: "parent ?m = Some (rf_base_dir fs)" by (simp add: parent_nonempty manifest_path_def)
  obtain r1 d1 where d1: "std_create_dir_all os (rf_base_dir fs) d = (r1, d1)" by fastforce
  note same = std_create_dir_all_frame(1)[OF d1, of ?m]
  show ?thesis
  proof (cases r1)
    case (Inl e)
    then show ?thesis using assms(1) par d1 same by (simp add: manifest_save_def sbind_def)
  next
    case (Inr u)
    show ?thesis
    proof (cases "mc_to_vec M (map path_string ps)")
      case None
      then show ?thesis using assms(1) par d1 same Inr by (simp add: manifest_save_def sbind_def slift_def)
    next
      case (Some body)
      then have "std_write os ?m body d1 = (r, d')"
        using assms(1) par d1 Inr by (simp add: manifest_save_def sbind_def slift_def)
      then have "d' = d1 \<or> d' = put_file ?m body d1"
        using assms(2) by (auto simp: std_write_def split: option.splits if_splits)
      then show ?thesis using same Some by auto
    qed
  qed
qed

lemma write_keeps_unlisted:
  assumes "filesystem_ok fs" and "manifest_codec_ok M" and "filesystem_write os M fs d = (r, d')"
    and "\<And>d. os_write os d (manifest_path fs) = None" and "p \<noteq> manifest_path fs" and "not_listed M fs p d"
    and "list_all (\<lambda>q. \<not> under q p) (collect_declared_paths fs)"
  shows "file_at d' p = file_at d p \<and> not_listed M fs p d'"
proof
  let ?m = "manifest_path fs" and ?d0 = "delete_stale os (stale_paths os M fs d) d"
  have "p \<notin> set (collect_declared_paths fs)" using assms(7) by (auto simp: list_all_iff)
  moreover have "\<forall>q \<in> set (read_manifest os M fs d). \<not> under q p"
    using read_manifest_subset[of os M fs d] assms(6) by (auto simp: not_listed_def)
  ultimately show "file_at d' p = file_at d p" using filesystem_write_frame[OF assms(3)] assms(5) by blast
  obtain r1 d1 where e: "entries_write os (rf_entries fs) ?d0 = (r1, d1)" by fastforce
  have d1: "file_at d1 ?m = file_at ?d0 ?m"
    using writesD[OF writes_entries e] manifest_not_declared[OF assms(1)] by (simp add: writes_only_def set_declared)
  have d0: "file_at ?d0 ?m = None \<or> file_at ?d0 ?m = file_at d ?m"
    using delete_stale_only_removes(2)[of os "stale_paths os M fs d" d ?m] by (cases "file_at ?d0 ?m") simp_all
  have d': "file_at d' ?m = file_at d1 ?m \<or>
      mc_to_vec M (map path_string (sort (collect_declared_paths fs))) = file_at d' ?m"
  proof (cases r1)
    case (Inl err)
    then show ?thesis using assms(3) e by (simp add: filesystem_write_def sbind_def)
  next
    case (Inr u)
    then have "d' = snd (manifest_save os M (sort (collect_declared_paths fs)) ?m d1)"
      using assms(3) e by (simp add: filesystem_write_def sbind_def)
    then show ?thesis using manifest_save_content[OF prod.collapse[symmetric] assms(4)] by metis
  qed
  obtain body where body: "mc_to_vec M (map path_string (sort (collect_declared_paths fs))) = Some body"
    "\<And>d. file_at d ?m = Some body \<Longrightarrow> set (read_manifest no_faults M fs d) = set (collect_declared_paths fs)"
    using manifest_body[OF assms(1,2)] by blast
  consider "file_at d' ?m = None" | "file_at d' ?m = file_at d ?m" | "file_at d' ?m = Some body"
    using d' d1 d0 body(1) by auto
  then show "not_listed M fs p d'"
  proof cases
    case 1
    then show ?thesis by (simp add: not_listed_def read_manifest_def manifest_load_def std_read_no_faults)
  next
    case 2
    then show ?thesis using assms(6) read_manifest_cong[of fs fs d' d M] by (simp add: not_listed_def)
  next
    case 3
    then show ?thesis using body(2) assms(7) by (simp add: not_listed_def list_all_iff)
  qed
qed

text \<open>C37. Files of a write that failed are forgotten: when writing a version fails halfway, the manifest still lists
  what the version before it declared. A file the failed version declared stays on disk through any later
  sequence of updates, successful or not, none of which declares the file or a directory above it, as the old
  version did not. (The one fault excluded is a manifest that is written in part. A version that does
  declare the file takes it over again.)\<close>

theorem failed_write_leaves_orphans:
  assumes "filesystem_ok old" and "filesystem_ok failed" and "rf_base_dir failed = rf_base_dir old"
    and "manifest_codec_ok M" and "tracks M old d" and "filesystem_write os M failed d = (Inl e, d1)"
    and "p \<in> set (collect_declared_paths failed)" and "list_all (\<lambda>q. \<not> under q p) (collect_declared_paths old)"
    and "\<forall>(os', fs) \<in> set later. filesystem_ok fs \<and> rf_base_dir fs = rf_base_dir old \<and>
      list_all (\<lambda>q. \<not> under q p) (collect_declared_paths fs) \<and> (\<forall>d. os_write os' d (manifest_path fs) = None)"
  shows "file_at (fold (\<lambda>(os', fs) d. snd (filesystem_write os' M fs d)) later d1) p = file_at d1 p"
proof -
  have man: "manifest_path fs = manifest_path old" if "rf_base_dir fs = rf_base_dir old" for fs
    using that by (simp add: manifest_path_def)
  have other: "p \<noteq> manifest_path old" using manifest_not_declared[OF assms(2)] assms(7) man[OF assms(3)] by auto
  have "file_at d1 (manifest_path old) = file_at d (manifest_path old)"
    using failed_write_keeps_manifest[OF assms(1-3,5,6)] man[OF assms(3)] by simp
  then have "read_manifest no_faults M old d1 = read_manifest no_faults M old d" by (intro read_manifest_cong) simp_all
  then have "not_listed M old p d1" using assms(5,8) by (simp add: not_listed_def tracks_def list_all_iff)
  then show ?thesis using assms(9)
  proof (induction later arbitrary: d1)
    case (Cons x later)
    obtain os' fs where x: "x = (os', fs)" by (cases x)
    have fs: "filesystem_ok fs" "rf_base_dir fs = rf_base_dir old"
        "list_all (\<lambda>q. \<not> under q p) (collect_declared_paths fs)" "\<And>d. os_write os' d (manifest_path fs) = None"
      using Cons.prems(2) x by auto
    have listed: "not_listed M fs p d = not_listed M old p d" for d
      using read_manifest_cong[OF fs(2), of d d M] by (simp add: not_listed_def)
    have "file_at (snd (filesystem_write os' M fs d1)) p = file_at d1 p \<and>
        not_listed M old p (snd (filesystem_write os' M fs d1))"
      using write_keeps_unlisted[OF fs(1) assms(4) prod.collapse[symmetric] fs(4) _ _ fs(3)] other man[OF fs(2)]
        Cons.prems(1) unfolding listed by simp
    with Cons.IH[of "snd (filesystem_write os' M fs d1)"] Cons.prems(2) x show ?case by simp
  qed simp
qed

section \<open>Ephemeral files\<close>

fun ephemeral_paths :: "path \<Rightarrow> rendered_entry \<Rightarrow> path list"
  and ephemeral_children :: "path \<Rightarrow> (path \<times> rendered_entry) list \<Rightarrow> path list" where
  "ephemeral_paths p (RenderedFile content persistent) = (if persistent then [] else [p])"
| "ephemeral_paths p (RenderedDir children persistent) = (if persistent then ephemeral_children p children else [p])"
| "ephemeral_paths p (RenderedDirContentFromMap files) = [p]"
| "ephemeral_children p [] = []"
| "ephemeral_children p ((sub, child) # children) = ephemeral_paths (p @ sub) child @ ephemeral_children p children"

text \<open>An action that deletes some paths and nothing else.\<close>

definition deletes :: "path set \<Rightarrow> (disk, 'e, unit) action \<Rightarrow> bool" where
  "deletes S m \<longleftrightarrow> (\<forall>d r d'. m d = (r, d') \<longrightarrow>
     (\<forall>q. path_exists d' q \<longrightarrow> path_exists d q) \<and>
     (\<forall>q. (\<forall>p \<in> S. \<not> under p q) \<longrightarrow> file_at d' q = file_at d q \<and> is_dir d' q = is_dir d q) \<and>
     (r = Inr () \<longrightarrow> (\<forall>p \<in> S. p \<noteq> [] \<longrightarrow> \<not> path_exists d' p)))"

lemma deletes_slift [simp]: "deletes {} (slift (Inr ()))"
  by (simp add: deletes_def slift_def)

lemma deletes_nothing: "deletes {} (\<lambda>d. (Inr (), d))"
  by (simp add: deletes_def)

lemma deletes_sbind:
  assumes "deletes S m" and "deletes T f"
  shows "deletes (S \<union> T) (sbind m (\<lambda>_. f))"
  unfolding deletes_def
proof (intro allI impI)
  fix d r d'
  assume run: "sbind m (\<lambda>_. f) d = (r, d')"
  obtain r1 d1 where m: "m d = (r1, d1)" by fastforce
  note S = assms(1)[unfolded deletes_def, rule_format, OF m]
  show "(\<forall>q. path_exists d' q \<longrightarrow> path_exists d q) \<and>
     (\<forall>q. (\<forall>p \<in> S \<union> T. \<not> under p q) \<longrightarrow> file_at d' q = file_at d q \<and> is_dir d' q = is_dir d q) \<and>
     (r = Inr () \<longrightarrow> (\<forall>p \<in> S \<union> T. p \<noteq> [] \<longrightarrow> \<not> path_exists d' p))"
  proof (cases r1)
    case (Inl e)
    then show ?thesis using run m S by (auto simp: sbind_def)
  next
    case (Inr u)
    then have "f d1 = (r, d')" using run m by (simp add: sbind_def)
    note T = assms(2)[unfolded deletes_def, rule_format, OF this]
    show ?thesis using S T Inr by auto
  qed
qed

lemma deletes_path: "deletes {p} (\<lambda>d. if path_exists d p then delete_path os p d else (Inr (), d))"
proof -
  have "(path_exists d' q \<longrightarrow> path_exists d q) \<and> (\<not> under p q \<longrightarrow> file_at d' q = file_at d q \<and> is_dir d' q = is_dir d q) \<and>
    (r = Inr () \<longrightarrow> p \<noteq> [] \<longrightarrow> \<not> path_exists d' p)" if run: "delete_path os p d = (r, d')" for d r d' q
  proof (intro conjI impI)
    show "path_exists d' q \<Longrightarrow> path_exists d q"
      using delete_path_only_removes[OF run, of q] by (auto simp: path_exists_def is_file_def)
    show "\<not> under p q \<Longrightarrow> file_at d' q = file_at d q" "\<not> under p q \<Longrightarrow> is_dir d' q = is_dir d q"
      using delete_path_frame[OF run] by blast+
    show "r = Inr () \<Longrightarrow> p \<noteq> [] \<Longrightarrow> \<not> path_exists d' p"
      using run by (auto simp: delete_path_def smap_err_def std_remove_dir_all_def remove_file_def path_exists_def is_file_def
          is_dir_remove_tree map_prod_def split: option.splits prod.splits if_splits)
  qed
  then show ?thesis unfolding deletes_def by (auto split: if_splits)
qed

lemma deletes_entry:
  "deletes (set (ephemeral_paths p e)) (entry_delete_ephemeral os p e)"
  "deletes (set (ephemeral_children p ch)) (children_delete_ephemeral os p ch)"
proof (induction p e and p ch rule: ephemeral_paths_ephemeral_children.induct)
  case (1 p content persistent)
  show ?case using deletes_path[of p os] deletes_nothing by (cases persistent) simp_all
next
  case (2 p children persistent)
  then show ?case using deletes_path[of p os] by (cases persistent) simp_all
next
  case (3 p files)
  show ?case using deletes_path[of p os] by simp
next
  case (5 p sub child children)
  show ?case unfolding children_delete_ephemeral.simps ephemeral_children.simps set_append by (rule deletes_sbind[OF 5])
qed simp_all

definition filesystem_ephemeral :: "rendered_filesystem \<Rightarrow> path list" where
  "filesystem_ephemeral fs = concat (map (\<lambda>(p, e). ephemeral_paths p e) (rf_entries fs))"

lemma deletes_ephemeral: "deletes (set (filesystem_ephemeral fs)) (filesystem_delete_ephemeral os fs)"
proof -
  have "deletes (set (concat (map (\<lambda>(p, e). ephemeral_paths p e) es))) (entries_delete_ephemeral os es)" for es
  proof (induction es)
    case (Cons pe es)
    obtain p e where "pe = (p, e)" by fastforce
    then show ?case using deletes_sbind[OF deletes_entry(1) Cons.IH] by simp
  qed simp
  then show ?thesis by (simp only: filesystem_ephemeral_def filesystem_delete_ephemeral_def)
qed

text \<open>C23. When a sub-agent stops, its ephemeral files are deleted and its persistent ones are kept: after the deletion
  succeeded no ephemeral path exists, and whatever is not below an ephemeral path is as it was, even if the
  deletion failed.\<close>

theorem ephemeral_deleted:
  assumes "filesystem_delete_ephemeral os fs d = (r, d')"
  shows "(r = Inr () \<longrightarrow> list_all (\<lambda>p. p = [] \<or> \<not> path_exists d' p) (filesystem_ephemeral fs)) \<and>
    (\<forall>q. list_all (\<lambda>p. \<not> under p q) (filesystem_ephemeral fs) \<longrightarrow> file_at d' q = file_at d q \<and> is_dir d' q = is_dir d q)"
  using deletes_ephemeral[unfolded deletes_def, rule_format, OF assms] unfolding list_all_iff by blast

section \<open>Examples\<close>

definition sample_fs :: "(string \<times> string) list \<Rightarrow> rendered_filesystem" where
  "sample_fs files = \<lparr>rf_base_dir = [''agent''],
     rf_entries = map (\<lambda>(name, content). ([''agent'', name], RenderedFile content False)) files\<rparr>"

fun sample_decode :: "string \<Rightarrow> string \<Rightarrow> string list" where
  "sample_decode acc [] = []"
| "sample_decode acc [x] = (if x = CHR ''.'' then [acc] else [])"
| "sample_decode acc (x # c # s) = (if x = CHR ''.'' then acc # sample_decode [] (c # s) else sample_decode (acc @ [c]) s)"

definition sample_encode :: "string list \<Rightarrow> string" where
  "sample_encode ps = concat (map (\<lambda>p. concat (map (\<lambda>c. [CHR ''_'', c]) p) @ ''.'') ps)"

definition sample_manifest_codec :: manifest_codec where
  "sample_manifest_codec = \<lparr>mc_from_slice = \<lambda>s. Some (sample_decode [] s), mc_to_vec = \<lambda>ps. Some (sample_encode ps)\<rparr>"

lemma sample_decode_one:
  "sample_decode acc (concat (map (\<lambda>c. [CHR ''_'', c]) p) @ CHR ''.'' # r) = (acc @ p) # sample_decode [] r"
  by (induction p arbitrary: acc) (cases r; simp)+

lemma sample_manifest_codec_ok: "manifest_codec_ok sample_manifest_codec"
proof -
  have "sample_decode [] (sample_encode ps) = ps" for ps
    by (induction ps) (simp_all add: sample_encode_def sample_decode_one)
  then show ?thesis by (simp add: manifest_codec_ok_def sample_manifest_codec_def)
qed

definition sample_fs_disk :: "string list \<Rightarrow> disk" where
  "sample_fs_disk managed = \<lparr>dk_files = [([''etc'', ''passwd''], ''root''),
     ([''agent'', MANAGED_PATHS_MANIFEST_FILENAME], sample_encode managed)], dk_dirs = [[''etc''], [''agent'']]\<rparr>"

theorem filesystem_write_confined_witness:
  "file_at (snd (filesystem_write no_faults sample_manifest_codec (sample_fs [(''a'', ''1'')]) (sample_fs_disk [''/etc/passwd''])))
     [''etc'', ''passwd''] = Some ''root''"
proof -
  let ?r = "filesystem_write no_faults sample_manifest_codec (sample_fs [(''a'', ''1'')]) (sample_fs_disk [''/etc/passwd''])"
  have below: "entries_below (sample_fs [(''a'', ''1'')])" by code_simp
  have out: "\<not> under (rf_base_dir (sample_fs [(''a'', ''1'')])) [''etc'', ''passwd'']" by code_simp
  have "file_at (sample_fs_disk [''/etc/passwd'']) [''etc'', ''passwd''] = Some ''root''" by code_simp
  with filesystem_write_confined[OF below, of no_faults sample_manifest_codec _ "fst ?r" "snd ?r", OF _ out] show ?thesis by simp
qed

lemma sample_tracks: "tracks sample_manifest_codec (sample_fs [(''a'', ''1'')]) (sample_fs_disk [''/agent/a''])"
proof -
  have "q = [] \<or> q = [''agent'']" if "under q [''agent'']" for q
    using that by (cases q) (auto simp: under_def)
  then have "base_ready (sample_fs [(''a'', ''1'')]) (sample_fs_disk [''/agent/a''])"
    by (auto simp: base_ready_def sample_fs_def sample_fs_disk_def is_dir_def file_at_def manifest_path_def)
  moreover have "read_manifest no_faults sample_manifest_codec (sample_fs [(''a'', ''1'')]) (sample_fs_disk [''/agent/a'']) =
    collect_declared_paths (sample_fs [(''a'', ''1'')])" by code_simp
  ultimately show ?thesis by (simp add: tracks_def)
qed

theorem update_reconciles_witness:
  "let d' = snd (filesystem_write no_faults sample_manifest_codec (sample_fs [(''b'', ''2'')]) (sample_fs_disk [''/agent/a'']))
   in file_at d' [''agent'', ''b''] = Some ''2'' \<and> \<not> path_exists d' [''agent'', ''a'']"
proof -
  let ?r = "filesystem_write no_faults sample_manifest_codec (sample_fs [(''b'', ''2'')]) (sample_fs_disk [''/agent/a''])"
  have ok: "filesystem_ok (sample_fs [(''a'', ''1'')])" "filesystem_ok (sample_fs [(''b'', ''2'')])"
    "rf_base_dir (sample_fs [(''b'', ''2'')]) = rf_base_dir (sample_fs [(''a'', ''1'')])" by code_simp+
  have "fst ?r = Inr ()" by code_simp
  then have r: "?r = (Inr (), snd ?r)" by (metis prod.collapse)
  have f: "filesystem_files (sample_fs [(''b'', ''2'')]) = [([''agent'', ''b''], ''2'')]"
    "collect_declared_paths (sample_fs [(''a'', ''1'')]) = [[''agent'', ''a'']]"
    "[''agent'', ''a''] \<notin> set (collect_declared_paths (sample_fs [(''b'', ''2'')]))" by code_simp+
  have "os_read no_faults d q = None" "deletes_work no_faults" for d q by (simp_all add: no_faults_def deletes_work_def)
  then show ?thesis
    using update_reconciles[OF ok sample_manifest_codec_ok sample_tracks r] f by (simp add: Let_def)
qed

text \<open>A disk where the second file cannot be written.\<close>

definition full_disk :: os_faults where
  "full_disk = no_faults\<lparr>os_write := \<lambda>_ p. if last p = ''c'' then Some (0, io_other ''no space left on device'') else None\<rparr>"

theorem failed_write_leaves_orphans_witness:
  "let (r, d1) = filesystem_write full_disk sample_manifest_codec (sample_fs [(''b'', ''2''), (''c'', ''3'')]) (sample_fs_disk [''/agent/a''])
   in r \<noteq> Inr () \<and>
      file_at (fold (\<lambda>(os, fs) d. snd (filesystem_write os sample_manifest_codec fs d))
        [(no_faults, sample_fs [(''a'', ''1'')]), (no_faults, sample_fs [])] d1) [''agent'', ''b''] = Some ''2''"
proof -
  let ?fs = "sample_fs [(''b'', ''2''), (''c'', ''3'')]" and ?old = "sample_fs [(''a'', ''1'')]"
  let ?later = "[(no_faults, sample_fs [(''a'', ''1'')]), (no_faults, sample_fs [])]"
  let ?r = "filesystem_write full_disk sample_manifest_codec ?fs (sample_fs_disk [''/agent/a''])"
  have ok: "filesystem_ok ?old" "filesystem_ok ?fs" "rf_base_dir ?fs = rf_base_dir ?old"
    by code_simp+
  have fail: "fst ?r = Inl (CreatingFile [''agent'', ''c''] (io_other ''no space left on device''))" by code_simp
  then have r: "?r = (Inl (CreatingFile [''agent'', ''c''] (io_other ''no space left on device'')), snd ?r)" by (metis prod.collapse)
  have p: "[''agent'', ''b''] \<in> set (collect_declared_paths ?fs)"
    "list_all (\<lambda>q. \<not> under q [''agent'', ''b'']) (collect_declared_paths ?old)" by code_simp+
  have "filesystem_ok (sample_fs [])" "rf_base_dir (sample_fs []) = rf_base_dir ?old"
    "list_all (\<lambda>q. \<not> under q [''agent'', ''b'']) (collect_declared_paths (sample_fs []))" by code_simp+
  moreover have "os_write no_faults d q = None" for d q by (simp add: no_faults_def)
  ultimately have later: "\<forall>(os, fs) \<in> set ?later. filesystem_ok fs \<and> rf_base_dir fs = rf_base_dir ?old \<and>
      list_all (\<lambda>q. \<not> under q [''agent'', ''b'']) (collect_declared_paths fs) \<and>
      (\<forall>d. os_write os d (manifest_path fs) = None)"
    using ok(1) p(2) by (simp only: list.set ball_simps prod.case simp_thms)
  have "file_at (snd ?r) [''agent'', ''b''] = Some ''2''" by code_simp
  with failed_write_leaves_orphans[OF ok sample_manifest_codec_ok sample_tracks r p later] fail show ?thesis
    by (simp add: case_prod_unfold)
qed

theorem ephemeral_deleted_witness:
  "\<not> path_exists (snd (filesystem_delete_ephemeral no_faults (sample_fs [(''a'', ''1'')])
      (put_file [''agent'', ''a''] ''1'' (sample_fs_disk [])))) [''agent'', ''a'']"
proof -
  let ?r = "filesystem_delete_ephemeral no_faults (sample_fs [(''a'', ''1'')]) (put_file [''agent'', ''a''] ''1'' (sample_fs_disk []))"
  have ok: "fst ?r = Inr ()" "filesystem_ephemeral (sample_fs [(''a'', ''1'')]) = [[''agent'', ''a'']]" by code_simp+
  have "?r = (fst ?r, snd ?r)" by simp
  from ephemeral_deleted[OF this] ok show ?thesis by simp
qed

end
