(* ===== verification/Runtime_Config.thy ===== *)
theory Runtime_Config
  imports Templates Oci_Package Host_Filesystem Backoff K8s_Health
begin

text \<open>
  The deployment of an agent type (\<open>agent_type/runtime_config\<close>) before and after its templates are
  rendered: executables with their restart policies, packages, health checks, files, and the objects of a
  Kubernetes deployment. A value given as a template is rendered as a string and then parsed.
\<close>

section \<open>Templateable values\<close>

record 'a templateable_value =
  tv_value :: "'a option"
  tv_template :: string

definition templateable_new :: "'a \<Rightarrow> 'a templateable_value" where
  "templateable_new v = \<lparr>tv_value = Some v, tv_template = []\<rparr>"

definition templateable_from :: "string \<Rightarrow> 'a templateable_value" where
  "templateable_from s = \<lparr>tv_value = None, tv_template = s\<rparr>"

definition templateable_default :: "'a templateable_value" where
  "templateable_default = \<lparr>tv_value = None, tv_template = []\<rparr>"

definition template_value ::
  "serde_libs \<Rightarrow> variables \<Rightarrow> 'a \<Rightarrow> (string \<Rightarrow> 'a option) \<Rightarrow> 'a templateable_value \<Rightarrow> agent_type_error + 'a" where
  "template_value L vars default_value parse_value v =
     rbind (template_string L vars (tv_template v)) (\<lambda>s.
       if s = [] then Inr default_value
       else ok_or (ValueNotParseableFromString s) (parse_value s))"

definition parse_bool :: "string \<Rightarrow> bool option" where
  "parse_bool s = (if s = ''true'' then Some True else if s = ''false'' then Some False else None)"

definition parse_usize :: "string \<Rightarrow> 64 word option" where
  "parse_usize s = map_option of_nat (parse_uint 64 s)"

definition parse_u16 :: "string \<Rightarrow> 16 word option" where
  "parse_u16 s = map_option of_nat (parse_uint 16 s)"

text \<open>The libraries that read durations, URLs and the YAML of a map.\<close>

record runtime_libs =
  rl_serde :: serde_libs
  rl_duration :: "string \<Rightarrow> duration option"
  rl_url :: "string \<Rightarrow> string + string"
  rl_yaml_map :: "string \<Rightarrow> string + (string \<times> json) list"
  rl_yaml_value :: "json \<Rightarrow> string + string"

abbreviation template_text :: "runtime_libs \<Rightarrow> variables \<Rightarrow> string templateable_value \<Rightarrow> agent_type_error + string" where
  "template_text R vars v \<equiv> template_value (rl_serde R) vars [] Some v"

abbreviation template_bool :: "runtime_libs \<Rightarrow> variables \<Rightarrow> bool templateable_value \<Rightarrow> agent_type_error + bool" where
  "template_bool R vars v \<equiv> template_value (rl_serde R) vars False parse_bool v"

section \<open>Restart policies\<close>

definition DEFAULT_BACKOFF_DELAY :: duration where
  "DEFAULT_BACKOFF_DELAY = from_secs 2"

definition DEFAULT_BACKOFF_MAX_RETRIES :: "64 word" where
  "DEFAULT_BACKOFF_MAX_RETRIES = 0"

definition DEFAULT_BACKOFF_LAST_RETRY_INTERVAL :: duration where
  "DEFAULT_BACKOFF_LAST_RETRY_INTERVAL = from_secs 600"

record backoff_strategy_definition =
  bsd_backoff_type :: "backoff_strategy_type templateable_value"
  bsd_backoff_delay :: "duration templateable_value"
  bsd_max_retries :: "64 word templateable_value"
  bsd_last_retry_interval :: "duration templateable_value"

definition backoff_strategy_definition_default :: backoff_strategy_definition where
  "backoff_strategy_definition_default =
     \<lparr>bsd_backoff_type = templateable_new BackoffLinear,
      bsd_backoff_delay = templateable_new DEFAULT_BACKOFF_DELAY,
      bsd_max_retries = templateable_new DEFAULT_BACKOFF_MAX_RETRIES,
      bsd_last_retry_interval = templateable_new DEFAULT_BACKOFF_LAST_RETRY_INTERVAL\<rparr>"

definition parse_backoff_type :: "string \<Rightarrow> backoff_strategy_type option" where
  "parse_backoff_type s = (case backoff_strategy_type_from_str s of Inl _ \<Rightarrow> None | Inr t \<Rightarrow> Some t)"

definition template_restart_policy ::
  "runtime_libs \<Rightarrow> variables \<Rightarrow> backoff_strategy_definition \<Rightarrow> agent_type_error + backoff_strategy_config" where
  "template_restart_policy R vars c =
     rbind (template_value (rl_serde R) vars BackoffFixed parse_backoff_type (bsd_backoff_type c)) (\<lambda>backoff_type.
     rbind (template_value (rl_serde R) vars DEFAULT_BACKOFF_DELAY (rl_duration R) (bsd_backoff_delay c)) (\<lambda>backoff_delay.
     rbind (template_value (rl_serde R) vars DEFAULT_BACKOFF_MAX_RETRIES parse_usize (bsd_max_retries c)) (\<lambda>max_retries.
     rbind (template_value (rl_serde R) vars DEFAULT_BACKOFF_LAST_RETRY_INTERVAL (rl_duration R) (bsd_last_retry_interval c)) (\<lambda>last_retry_interval.
     Inr \<lparr>bsc_backoff_type = backoff_type, bsc_backoff_delay = backoff_delay, bsc_max_retries = max_retries,
          bsc_last_retry_interval = last_retry_interval\<rparr>))))"

section \<open>Executables\<close>

type_synonym args_definition = "string templateable_value list"
type_synonym env_definition = "(string, string templateable_value) amap"

record executable_definition =
  ed_id :: string
  ed_path :: "string templateable_value"
  ed_args :: args_definition
  ed_env :: env_definition
  ed_restart_policy :: backoff_strategy_definition

record executable =
  ex_id :: string
  ex_path :: string
  ex_args :: "string list"
  ex_env :: "(string, string) amap"
  ex_restart_policy :: backoff_strategy_config

definition template_args :: "runtime_libs \<Rightarrow> variables \<Rightarrow> args_definition \<Rightarrow> agent_type_error + string list" where
  "template_args R vars args = try_map (template_text R vars) args"

text \<open>The values of a map, with their keys.\<close>

definition try_map_values :: "('a \<Rightarrow> 'e + 'b) \<Rightarrow> ('k \<times> 'a) list \<Rightarrow> 'e + ('k \<times> 'b) list" where
  "try_map_values f m = try_map (\<lambda>(k, v). map_ok (Pair k) (f v)) m"

definition template_env :: "runtime_libs \<Rightarrow> variables \<Rightarrow> env_definition \<Rightarrow> agent_type_error + (string, string) amap" where
  "template_env R vars env = try_map_values (template_text R vars) env"

definition template_executable ::
  "runtime_libs \<Rightarrow> variables \<Rightarrow> executable_definition \<Rightarrow> agent_type_error + executable" where
  "template_executable R vars e =
     rbind (template_string (rl_serde R) vars (ed_id e)) (\<lambda>id.
     rbind (template_text R vars (ed_path e)) (\<lambda>path.
     rbind (template_args R vars (ed_args e)) (\<lambda>args.
     rbind (template_env R vars (ed_env e)) (\<lambda>env.
     rbind (template_restart_policy R vars (ed_restart_policy e)) (\<lambda>restart_policy.
     Inr \<lparr>ex_id = id, ex_path = path, ex_args = args, ex_env = env, ex_restart_policy = restart_policy\<rparr>)))))"

fun duplicate_executable :: "string list \<Rightarrow> executable_definition list \<Rightarrow> string option" where
  "duplicate_executable ids [] = None"
| "duplicate_executable ids (e # es) = (if ed_id e \<in> set ids then Some (ed_id e) else duplicate_executable (ed_id e # ids) es)"

definition deserialize_executables :: "executable_definition list \<Rightarrow> string + executable_definition list" where
  "deserialize_executables es =
     (case duplicate_executable [] es of
        Some duplicate \<Rightarrow> Inl (''Duplicate executable ID found: '' @ duplicate)
      | None \<Rightarrow> Inr es)"

section \<open>Packages\<close>

record oci_definition =
  od_repository :: "string templateable_value"
  od_version :: "string templateable_value"
  od_public_key_url :: "string templateable_value option"

record hook_definition =
  hd_path :: "string templateable_value"
  hd_args :: args_definition
  hd_env :: env_definition

record package_definition =
  pkd_oci :: oci_definition
  pkd_post_download_hook :: "hook_definition option"

definition try_option :: "('a \<Rightarrow> 'e + 'b) \<Rightarrow> 'a option \<Rightarrow> 'e + 'b option" where
  "try_option f x = (case x of None \<Rightarrow> Inr None | Some y \<Rightarrow> map_ok Some (f y))"

definition template_oci :: "runtime_libs \<Rightarrow> variables \<Rightarrow> oci_definition \<Rightarrow> agent_type_error + oci" where
  "template_oci R vars c =
     rbind (template_text R vars (od_repository c)) (\<lambda>s.
     rbind (map_err (\<lambda>e. OCIReferenceParsingError (''invalid repository: '' @ e)) (repository_from_str s)) (\<lambda>repository.
     rbind (template_text R vars (od_version c)) (\<lambda>s.
     rbind (map_err (\<lambda>e. OCIReferenceParsingError (''invalid version: '' @ e)) (version_from_str s)) (\<lambda>version.
     rbind (try_option (template_text R vars) (od_public_key_url c)) (\<lambda>url.
     rbind (map_err (\<lambda>e. OCIReferenceParsingError (''invalid public_key_url: '' @ e)) (try_option (rl_url R) url)) (\<lambda>url.
     Inr \<lparr>oci_repository = repository, oci_version = version, oci_public_key_url = url\<rparr>))))))"

definition template_hook :: "runtime_libs \<Rightarrow> variables \<Rightarrow> hook_definition \<Rightarrow> agent_type_error + post_download_hook" where
  "template_hook R vars h =
     rbind (template_text R vars (hd_path h)) (\<lambda>path.
     rbind (template_args R vars (hd_args h)) (\<lambda>args.
     rbind (template_env R vars (hd_env h)) (\<lambda>env.
     Inr \<lparr>hook_path = path, hook_args = args, hook_env = env\<rparr>)))"

definition template_package :: "runtime_libs \<Rightarrow> variables \<Rightarrow> package_definition \<Rightarrow> agent_type_error + rendered_package" where
  "template_package R vars p =
     rbind (try_option (template_hook R vars) (pkd_post_download_hook p)) (\<lambda>hook.
     rbind (template_oci R vars (pkd_oci p)) (\<lambda>oci.
     Inr \<lparr>rpk_oci = oci, rpk_post_download_hook = hook\<rparr>))"

text \<open>The attributes of a sub-agent are variables in the namespace \<open>nr-sub\<close>.\<close>

abbreviation VARIABLE_SUB_AGENT_ID :: string where "VARIABLE_SUB_AGENT_ID \<equiv> ''agent_id''"
abbreviation VARIABLE_FILESYSTEM_AGENT_DIR :: string where "VARIABLE_FILESYSTEM_AGENT_DIR \<equiv> ''filesystem_agent_dir''"
abbreviation VARIABLE_REMOTE_DIR :: string where "VARIABLE_REMOTE_DIR \<equiv> ''remote_dir''"

definition get_sub_agent_variable :: "serde_libs \<Rightarrow> variables \<Rightarrow> string \<Rightarrow> string option" where
  "get_sub_agent_variable L vars name =
     map_option (trivial_value_fmt L)
       (Option.bind (map_of vars (namespaced_name NsSubAgent name)) get_final_value)"

definition package_dir_variable :: "string \<Rightarrow> string" where
  "package_dir_variable package_id = namespaced_name NsSubAgent (''packages.'' @ package_id @ ''.dir'')"

fun agent_id_error_fmt :: "agent_id_error \<Rightarrow> string" where
  "agent_id_error_fmt AgentIdInvalidFormat =
     ''AgentID must contain 32 characters at most, contain lowercase alphanumeric characters or dashes only, start with alphabetic, and end with alphanumeric''"
| "agent_id_error_fmt (AgentIdReserved i) = ''AgentID '' @ [CHR 0x27] @ i @ [CHR 0x27] @ '' is reserved''"

text \<open>The error of a path that is not normalized, the only one its computation can give.\<close>

fun component_debug :: "path_component \<Rightarrow> string" where
  "component_debug RootDir = ''RootDir''"
| "component_debug CurDir = ''CurDir''"
| "component_debug ParentDir = ''ParentDir''"
| "component_debug (Normal c) = ''Normal('' @ c @ '')''"

fun package_path_error_fmt :: "pm_error \<Rightarrow> string" where
  "package_path_error_fmt (PmNotNormalSuffix c) =
     ''Package reference naming validation produces a non-normalized suffix: '' @ component_debug c"
| "package_path_error_fmt _ = []"

definition include_package ::
  "serde_libs \<Rightarrow> path \<Rightarrow> agent_id \<Rightarrow> string \<times> rendered_package \<Rightarrow> variables \<Rightarrow> agent_type_error + variables" where
  "include_package L remote_dir i = (\<lambda>(package_id, p) vars.
     rbind (map_err (\<lambda>e. RenderingTemplate (''Invalid OCI reference for package '' @ package_id @ '': '' @ package_path_error_fmt e))
              (get_package_path L remote_dir i
                 \<lparr>pd_id = package_id, pd_oci = rpk_oci p, pd_post_download_hook = rpk_post_download_hook p\<rparr>))
       (\<lambda>path. Inr (AList.update (package_dir_variable package_id) (new_final_string_variable (path_string path)) vars)))"

definition include_packages_variables ::
  "serde_libs \<Rightarrow> variables \<Rightarrow> (string \<times> rendered_package) list \<Rightarrow> agent_type_error + variables" where
  "include_packages_variables L vars packages =
     (if packages = [] then Inr vars
      else
        rbind (ok_or (RenderingTemplate (''Agent variable not found '' @ VARIABLE_REMOTE_DIR)) (get_sub_agent_variable L vars VARIABLE_REMOTE_DIR)) (\<lambda>remote_dir.
        rbind (ok_or (RenderingTemplate (''Agent variable not found '' @ VARIABLE_SUB_AGENT_ID)) (get_sub_agent_variable L vars VARIABLE_SUB_AGENT_ID)) (\<lambda>agent_id_string.
        rbind (map_err (\<lambda>e. RenderingTemplate (''Invalid sub-agent ID: '' @ agent_id_error_fmt e)) (agent_id_try_from agent_id_string)) (\<lambda>i.
        try_fold (\<lambda>vars p. include_package L (path_of remote_dir) i p vars) vars packages))))"

section \<open>Files\<close>

definition check_basedir_escape_safety :: "string \<Rightarrow> string + unit" where
  "check_basedir_escape_safety p =
     map_ok (\<lambda>_. ()) (try_map (\<lambda>c. case c of
        Normal _ \<Rightarrow> Inr ()
      | CurDir \<Rightarrow> Inr ()
      | ParentDir \<Rightarrow> Inl (''path `'' @ p @ ''` has an invalid component: `..`'')
      | RootDir \<Rightarrow> Inl (''path `'' @ p @ ''` has an invalid component: `/`'')) (path_components p))"

definition check_single_segment :: "string \<Rightarrow> string + unit" where
  "check_single_segment p =
     (case path_components p of
        [Normal _] \<Rightarrow> Inr ()
      | _ \<Rightarrow> Inl (''path `'' @ p @ ''` must be a single path segment (a leaf); declare nested directories explicitly with `kind: dir` and `entries:`''))"

definition check_not_reserved :: "string \<Rightarrow> string + unit" where
  "check_not_reserved p =
     (if list_ex (\<lambda>c. c = Normal MANAGED_PATHS_MANIFEST_FILENAME) (path_components p)
      then Inl (''path `'' @ p @ ''` uses the reserved filename `'' @ MANAGED_PATHS_MANIFEST_FILENAME @ ''`'')
      else Inr ())"

definition err_list :: "string + unit \<Rightarrow> string list" where
  "err_list r = (case r of Inl e \<Rightarrow> [e] | Inr _ \<Rightarrow> [])"

definition validate_file_entry_path :: "string \<Rightarrow> string + unit" where
  "validate_file_entry_path p =
     (let errors =
        (if is_absolute p then [''path `'' @ p @ ''` is not relative''] else []) @
        err_list (check_basedir_escape_safety p) @ err_list (check_single_segment p) @ err_list (check_not_reserved p)
      in if errors = [] then Inr () else Inl (join '', '' errors))"

definition safe_path_try_from :: "string \<Rightarrow> string + string" where
  "safe_path_try_from p = map_ok (\<lambda>_. p) (validate_file_entry_path p)"

datatype filesystem_entry =
    FileEntry "string templateable_value" "bool templateable_value"
  | DirEntry "(string \<times> filesystem_entry) list" "bool templateable_value"
  | DirContentFromMapEntry "unit templateable_value"

definition output_string :: "runtime_libs \<Rightarrow> json \<Rightarrow> agent_type_error + string" where
  "output_string R v = (case v of JString s \<Rightarrow> Inr s | _ \<Rightarrow> map_err Serialization (rl_yaml_value R v))"

text \<open>A hash map with paths as keys: two spellings of a path are the same key.\<close>

definition template_dir_entries_map ::
  "runtime_libs \<Rightarrow> variables \<Rightarrow> 'a templateable_value \<Rightarrow> agent_type_error + (path \<times> string) list" where
  "template_dir_entries_map R vars source =
     rbind (template_string (rl_serde R) vars (tv_template source)) (\<lambda>s.
       if s = [] then Inr []
       else
         rbind (map_err (\<lambda>e. ValueNotParseableFromString (''Could not parse templated directory items as YAML: '' @ e))
                  (rbind (rl_yaml_map R s) (try_map (\<lambda>(k, v). map_ok (\<lambda>k. (path_of k, v)) (safe_path_try_from k)))))
           (\<lambda>m. try_map_values (output_string R) (hm_extend [] m)))"

fun template_entry :: "runtime_libs \<Rightarrow> variables \<Rightarrow> filesystem_entry \<Rightarrow> agent_type_error + rendered_entry"
  and template_entries :: "runtime_libs \<Rightarrow> variables \<Rightarrow> (string \<times> filesystem_entry) list \<Rightarrow> agent_type_error + (path \<times> rendered_entry) list" where
  "template_entry R vars (FileEntry text persistent) =
     rbind (template_text R vars text) (\<lambda>content.
     rbind (template_bool R vars persistent) (\<lambda>persistent.
     Inr (RenderedFile content persistent)))"
| "template_entry R vars (DirEntry entries persistent) =
     rbind (template_entries R vars entries) (\<lambda>children.
     rbind (template_bool R vars persistent) (\<lambda>persistent.
     Inr (RenderedDir children persistent)))"
| "template_entry R vars (DirContentFromMapEntry source) =
     map_ok RenderedDirContentFromMap (template_dir_entries_map R vars source)"
| "template_entries R vars [] = Inr []"
| "template_entries R vars ((key, entry) # entries) =
     rbind (template_entry R vars entry) (\<lambda>entry.
     rbind (template_entries R vars entries) (\<lambda>entries.
     Inr ((path_of key, entry) # entries)))"

definition filesystem_agent_dir :: "variables \<Rightarrow> agent_type_error + string" where
  "filesystem_agent_dir vars =
     (let key = namespaced_name NsSubAgent VARIABLE_FILESYSTEM_AGENT_DIR
      in case Option.bind (map_of vars key) get_final_value of
           Some (TvString s) \<Rightarrow> Inr s
         | _ \<Rightarrow> Inl (MissingValue key))"

definition template_filesystem ::
  "runtime_libs \<Rightarrow> variables \<Rightarrow> (string \<times> filesystem_entry) list \<Rightarrow> agent_type_error + rendered_filesystem" where
  "template_filesystem R vars fs =
     rbind (map_ok path_of (filesystem_agent_dir vars)) (\<lambda>base_dir.
     rbind (try_map_values (template_entry R vars) fs) (\<lambda>entries.
     Inr \<lparr>rf_base_dir = base_dir, rf_entries = map (\<lambda>(key, entry). (path_join base_dir key, entry)) entries\<rparr>))"

section \<open>Health checks\<close>

definition DEFAULT_HEALTH_CHECK_TIMEOUT :: duration where
  "DEFAULT_HEALTH_CHECK_TIMEOUT = from_secs 15"

record http_health_definition =
  hhd_host :: "string templateable_value"
  hhd_path :: "string templateable_value"
  hhd_port :: "16 word templateable_value"
  hhd_headers :: "(string, string) amap"
  hhd_healthy_status_codes :: "16 word list"

datatype on_host_health_check_definition = HttpHealthDefinition http_health_definition | FileHealthDefinition string

record on_host_health_definition =
  ohd_interval :: duration
  ohd_initial_delay :: duration
  ohd_timeout :: duration
  ohd_check :: "on_host_health_check_definition option"

record rendered_http_health =
  rhh_host :: string
  rhh_path :: string
  rhh_port :: "16 word"
  rhh_headers :: "(string, string) amap"
  rhh_healthy_status_codes :: "16 word list"

datatype rendered_health_check = RenderedHttpHealth rendered_http_health | RenderedFileHealth string

record rendered_health =
  rh_interval :: duration
  rh_initial_delay :: duration
  rh_timeout :: duration
  rh_check :: "rendered_health_check option"

definition template_health_check ::
  "runtime_libs \<Rightarrow> variables \<Rightarrow> on_host_health_check_definition \<Rightarrow> agent_type_error + rendered_health_check" where
  "template_health_check R vars check =
     (case check of
        HttpHealthDefinition conf \<Rightarrow>
          rbind (template_value (rl_serde R) vars ''127.0.0.1'' Some (hhd_host conf)) (\<lambda>host.
          rbind (template_value (rl_serde R) vars ''/'' Some (hhd_path conf)) (\<lambda>path.
          rbind (template_value (rl_serde R) vars 80 parse_u16 (hhd_port conf)) (\<lambda>port.
          Inr (RenderedHttpHealth \<lparr>rhh_host = host, rhh_path = path, rhh_port = port, rhh_headers = hhd_headers conf,
            rhh_healthy_status_codes = hhd_healthy_status_codes conf\<rparr>))))
      | FileHealthDefinition path \<Rightarrow> map_ok RenderedFileHealth (template_string (rl_serde R) vars path))"

definition template_health :: "runtime_libs \<Rightarrow> variables \<Rightarrow> on_host_health_definition \<Rightarrow> agent_type_error + rendered_health" where
  "template_health R vars c =
     rbind (try_option (template_health_check R vars) (ohd_check c)) (\<lambda>check.
     Inr \<lparr>rh_interval = ohd_interval c, rh_initial_delay = ohd_initial_delay c, rh_timeout = ohd_timeout c, rh_check = check\<rparr>)"

section \<open>Deployments\<close>

record on_host_definition =
  oh_executables :: "executable_definition list"
  oh_enable_file_logging :: "bool templateable_value"
  oh_health :: on_host_health_definition
  oh_filesystem :: "(string \<times> filesystem_entry) list"
  oh_packages :: "(string \<times> package_definition) list"

record rendered_on_host =
  ro_executables :: "executable list"
  ro_enable_file_logging :: bool
  ro_health :: rendered_health
  ro_filesystem :: rendered_filesystem
  ro_packages :: "(string \<times> rendered_package) list"

definition template_on_host :: "runtime_libs \<Rightarrow> variables \<Rightarrow> on_host_definition \<Rightarrow> agent_type_error + rendered_on_host" where
  "template_on_host R vars c =
     rbind (try_map_values (template_package R vars) (oh_packages c)) (\<lambda>packages.
     rbind (include_packages_variables (rl_serde R) vars packages) (\<lambda>extended_vars.
     rbind (try_map (template_executable R extended_vars) (oh_executables c)) (\<lambda>executables.
     rbind (template_bool R extended_vars (oh_enable_file_logging c)) (\<lambda>enable_file_logging.
     rbind (template_health R extended_vars (oh_health c)) (\<lambda>health.
     rbind (template_filesystem R extended_vars (oh_filesystem c)) (\<lambda>filesystem.
     Inr \<lparr>ro_executables = executables, ro_enable_file_logging = enable_file_logging, ro_health = health,
          ro_filesystem = filesystem, ro_packages = packages\<rparr>))))))"

record k8s_object_meta =
  kom_labels :: "(string, string) amap"
  kom_name :: string
  kom_namespace :: string

record k8s_object =
  ko_api_version :: string
  ko_kind :: string
  ko_metadata :: k8s_object_meta
  ko_fields :: "(string \<times> json) list"

record k8s_health_config =
  khc_interval :: duration
  khc_initial_delay :: duration
  khc_checks :: "k8s_health_check_definition list"

record k8s_checker_config =
  kcc_interval :: duration
  kcc_initial_delay :: duration

record k8s_deployment =
  kd_objects :: "(string \<times> k8s_object) list"
  kd_health :: "k8s_health_config option"
  kd_version :: k8s_checker_config
  kd_guid_checker :: k8s_checker_config

text \<open>The labels are collected in a map: a rendered key can replace another.\<close>

definition template_object_meta :: "serde_libs \<Rightarrow> variables \<Rightarrow> k8s_object_meta \<Rightarrow> agent_type_error + k8s_object_meta" where
  "template_object_meta L vars m =
     rbind (try_map (\<lambda>(k, v). rbind (template_string L vars k) (\<lambda>k. rbind (template_string L vars v) (\<lambda>v. Inr (k, v)))) (kom_labels m)) (\<lambda>labels.
     rbind (template_string L vars (kom_name m)) (\<lambda>name.
     rbind (template_string L vars (kom_namespace m)) (\<lambda>ns.
     Inr \<lparr>kom_labels = hm_extend [] labels, kom_name = name, kom_namespace = ns\<rparr>)))"

definition template_k8s_object :: "serde_libs \<Rightarrow> variables \<Rightarrow> k8s_object \<Rightarrow> agent_type_error + k8s_object" where
  "template_k8s_object L vars c =
     rbind (template_object_meta L vars (ko_metadata c)) (\<lambda>metadata.
     rbind (template_map L vars (ko_fields c)) (\<lambda>fields.
     Inr \<lparr>ko_api_version = ko_api_version c, ko_kind = ko_kind c, ko_metadata = metadata, ko_fields = fields\<rparr>))"

definition template_check_definition ::
  "serde_libs \<Rightarrow> variables \<Rightarrow> k8s_health_check_definition \<Rightarrow> agent_type_error + k8s_health_check_definition" where
  "template_check_definition L vars c =
     rbind (template_string L vars (khd_name c)) (\<lambda>name.
     rbind (template_string L vars (khd_namespace c)) (\<lambda>ns.
     rbind (try_option (template_string L vars) (khd_target_namespace c)) (\<lambda>target.
     Inr \<lparr>khd_name = name, khd_namespace = ns, khd_kind = khd_kind c, khd_target_namespace = target\<rparr>)))"

definition template_k8s_health :: "serde_libs \<Rightarrow> variables \<Rightarrow> k8s_health_config \<Rightarrow> agent_type_error + k8s_health_config" where
  "template_k8s_health L vars c =
     rbind (try_map (template_check_definition L vars) (khc_checks c)) (\<lambda>checks. Inr (c\<lparr>khc_checks := checks\<rparr>))"

definition template_k8s :: "serde_libs \<Rightarrow> variables \<Rightarrow> k8s_deployment \<Rightarrow> agent_type_error + k8s_deployment" where
  "template_k8s L vars c =
     rbind (try_map_values (template_k8s_object L vars) (kd_objects c)) (\<lambda>objects.
     rbind (try_option (template_k8s_health L vars) (kd_health c)) (\<lambda>health.
     Inr \<lparr>kd_objects = objects, kd_health = health, kd_version = kd_version c, kd_guid_checker = kd_guid_checker c\<rparr>))"

datatype deployment_definition = HostDefinition on_host_definition | K8sDefinition k8s_deployment
datatype rendered_deployment = RenderedHost rendered_on_host | RenderedK8s k8s_deployment

fun template_deployment :: "runtime_libs \<Rightarrow> variables \<Rightarrow> deployment_definition \<Rightarrow> agent_type_error + rendered_deployment" where
  "template_deployment R vars (HostDefinition c) = map_ok RenderedHost (template_on_host R vars c)"
| "template_deployment R vars (K8sDefinition c) = map_ok RenderedK8s (template_k8s (rl_serde R) vars c)"

end
