(* ===== verification/Agent_Type_Registry.thy ===== *)
theory Agent_Type_Registry
  imports Runtime_Config Agent_Id
begin

text \<open>
  Definitions of agent types (\<open>agent_type/definition.rs\<close>) and where they come from (\<open>agent_type/registry.rs\<close> and below,
  \<open>agent_type/oci.rs\<close>): the definitions embedded in the program, those of a local directory, those pulled from a
  remote registry, the layers in which they are looked up and the cache in front of them. The YAML and JSON
  libraries, the embedded files and the downloader are parameters.
\<close>

section \<open>Definitions\<close>

datatype environment = Linux | Windows | K8sCluster

fun environment_fmt :: "environment \<Rightarrow> string" where
  "environment_fmt Linux = ''linux''"
| "environment_fmt Windows = ''windows''"
| "environment_fmt K8sCluster = ''kubernetes''"

datatype platform = PlatformHost | PlatformKubernetes

datatype operating_system = OsLinux | OsWindows

datatype agent_type_metadata_error = MissingOperatingSystem | UnexpectedOperatingSystem

fun agent_type_metadata_error_fmt :: "agent_type_metadata_error \<Rightarrow> string" where
  "agent_type_metadata_error_fmt MissingOperatingSystem = ''operating_system is required when platform is host''"
| "agent_type_metadata_error_fmt UnexpectedOperatingSystem =
     ''operating_system must not be set when platform is kubernetes''"

record 'v agent_type_metadata =
  atm_id :: "'v agent_type_id"
  atm_environment :: environment

fun metadata_environment :: "platform \<Rightarrow> operating_system option \<Rightarrow> agent_type_metadata_error + environment" where
  "metadata_environment PlatformHost (Some OsLinux) = Inr Linux"
| "metadata_environment PlatformHost (Some OsWindows) = Inr Windows"
| "metadata_environment PlatformKubernetes None = Inr K8sCluster"
| "metadata_environment PlatformHost None = Inl MissingOperatingSystem"
| "metadata_environment PlatformKubernetes (Some _) = Inl UnexpectedOperatingSystem"

definition metadata_try_from_parts ::
  "'v agent_type_id \<Rightarrow> platform \<Rightarrow> operating_system option \<Rightarrow> agent_type_metadata_error + 'v agent_type_metadata" where
  "metadata_try_from_parts i platform os =
     map_ok (\<lambda>environment. \<lparr>atm_id = i, atm_environment = environment\<rparr>) (metadata_environment platform os)"

record 'v agent_type_definition =
  atd_metadata :: "'v agent_type_metadata"
  atd_variables :: "variable_definition var_tree"
  atd_runtime_config :: deployment_definition

datatype definition_parse_error =
    ProtocolVersionIncompatible protocol_version_error
  | DefinitionYaml string
  | InvalidDefinition string

text \<open>The deserialization of the parts of a definition.\<close>

record 'v definition_libs =
  dl_yaml :: "string \<Rightarrow> string + json"
  dl_show_json :: "json \<Rightarrow> string"
  dl_supported :: protocol_version
  dl_metadata :: "json \<Rightarrow> string + 'v agent_type_id \<times> platform \<times> operating_system option"
  dl_variables :: "json \<Rightarrow> string + variable_definition var_tree"
  dl_deployment :: "json \<Rightarrow> string + json"
  dl_on_host :: "json \<Rightarrow> string + on_host_definition"
  dl_k8s :: "json \<Rightarrow> string + k8s_deployment"

definition metadata_deserialize :: "'v definition_libs \<Rightarrow> json \<Rightarrow> string + 'v agent_type_metadata" where
  "metadata_deserialize D document =
     rbind (dl_metadata D document) (\<lambda>(i, platform, os).
     map_err agent_type_metadata_error_fmt (metadata_try_from_parts i platform os))"

definition deployment_deserialize :: "'v definition_libs \<Rightarrow> environment \<Rightarrow> json \<Rightarrow> string + deployment_definition" where
  "deployment_deserialize D environment j =
     (case environment of
        K8sCluster \<Rightarrow> map_ok K8sDefinition (dl_k8s D j)
      | _ \<Rightarrow> map_ok HostDefinition (dl_on_host D j))"

definition definition_deserialize :: "'v definition_libs \<Rightarrow> json \<Rightarrow> string + 'v agent_type_definition" where
  "definition_deserialize D document =
     rbind (metadata_deserialize D document) (\<lambda>metadata.
     rbind (dl_variables D document) (\<lambda>variables.
     rbind (dl_deployment D document) (\<lambda>deployment.
     rbind (deployment_deserialize D (atm_environment metadata) deployment) (\<lambda>deployment.
     Inr \<lparr>atd_metadata = metadata, atd_variables = variables, atd_runtime_config = deployment\<rparr>))))"

definition protocol_version_field :: "'v definition_libs \<Rightarrow> json \<Rightarrow> pv_field" where
  "protocol_version_field D document =
     (case json_get ''protocol_version'' document of
        None \<Rightarrow> PvAbsent
      | Some (JString raw) \<Rightarrow> PvString raw
      | Some other \<Rightarrow> PvOther (dl_show_json D other))"

definition from_slice :: "'v definition_libs \<Rightarrow> string \<Rightarrow> definition_parse_error + 'v agent_type_definition" where
  "from_slice D content =
     rbind (map_err DefinitionYaml (dl_yaml D content)) (\<lambda>document.
     rbind (map_err ProtocolVersionIncompatible
              (protocol_version_validate (dl_supported D) (protocol_version_field D document))) (\<lambda>_.
     map_err InvalidDefinition (definition_deserialize D document)))"

definition definition_id :: "'v agent_type_definition \<Rightarrow> 'v agent_type_id" where
  "definition_id d = atm_id (atd_metadata d)"

record 'v agent_type =
  at_agent_type_id :: "'v agent_type_id"
  at_variables :: "variable var_tree"
  at_runtime_config :: deployment_definition

definition with_constraints :: "variants_constraints \<Rightarrow> 'v agent_type_definition \<Rightarrow> 'v agent_type" where
  "with_constraints constraints d =
     \<lparr>at_agent_type_id = atm_id (atd_metadata d),
      at_variables = var_tree_with_config constraints (atd_variables d),
      at_runtime_config = atd_runtime_config d\<rparr>"

section \<open>Registries\<close>

datatype agent_type_registry_error =
    RegistryNotFound string
  | RegistryAlreadyExists string
  | RegistryParsing definition_parse_error
  | RegistryRemote string
  | MetadataMismatch string string

text \<open>The order of a slice of bytes is that of its characters.\<close>

definition custom_definitions ::
  "'v definition_libs \<Rightarrow> (path \<times> string option) option list option \<Rightarrow> 'v agent_type_definition list" where
  "custom_definitions D read_dir =
     (case read_dir of
        None \<Rightarrow> []
      | Some entries \<Rightarrow>
          List.map_filter
            (\<lambda>(file, content). Option.bind content (\<lambda>content. case from_slice D content of Inl _ \<Rightarrow> None | Inr d \<Rightarrow> Some d))
            (sort_key fst (List.map_filter (\<lambda>x. x) entries)))"

text \<open>The embedded definitions are expected to be valid: \<open>None\<close> is the panic when one is not.\<close>

definition embedded_definitions ::
  "'v definition_libs \<Rightarrow> string list \<Rightarrow> environment \<Rightarrow> 'v agent_type_definition list option" where
  "embedded_definitions D files env =
     (case try_map (from_slice D) files of
        Inl _ \<Rightarrow> None
      | Inr ds \<Rightarrow> Some (filter (\<lambda>d. atm_environment (atd_metadata d) = env) ds))"

type_synonym 'v local_registry = "('v agent_type_id, 'v agent_type_definition) amap"

definition insert_unique ::
  "('v agent_type_id \<Rightarrow> string) \<Rightarrow> 'v local_registry \<Rightarrow> 'v agent_type_definition \<Rightarrow>
   agent_type_registry_error + 'v local_registry" where
  "insert_unique show_id definitions d =
     (if ahas definitions (definition_id d) then Inl (RegistryAlreadyExists (show_id (definition_id d)))
      else Inr (AList.update (definition_id d) d definitions))"

definition local_try_new ::
  "('v agent_type_id \<Rightarrow> string) \<Rightarrow> 'v agent_type_definition list \<Rightarrow> agent_type_registry_error + 'v local_registry" where
  "local_try_new show_id ds = try_fold (insert_unique show_id) [] ds"

definition local_new ::
  "('v agent_type_id \<Rightarrow> string) \<Rightarrow> 'v definition_libs \<Rightarrow> string list \<Rightarrow> (path \<times> string option) option list option \<Rightarrow>
   environment \<Rightarrow> 'v local_registry option" where
  "local_new show_id D files read_dir env =
     (case embedded_definitions D files env of
        None \<Rightarrow> None
      | Some embedded \<Rightarrow>
          (case local_try_new show_id embedded of
             Inl _ \<Rightarrow> None
           | Inr registry \<Rightarrow>
               Some (fold (\<lambda>d r. AList.update (definition_id d) d r)
                 (filter (\<lambda>d. atm_environment (atd_metadata d) = env) (custom_definitions D read_dir)) registry)))"

definition local_get ::
  "('v agent_type_id \<Rightarrow> string) \<Rightarrow> 'v local_registry \<Rightarrow> 'v agent_type_id \<Rightarrow>
   agent_type_registry_error + 'v agent_type_definition" where
  "local_get show_id definitions i = ok_or (RegistryNotFound (show_id i)) (map_of definitions i)"

section \<open>Remote registry\<close>

fun environment_prefix :: "environment \<Rightarrow> string" where
  "environment_prefix Linux = ''host-linux''"
| "environment_prefix Windows = ''host-windows''"
| "environment_prefix K8sCluster = ''kubernetes''"

definition agent_type_tag_new :: "('v \<Rightarrow> string) \<Rightarrow> 'v agent_type_id \<Rightarrow> environment \<Rightarrow> string" where
  "agent_type_tag_new show_version i environment =
     environment_prefix environment @ ''-'' @ ati_name i @ ''-'' @ show_version (ati_version i)"

definition check_metadata ::
  "('v agent_type_id \<Rightarrow> string) \<Rightarrow> environment \<Rightarrow> 'v agent_type_metadata \<Rightarrow> 'v agent_type_id \<Rightarrow> string + unit" where
  "check_metadata show_id environment metadata expected_id =
     (if atm_environment metadata \<noteq> environment
      then Inl (''expected environment '' @ sq (environment_fmt environment) @ '', found '' @
                sq (environment_fmt (atm_environment metadata)))
      else if atm_id metadata \<noteq> expected_id
      then Inl (''expected <namespace/name:version> '' @ sq (show_id expected_id) @ '', found  '' @ show_id (atm_id metadata))
      else Inr ())"

definition remote_get ::
  "('v \<Rightarrow> string) \<Rightarrow> ('v agent_type_id \<Rightarrow> string) \<Rightarrow> 'v definition_libs \<Rightarrow> (string \<Rightarrow> string + string) \<Rightarrow> environment \<Rightarrow>
   'v agent_type_id \<Rightarrow> agent_type_registry_error + 'v agent_type_definition" where
  "remote_get show_version show_id D download environment i =
     (let tag = agent_type_tag_new show_version i environment
      in rbind (map_err RegistryRemote (download tag)) (\<lambda>raw.
         rbind (map_err RegistryParsing (from_slice D raw)) (\<lambda>d.
         rbind (map_err (MetadataMismatch tag) (check_metadata show_id environment (atd_metadata d) i)) (\<lambda>_.
         Inr d))))"

section \<open>Layers and cache\<close>

type_synonym 'v registry_get = "'v agent_type_id \<Rightarrow> agent_type_registry_error + 'v agent_type_definition"

fun layers_get :: "'v registry_get list \<Rightarrow> agent_type_registry_error \<Rightarrow> 'v registry_get" where
  "layers_get [] last_err i = Inl last_err"
| "layers_get (inner # registries) last_err i =
     (case inner i of
        Inr d \<Rightarrow> Inr d
      | Inl err \<Rightarrow> layers_get registries err i)"

definition registry_get :: "('v agent_type_id \<Rightarrow> string) \<Rightarrow> 'v registry_get list \<Rightarrow> 'v registry_get" where
  "registry_get show_id registries i = layers_get registries (RegistryNotFound (show_id i)) i"

text \<open>The layers over the definitions of a local registry. What the downloader answers may differ from lookup to lookup.\<close>

definition registry_layers ::
  "('v \<Rightarrow> string) \<Rightarrow> ('v agent_type_id \<Rightarrow> string) \<Rightarrow> 'v definition_libs \<Rightarrow> 'v local_registry \<Rightarrow> environment \<Rightarrow>
   (string \<Rightarrow> string + string) \<Rightarrow> 'v registry_get list" where
  "registry_layers show_version show_id D definitions env download =
     [local_get show_id definitions, remote_get show_version show_id D download env]"

definition registry_build ::
  "('v \<Rightarrow> string) \<Rightarrow> ('v agent_type_id \<Rightarrow> string) \<Rightarrow> 'v definition_libs \<Rightarrow> string list \<Rightarrow>
   (path \<times> string option) option list option \<Rightarrow> environment \<Rightarrow> ((string \<Rightarrow> string + string) \<Rightarrow> 'v registry_get list) option" where
  "registry_build show_version show_id D files read_dir env =
     map_option (\<lambda>definitions. registry_layers show_version show_id D definitions env) (local_new show_id D files read_dir env)"

type_synonym 'v registry_cache = "('v agent_type_id, 'v agent_type_definition) amap"

definition caching_get ::
  "'v registry_get \<Rightarrow> 'v agent_type_id \<Rightarrow> ('v registry_cache, agent_type_registry_error, 'v agent_type_definition) action" where
  "caching_get inner i cache =
     (case map_of cache i of
        Some d \<Rightarrow> (Inr d, cache)
      | None \<Rightarrow>
          (case inner i of
             Inl err \<Rightarrow> (Inl err, cache)
           | Inr d \<Rightarrow> (Inr d, AList.update i d cache)))"

text \<open>A sequence of lookups, each with the state of the world it finds.\<close>

fun caching_lookups ::
  "('w \<Rightarrow> 'v registry_get) \<Rightarrow> ('w \<times> 'v agent_type_id) list \<Rightarrow> 'v registry_cache \<Rightarrow>
   (agent_type_registry_error + 'v agent_type_definition) list \<times> 'v registry_cache" where
  "caching_lookups get [] cache = ([], cache)"
| "caching_lookups get ((w, i) # requests) cache =
     (case caching_get (get w) i cache of
        (r, cache) \<Rightarrow> (case caching_lookups get requests cache of (rs, cache) \<Rightarrow> (r # rs, cache)))"

section \<open>What a lookup returns\<close>

definition deployment_fits :: "environment \<Rightarrow> deployment_definition \<Rightarrow> bool" where
  "deployment_fits env deployment \<longleftrightarrow>
     (case deployment of HostDefinition _ \<Rightarrow> env \<noteq> K8sCluster | K8sDefinition _ \<Rightarrow> env = K8sCluster)"

definition definition_fits :: "environment \<Rightarrow> 'v agent_type_id \<Rightarrow> 'v agent_type_definition \<Rightarrow> bool" where
  "definition_fits env i d \<longleftrightarrow>
     definition_id d = i \<and> atm_environment (atd_metadata d) = env \<and> deployment_fits env (atd_runtime_config d)"

definition cache_fits :: "environment \<Rightarrow> 'v registry_cache \<Rightarrow> bool" where
  "cache_fits env cache \<longleftrightarrow> (\<forall>i d. map_of cache i = Some d \<longrightarrow> definition_fits env i d)"

lemma from_slice_fits:
  assumes "from_slice D content = Inr d"
  shows "definition_fits (atm_environment (atd_metadata d)) (definition_id d) d"
proof -
  obtain document where "definition_deserialize D document = Inr d"
    using assms by (auto simp: from_slice_def rbind_eq_Inr map_err_eq_Inr)
  then obtain j where "deployment_deserialize D (atm_environment (atd_metadata d)) j = Inr (atd_runtime_config d)"
    by (auto simp: definition_deserialize_def rbind_eq_Inr)
  then have "deployment_fits (atm_environment (atd_metadata d)) (atd_runtime_config d)"
    by (cases "atm_environment (atd_metadata d)") (auto simp: deployment_deserialize_def deployment_fits_def map_ok_eq_Inr)
  then show ?thesis by (simp add: definition_fits_def)
qed

lemma cache_fits_Nil [simp]: "cache_fits env []"
  by (simp add: cache_fits_def)

lemma cache_fits_update: "cache_fits env cache \<Longrightarrow> definition_fits env i d \<Longrightarrow> cache_fits env (AList.update i d cache)"
  by (simp add: cache_fits_def map_of_update)

text \<open>The contract of a registry, and what a cache makes of it. \<open>'w\<close> is what the answers depend on.\<close>

locale agent_type_registry =
  fixes get :: "'w \<Rightarrow> 'v registry_get" and env :: environment
  assumes get_fits: "get w i = Inr d \<Longrightarrow> definition_fits env i d"
begin

lemma caching_get_fits:
  assumes "cache_fits env cache" and "caching_get (get w) i cache = (r, cache')"
  shows "cache_fits env cache' \<and> (\<forall>d. r = Inr d \<longrightarrow> definition_fits env i d \<and> map_of cache' i = Some d) \<and>
    map_of cache \<subseteq>\<^sub>m map_of cache'"
  using assms get_fits
  by (auto simp: caching_get_def cache_fits_update map_le_def map_of_update split: option.splits sum.splits)
    (auto simp: cache_fits_def)

lemma lookups_fit:
  assumes "cache_fits env cache" and "caching_lookups get requests cache = (rs, cache')" and "n < length requests"
    and "rs ! n = Inr d"
  shows "definition_fits env (snd (requests ! n)) d"
  using assms
proof (induction requests arbitrary: cache rs n)
  case (Cons wi requests)
  obtain w i r cache1 rs1 where s: "wi = (w, i)" "caching_get (get w) i cache = (r, cache1)"
    "caching_lookups get requests cache1 = (rs1, cache')" "rs = r # rs1"
    using Cons.prems(2) by (cases wi) (auto split: prod.splits)
  note c = caching_get_fits[OF Cons.prems(1) s(2)]
  show ?case
  proof (cases n)
    case (Suc m)
    then show ?thesis using Cons.IH[of cache1 rs1 m] c s Cons.prems(3,4) by simp
  qed (use c s Cons.prems(4) in simp)
qed simp

end

lemma caching_get_known: "map_of cache i = Some d \<Longrightarrow> caching_get g i cache = (Inr d, cache)"
  by (simp add: caching_get_def)

lemma caching_get_keeps: "caching_get g j cache = (r, cache') \<Longrightarrow> map_of cache i = Some d \<Longrightarrow> map_of cache' i = Some d"
  by (auto simp: caching_get_def map_of_update split: option.splits sum.splits)

lemma lookups_known:
  assumes "map_of cache i = Some d" and "caching_lookups get requests cache = (rs, cache')" and "n < length requests"
    and "snd (requests ! n) = i"
  shows "rs ! n = Inr d"
  using assms
proof (induction requests arbitrary: cache rs n)
  case (Cons wi requests)
  obtain w j r cache1 rs1 where s: "wi = (w, j)" "caching_get (get w) j cache = (r, cache1)"
    "caching_lookups get requests cache1 = (rs1, cache')" "rs = r # rs1"
    using Cons.prems(2) by (cases wi) (auto split: prod.splits)
  show ?case
  proof (cases n)
    case 0
    then show ?thesis using Cons.prems(1,4) s caching_get_known[of cache i d "get w"] by simp
  next
    case (Suc m)
    then show ?thesis using Cons.IH[OF caching_get_keeps[OF s(2) Cons.prems(1)] s(3), of m] s Cons.prems(3,4) by simp
  qed
qed simp

lemma lookups_stable:
  assumes "caching_lookups get requests cache = (rs, cache')" and "m \<le> n" and "n < length requests"
    and "snd (requests ! m) = snd (requests ! n)" and "rs ! m = Inr d"
  shows "rs ! n = Inr d"
  using assms
proof (induction requests arbitrary: cache rs m n)
  case (Cons wi requests)
  obtain w j r cache1 rs1 where s: "wi = (w, j)" "caching_get (get w) j cache = (r, cache1)"
    "caching_lookups get requests cache1 = (rs1, cache')" "rs = r # rs1"
    using Cons.prems(1) by (cases wi) (auto split: prod.splits)
  show ?case
  proof (cases n)
    case (Suc k)
    show ?thesis
    proof (cases m)
      case 0
      then have "map_of cache1 j = Some d"
        using Cons.prems(5) s by (auto simp: caching_get_def map_of_update split: option.splits sum.splits)
      then show ?thesis using lookups_known[OF _ s(3), of j d k] Suc 0 s Cons.prems(3,4) by simp
    next
      case (Suc l)
      then show ?thesis using Cons.IH[OF s(3), of l k] \<open>n = Suc k\<close> s Cons.prems(2-5) by simp
    qed
  qed (use Cons.prems in simp)
qed simp

lemma local_try_new_fits:
  assumes "try_fold (insert_unique show_id) reg ds = Inr reg'" and "cache_fits env reg"
    and "\<forall>d \<in> set ds. definition_fits env (definition_id d) d"
  shows "cache_fits env reg'"
  using assms
proof (induction ds arbitrary: reg)
  case (Cons d ds)
  then show ?case by (auto simp: rbind_eq_Inr insert_unique_def cache_fits_update split: if_splits)
qed simp

lemma overlay_fits:
  "cache_fits env reg \<Longrightarrow> \<forall>d \<in> set ds. definition_fits env (definition_id d) d \<Longrightarrow>
     cache_fits env (fold (\<lambda>d r. AList.update (definition_id d) d r) ds reg)"
  by (induction ds arbitrary: reg) (simp_all add: cache_fits_update)

lemma embedded_fits:
  assumes "embedded_definitions D files env = Some ds" and "d \<in> set ds"
  shows "definition_fits env (definition_id d) d"
  using assms try_map_image[of "from_slice D" files _ d] from_slice_fits[of D _ d]
  by (auto simp: embedded_definitions_def split: sum.splits)

lemma custom_fits:
  assumes "d \<in> set (custom_definitions D read_dir)"
  shows "definition_fits (atm_environment (atd_metadata d)) (definition_id d) d"
proof -
  have "from_slice D c = Inr d" if "(case from_slice D c of Inl _ \<Rightarrow> None | Inr d \<Rightarrow> Some d) = Some d" for c
    using that by (cases "from_slice D c") simp_all
  then obtain c where "from_slice D c = Inr d"
    using assms by (auto simp: custom_definitions_def map_filter_mem bind_eq_Some_conv split: option.splits)
  then show ?thesis by (rule from_slice_fits)
qed

lemma local_new_fits:
  assumes "local_new show_id D files read_dir env = Some definitions"
  shows "cache_fits env definitions"
proof -
  obtain embedded reg where e: "embedded_definitions D files env = Some embedded" "local_try_new show_id embedded = Inr reg"
    "definitions = fold (\<lambda>d r. AList.update (definition_id d) d r)
       (filter (\<lambda>d. atm_environment (atd_metadata d) = env) (custom_definitions D read_dir)) reg"
    using assms by (auto simp: local_new_def split: option.splits sum.splits)
  have "cache_fits env reg"
    using local_try_new_fits[OF e(2)[unfolded local_try_new_def]] embedded_fits[OF e(1)] by simp
  then show ?thesis unfolding e(3) by (rule overlay_fits) (use custom_fits in auto)
qed

lemma remote_get_fits:
  assumes "remote_get show_version show_id D download env i = Inr d"
  shows "definition_fits env i d"
  using assms from_slice_fits[of D _ d]
  by (auto simp: remote_get_def Let_def rbind_eq_Inr map_err_eq_Inr check_metadata_def definition_id_def split: if_splits)

text \<open>The registry of the program, with the definitions of its local layer.\<close>

definition local_definitions ::
  "('v agent_type_id \<Rightarrow> string) \<Rightarrow> 'v definition_libs \<Rightarrow> string list \<Rightarrow> (path \<times> string option) option list option \<Rightarrow>
   environment \<Rightarrow> 'v local_registry" where
  "local_definitions show_id D files read_dir env =
     (case local_new show_id D files read_dir env of None \<Rightarrow> [] | Some definitions \<Rightarrow> definitions)"

interpretation layered: agent_type_registry
  "\<lambda>download. registry_get show_id
     (registry_layers show_version show_id D (local_definitions show_id D files read_dir env) env download)"
  env for show_version show_id D files read_dir env
proof
  fix download i d
  let ?definitions = "local_definitions show_id D files read_dir env"
  have "cache_fits env ?definitions"
    using local_new_fits by (auto simp: local_definitions_def split: option.splits)
  moreover assume "registry_get show_id (registry_layers show_version show_id D ?definitions env download) i = Inr d"
  ultimately show "definition_fits env i d"
    using remote_get_fits[of show_version show_id D download env i d]
    by (auto simp: registry_get_def registry_layers_def local_get_def cache_fits_def ok_or_eq_Inr split: sum.splits)
qed

text \<open>C19. Whatever files are in the directory of agent types and whatever the remote registry answers, a lookup through the
  caching registry returns only a definition with the requested id, for the environment the program runs in and with a deployment
  for it; and once an id was resolved every later lookup of it returns the same definition, even if the remote
  registry then answers differently or fails.\<close>

theorem lookups_return_requested:
  assumes "registry_build show_version show_id D files read_dir env = Some layers"
    and "caching_lookups (\<lambda>download. registry_get show_id (layers download)) requests [] = (rs, cache)"
    and "m \<le> n" and "n < length requests" and "snd (requests ! m) = snd (requests ! n)" and "rs ! m = Inr d"
  shows "definition_fits env (snd (requests ! m)) d \<and> rs ! n = Inr d"
proof -
  have "layers = registry_layers show_version show_id D (local_definitions show_id D files read_dir env) env"
    using assms(1) by (auto simp: registry_build_def local_definitions_def)
  then have "definition_fits env (snd (requests ! m)) d"
    using layered.lookups_fit[OF cache_fits_Nil assms(2)[unfolded \<open>layers = _\<close>], of m d] assms(3,4,6) by simp
  then show ?thesis using lookups_stable[OF assms(2-6)] by simp
qed

definition sample_type_id :: "nat agent_type_id" where
  "sample_type_id = \<lparr>ati_name = ''infra'', ati_namespace = ''newrelic'', ati_version = 1\<rparr>"

definition sample_k8s_deployment :: k8s_deployment where
  "sample_k8s_deployment =
     \<lparr>kd_objects = [], kd_health = None, kd_version = \<lparr>kcc_interval = 1, kcc_initial_delay = 0\<rparr>,
      kd_guid_checker = \<lparr>kcc_interval = 1, kcc_initial_delay = 0\<rparr>\<rparr>"

definition sample_on_host_definition :: on_host_definition where
  "sample_on_host_definition =
     \<lparr>oh_executables = [], oh_enable_file_logging = templateable_default,
      oh_health = \<lparr>ohd_interval = 1, ohd_initial_delay = 0, ohd_timeout = 1, ohd_check = None\<rparr>,
      oh_filesystem = [(''conf'', FileEntry (templateable_from ''x'') templateable_default)], oh_packages = []\<rparr>"

definition sample_definition_libs :: "platform \<Rightarrow> operating_system option \<Rightarrow> nat definition_libs" where
  "sample_definition_libs platform os =
     \<lparr>dl_yaml = \<lambda>content. if content = ''ok'' then Inr (JObject [(''protocol_version'', JString ''1.0'')]) else Inl ''no yaml'',
      dl_show_json = \<lambda>_. '''', dl_supported = \<lparr>pv_major = 1, pv_minor = 0\<rparr>,
      dl_metadata = \<lambda>_. Inr (sample_type_id, platform, os), dl_variables = \<lambda>_. Inr [], dl_deployment = Inr,
      dl_on_host = \<lambda>_. Inr sample_on_host_definition, dl_k8s = \<lambda>_. Inr sample_k8s_deployment\<rparr>"

definition sample_type_definition :: "environment \<Rightarrow> deployment_definition \<Rightarrow> nat agent_type_definition" where
  "sample_type_definition env deployment =
     \<lparr>atd_metadata = \<lparr>atm_id = sample_type_id, atm_environment = env\<rparr>, atd_variables = [], atd_runtime_config = deployment\<rparr>"

lemma sample_version_ok: "protocol_version_validate \<lparr>pv_major = 1, pv_minor = 0\<rparr> (PvString ''1.0'') = Inr ()"
  by (simp add: protocol_version_from_str_def parse_uint_def is_supported_def check_compatibility_def pv_gt_def ascii_defs)

lemma sample_from_slice:
  "from_slice (sample_definition_libs PlatformKubernetes None) ''ok'' =
     Inr (sample_type_definition K8sCluster (K8sDefinition sample_k8s_deployment))"
  "from_slice (sample_definition_libs PlatformHost (Some OsLinux)) ''ok'' =
     Inr (sample_type_definition Linux (HostDefinition sample_on_host_definition))"
  by (simp_all add: from_slice_def sample_definition_libs_def protocol_version_field_def sample_version_ok definition_deserialize_def
      metadata_deserialize_def metadata_try_from_parts_def deployment_deserialize_def sample_type_definition_def
      del: protocol_version_validate.simps One_nat_def)

theorem lookups_return_requested_witness:
  "\<exists>layers cache.
     registry_build show_nat ati_name (sample_definition_libs PlatformKubernetes None) [] None K8sCluster = Some layers \<and>
     caching_lookups (\<lambda>download. registry_get ati_name (layers download))
       [(\<lambda>_. Inr ''ok'', sample_type_id), (\<lambda>_. Inl ''down'', sample_type_id)] [] =
     ([Inr (sample_type_definition K8sCluster (K8sDefinition sample_k8s_deployment)),
       Inr (sample_type_definition K8sCluster (K8sDefinition sample_k8s_deployment))], cache) \<and>
     definition_fits K8sCluster sample_type_id (sample_type_definition K8sCluster (K8sDefinition sample_k8s_deployment))"
proof -
  let ?D = "sample_definition_libs PlatformKubernetes None"
  let ?requests = "[(\<lambda>_. Inr ''ok'', sample_type_id), (\<lambda>_. Inl ''down'', sample_type_id)]"
  let ?d = "sample_type_definition K8sCluster (K8sDefinition sample_k8s_deployment)"
  have b: "registry_build show_nat ati_name ?D [] None K8sCluster = Some (registry_layers show_nat ati_name ?D [] K8sCluster)"
    by (simp add: registry_build_def local_new_def embedded_definitions_def local_try_new_def custom_definitions_def)
  have get: "registry_get ati_name (registry_layers show_nat ati_name ?D [] K8sCluster (\<lambda>_. Inr ''ok'')) sample_type_id = Inr ?d"
    by (simp add: registry_get_def registry_layers_def local_get_def remote_get_def Let_def sample_from_slice
        sample_type_definition_def check_metadata_def)
  have r: "caching_lookups (\<lambda>download. registry_get ati_name (registry_layers show_nat ati_name ?D [] K8sCluster download))
      ?requests [] = ([Inr ?d, Inr ?d], [(sample_type_id, ?d)])"
    by (simp add: caching_get_def get)
  have "definition_fits K8sCluster sample_type_id ?d"
    using lookups_return_requested[OF b r, of 0 1 ?d] by simp
  then show ?thesis by (intro exI conjI) (rule b, rule r)
qed

end
