(* ===== verification/Rendered_Files.thy ===== *)
theory Rendered_Files
  imports Runtime_Config
begin

text \<open>
  The files an agent type declares are well-formed once rendered: every key is a single name below the directory of the
  sub-agent (\<open>agent_type/runtime_config/on_host/filesystem.rs\<close>).
\<close>

section \<open>Safe paths\<close>

lemma split_on_sep_free: "x \<in> set (split_on d s) \<Longrightarrow> d \<notin> set x"
proof (induction s arbitrary: x)
  case (Cons c s)
  then show ?case by (cases "split_on d s") (auto split: if_splits)
qed simp

lemma Normal_segment: "Normal c \<in> set (path_components s) \<Longrightarrow> segment_name c"
  using split_on_sep_free[of c "CHR ''/''" s]
  by (auto simp: path_components_def segment_name_def Let_def split: if_splits)

lemma safe_path_ok:
  assumes "safe_path_try_from p = Inr q"
  shows "q = p" "\<not> is_absolute p" "\<exists>c. path_of p = [c] \<and> segment_name c \<and> c \<noteq> MANAGED_PATHS_MANIFEST_FILENAME"
proof -
  have v: "validate_file_entry_path p = Inr ()" "q = p" using assms by (auto simp: safe_path_try_from_def result_simps)
  show "q = p" by (rule v(2))
  have checks: "\<not> is_absolute p" "err_list (check_single_segment p) = []" "err_list (check_not_reserved p) = []"
    using v(1) by (auto simp: validate_file_entry_path_def Let_def split: if_splits)
  show "\<not> is_absolute p" by (rule checks(1))
  obtain c where c: "path_components p = [Normal c]"
    using checks(2) by (auto simp: check_single_segment_def err_list_def split: list.splits path_component.splits)
  then have "path_of p = [c]" "segment_name c" using Normal_segment[of c p] by (auto simp: path_of_def)
  moreover have "c \<noteq> MANAGED_PATHS_MANIFEST_FILENAME"
    using checks(3) c by (auto simp: check_not_reserved_def err_list_def split: if_splits)
  ultimately show "\<exists>c. path_of p = [c] \<and> segment_name c \<and> c \<noteq> MANAGED_PATHS_MANIFEST_FILENAME" by blast
qed

text \<open>What deserialization ensures of the keys of a map: they are safe paths in UTF-8 and no two of them are the same
  path.\<close>

definition safe_key :: "string \<Rightarrow> bool" where
  "safe_key k \<longleftrightarrow> is_ok (safe_path_try_from k) \<and> list_all (\<lambda>c. utf8_valid (map of_char c)) (path_of k)"

fun entry_valid :: "filesystem_entry \<Rightarrow> bool"
  and entries_valid :: "(string \<times> filesystem_entry) list \<Rightarrow> bool" where
  "entry_valid (FileEntry _ _) \<longleftrightarrow> True"
| "entry_valid (DirEntry entries _) \<longleftrightarrow> distinct (map (\<lambda>(k, _). path_of k) entries) \<and> entries_valid entries"
| "entry_valid (DirContentFromMapEntry _) \<longleftrightarrow> True"
| "entries_valid [] \<longleftrightarrow> True"
| "entries_valid ((key, entry) # entries) \<longleftrightarrow> safe_key key \<and> entry_valid entry \<and> entries_valid entries"

definition runtime_libs_ok :: "runtime_libs \<Rightarrow> bool" where
  "runtime_libs_ok R \<longleftrightarrow>
     (\<forall>s m k v. rl_yaml_map R s = Inr m \<longrightarrow> (k, v) \<in> set m \<longrightarrow> list_all (\<lambda>c. utf8_valid (map of_char c)) (path_of k))"

lemma safe_key_ok: "safe_key k \<Longrightarrow> key_ok (path_of k) \<and> \<not> is_absolute k"
  using safe_path_ok[of k] by (auto simp: safe_key_def is_ok_iff name_ok_def)

lemma try_map_values_keys: "try_map_values f m = Inr m' \<Longrightarrow> map fst m' = map fst m"
  unfolding try_map_values_def by (induction m arbitrary: m') (auto simp: result_simps)

lemma hm_extend_keys: "akeys (hm_extend m kvs) = akeys m \<union> fst ` set kvs"
proof (induction kvs arbitrary: m)
  case (Cons kv kvs)
  then show ?case by (cases kv) simp
qed simp

lemma keys_ok_iff: "keys_ok m \<longleftrightarrow> amap_ok m \<and> (\<forall>k \<in> akeys m. key_ok k)"
  by (auto simp: keys_ok_def amap_ok_def akeys_def list_all_iff)

lemma template_map_keys_ok:
  assumes "template_dir_entries_map R vars source = Inr files" and "runtime_libs_ok R"
  shows "keys_ok files"
proof -
  obtain s where s: "(if s = [] then Inr [] else
      rbind (map_err (\<lambda>e. ValueNotParseableFromString (''Could not parse templated directory items as YAML: '' @ e))
        (rbind (rl_yaml_map R s) (try_map (\<lambda>(k, v). map_ok (\<lambda>k. (path_of k, v)) (safe_path_try_from k)))))
      (\<lambda>m. try_map_values (output_string R) (hm_extend [] m))) = Inr files"
    using assms(1) unfolding template_dir_entries_map_def rbind_eq_Inr by blast
  show ?thesis
  proof (cases "s = []")
    case False
    obtain m' where m': "rbind (rl_yaml_map R s) (try_map (\<lambda>(k, v). map_ok (\<lambda>k. (path_of k, v)) (safe_path_try_from k))) = Inr m'"
      "try_map_values (output_string R) (hm_extend [] m') = Inr files"
      using s[unfolded if_not_P[OF False] rbind_eq_Inr[of "map_err _ _"] map_err_eq_Inr] by (elim exE conjE)
    obtain m where m: "rl_yaml_map R s = Inr m"
      "try_map (\<lambda>(k, v). map_ok (\<lambda>k. (path_of k, v)) (safe_path_try_from k)) m = Inr m'"
      using m'(1)[unfolded rbind_eq_Inr] by (elim exE conjE)
    have "key_ok (fst kv)" if "kv \<in> set m'" for kv
    proof -
      from that[unfolded in_set_conv_nth] obtain n where n: "n < length m'" "kv = m' ! n" by (elim exE conjE) simp
      obtain k v where kv: "m ! n = (k, v)" by (cases "m ! n")
      have "(k, v) \<in> set m" using n(1) try_map_length[OF m(2)] nth_mem[of n m] unfolding kv by simp
      then have u: "list_all (\<lambda>c. utf8_valid (map of_char c)) (path_of k)" using assms(2) m(1) unfolding runtime_libs_ok_def by blast
      have "map_ok (\<lambda>k. (path_of k, v)) (safe_path_try_from k) = Inr kv"
        using try_map_nth[OF m(2), of n] n try_map_length[OF m(2)] kv by simp
      then obtain k' where k': "safe_path_try_from k = Inr k'" "kv = (path_of k', v)" unfolding map_ok_eq_Inr by blast
      then have "safe_key k" using u by (simp add: safe_key_def)
      then show ?thesis using safe_key_ok[of k] safe_path_ok(1)[OF k'(1)] k'(2) by simp
    qed
    then have "keys_ok (hm_extend [] m')" unfolding keys_ok_iff hm_extend_keys by auto
    then show ?thesis unfolding keys_ok_def try_map_values_keys[OF m'(2)] .
  qed (use s in \<open>simp add: keys_ok_def\<close>)
qed

lemma template_entry_ok:
  "template_entry R vars e = Inr e' \<Longrightarrow> runtime_libs_ok R \<Longrightarrow> entry_valid e \<Longrightarrow> entry_ok e'"
  "template_entries R vars es = Inr es' \<Longrightarrow> runtime_libs_ok R \<Longrightarrow> entries_valid es \<Longrightarrow>
     children_ok es' \<and> map fst es' = map (\<lambda>(k, _). path_of k) es \<and> list_all key_ok (map fst es')"
proof (induction R vars e and R vars es arbitrary: e' and es' rule: template_entry_template_entries.induct)
  case (2 R vars entries persistent)
  obtain children p where c: "template_entries R vars entries = Inr children" "e' = RenderedDir children p"
    using 2(2) unfolding template_entry.simps rbind_eq_Inr by blast
  have ch: "children_ok children" "map fst children = map (\<lambda>(k, _). path_of k) entries" "list_all key_ok (map fst children)"
    using 2(1)[OF c(1) 2(3)] 2(4) unfolding entry_valid.simps by blast+
  have "distinct (map fst children)" using ch(2) 2(4) by simp
  then show ?case using ch(1,3) unfolding c(2) entry_ok.simps keys_ok_def by blast
next
  case (3 R vars source)
  then show ?case using template_map_keys_ok by (auto simp: map_ok_eq_Inr)
next
  case (5 R vars key entry entries)
  obtain x xs where x: "template_entry R vars entry = Inr x" "template_entries R vars entries = Inr xs" "es' = (path_of key, x) # xs"
    using 5(3) unfolding template_entries.simps rbind_eq_Inr by blast
  have v: "safe_key key" "entry_valid entry" "entries_valid entries" using 5(5) by simp_all
  have h: "children_ok xs" "map fst xs = map (\<lambda>(k, _). path_of k) entries" "list_all key_ok (map fst xs)"
    using 5(2)[OF x(2) 5(4) v(3)] by blast+
  have "children_ok es'" using 5(1)[OF x(1) 5(4) v(2)] h(1) x(3) by simp
  moreover have "map fst es' = map (\<lambda>(k, _). path_of k) ((key, entry) # entries)" using h(2) x(3) by simp
  moreover have "list_all key_ok (map fst es')" using h(3) x(3) safe_key_ok[OF v(1)] by simp
  ultimately show ?case by blast
qed (auto simp: rbind_eq_Inr)

lemma children_ok_iff: "children_ok ch \<longleftrightarrow> (\<forall>(k, e) \<in> set ch. entry_ok e)"
  by (induction ch) auto

lemma entries_valid_iff: "entries_valid es \<longleftrightarrow> (\<forall>(k, e) \<in> set es. safe_key k \<and> entry_valid e)"
  by (induction es) auto

lemma try_map_values_mem:
  assumes "try_map_values f m = Inr m'" and "(k, y) \<in> set m'"
  shows "\<exists>x. (k, x) \<in> set m \<and> f x = Inr y"
  using assms unfolding try_map_values_def
proof (induction m arbitrary: m')
  case (Cons kx m)
  obtain k' x ys y' where s: "kx = (k', x)" "f x = Inr y'" "try_map (\<lambda>(k, v). map_ok (Pair k) (f v)) m = Inr ys"
    "m' = (k', y') # ys"
    using Cons.prems(1) by (cases kx) (auto simp: rbind_eq_Inr map_ok_eq_Inr)
  show ?case
  proof (cases "(k, y) = (k', y')")
    case False
    then have "(k, y) \<in> set ys" using Cons.prems(2) s(4) by auto
    then show ?thesis using Cons.IH[OF s(3)] by auto
  qed (use s in auto)
qed simp

text \<open>The file system of a definition, as deserialized.\<close>

definition filesystem_valid :: "(string \<times> filesystem_entry) list \<Rightarrow> bool" where
  "filesystem_valid fs \<longleftrightarrow> distinct (map (\<lambda>(k, _). path_of k) fs) \<and> entries_valid fs"

lemma template_filesystem_ok:
  assumes "template_filesystem R vars fs = Inr rf" and "filesystem_valid fs" and "runtime_libs_ok R"
    and "filesystem_agent_dir vars = Inr (path_string base)" and "list_all name_ok base"
  shows "filesystem_ok rf" "rf_base_dir rf = base"
proof -
  obtain entries where e: "try_map_values (template_entry R vars) fs = Inr entries"
    "rf = \<lparr>rf_base_dir = base, rf_entries = map (\<lambda>(key, entry). (path_join base key, entry)) entries\<rparr>"
    using assms(1,4) path_of_string[OF name_ok_segment[OF assms(5)]]
    by (auto simp: template_filesystem_def rbind_eq_Inr map_ok_eq_Inr)
  show "rf_base_dir rf = base" by (simp add: e(2))
  have mem: "safe_key k \<and> entry_ok y" if "(k, y) \<in> set entries" for k y
    using try_map_values_mem[OF e(1) that] template_entry_ok(1)[OF _ assms(3)] assms(2)
    unfolding filesystem_valid_def entries_valid_iff by fastforce
  have rel: "relative_entries rf = map (\<lambda>(k, y). (path_of k, y)) entries"
    using mem safe_key_ok by (auto simp: relative_entries_def e(2) path_join_def)
  have "map fst (relative_entries rf) = map path_of (map fst entries)" unfolding rel by auto
  also have "\<dots> = map (\<lambda>(k, _). path_of k) fs" unfolding try_map_values_keys[OF e(1)] by auto
  finally have "distinct (map fst (relative_entries rf))" using assms(2) unfolding filesystem_valid_def by simp
  moreover have "list_all key_ok (map fst (relative_entries rf))"
    using mem safe_key_ok unfolding rel list_all_iff by auto
  moreover have "children_ok (relative_entries rf)" using mem unfolding rel children_ok_iff by auto
  moreover have "entries_below rf"
    using mem safe_key_ok by (auto simp: entries_below_def list_all_iff e(2) path_join_def)
  ultimately show "filesystem_ok rf" using assms(5) by (simp add: filesystem_ok_def keys_ok_def e(2))
qed

section \<open>Default restart policy\<close>

text \<open>The default of the definition says linear, its rendering says fixed: the value of a templateable value is never
  read.\<close>

lemma template_string_Nil [simp]: "template_string L vars [] = Inr []"
  by (simp add: template_string_def)

lemma default_backoff_renders_fixed:
  "map_option bsc_backoff_type (case template_restart_policy R vars backoff_strategy_definition_default of Inl _ \<Rightarrow> None | Inr c \<Rightarrow> Some c) =
     Some BackoffFixed \<and>
   tv_value (bsd_backoff_type backoff_strategy_definition_default) = Some BackoffLinear"
  by (simp add: template_restart_policy_def backoff_strategy_definition_default_def template_value_def templateable_new_def)

end
