(* ===== verification/Agent_Render.thy ===== *)
theory Agent_Render
  imports Secret_Providers Agent_Type_Registry Rendered_Files
begin

text \<open>
  From a configuration to the effective agent: the attributes of a sub-agent (\<open>agent_type/agent_attributes.rs\<close>), the
  renderer (\<open>agent_type/render.rs\<close>) and the assembler (\<open>sub_agent/effective_agents_assembler.rs\<close>), which looks up the
  agent type, loads the secrets and renders the deployment. The variables of the namespace \<open>nr-sub\<close> cannot be
  replaced by a configuration, an environment variable or a secret, so every sub-agent gets its own directory.
\<close>

section \<open>Attributes of a sub-agent\<close>

definition AGENT_FILESYSTEM_FOLDER_NAME :: string where
  "AGENT_FILESYSTEM_FOLDER_NAME = ''filesystem''"

definition SHARED_FILESYSTEM_FOLDER_NAME :: string where
  "SHARED_FILESYSTEM_FOLDER_NAME = ''shared-filesystem''"

abbreviation VARIABLE_SHARED_FILESYSTEM_DIR :: string where
  "VARIABLE_SHARED_FILESYSTEM_DIR \<equiv> ''shared_filesystem_dir''"

record agent_attributes =
  aa_agent_id :: string
  aa_agent_filesystem_dir :: path
  aa_shared_filesystem_dir :: path
  aa_remote_dir :: path

fun attributes_try_new :: "agent_id \<Rightarrow> path \<Rightarrow> string + agent_attributes" where
  "attributes_try_new (SubAgent i) remote_dir =
     Inr \<lparr>aa_agent_id = sub_agent_id_as_str i,
          aa_agent_filesystem_dir = path_join (path_join remote_dir AGENT_FILESYSTEM_FOLDER_NAME) (sub_agent_id_as_str i),
          aa_shared_filesystem_dir = path_join remote_dir SHARED_FILESYSTEM_FOLDER_NAME,
          aa_remote_dir = remote_dir\<rparr>"
| "attributes_try_new AgentControl remote_dir = Inl ''Failed to create AgentAttributes: Used reserved Agent ID''"

definition sub_agent_variables :: "agent_attributes \<Rightarrow> variables" where
  "sub_agent_variables a =
     [(namespaced_name NsSubAgent VARIABLE_SUB_AGENT_ID, new_final_string_variable (aa_agent_id a)),
      (namespaced_name NsSubAgent VARIABLE_FILESYSTEM_AGENT_DIR,
       new_final_string_variable (from_utf8_lossy (path_string (aa_agent_filesystem_dir a)))),
      (namespaced_name NsSubAgent VARIABLE_SHARED_FILESYSTEM_DIR,
       new_final_string_variable (from_utf8_lossy (path_string (aa_shared_filesystem_dir a)))),
      (namespaced_name NsSubAgent VARIABLE_REMOTE_DIR,
       new_final_string_variable (from_utf8_lossy (path_string (aa_remote_dir a))))]"

section \<open>Renderer\<close>

text \<open>The renderer is the map of the variables of Agent Control.\<close>

definition with_agent_control_variables :: "variables \<Rightarrow> variables" where
  "with_agent_control_variables vars =
     hm_collect (map (\<lambda>(name, v). (namespaced_name NsAgentControl name, v)) vars)"

definition check_all_vars_are_populated :: "variables \<Rightarrow> agent_type_error + unit" where
  "check_all_vars_are_populated vars =
     (let not_populated = map fst (filter (\<lambda>(_, v). get_final_value v = None) vars)
      in if not_populated \<noteq> [] then Inl (ValuesNotPopulated not_populated) else Inr ())"

definition build_namespaced_variables :: "variables \<Rightarrow> variables \<Rightarrow> variables \<Rightarrow> agent_attributes \<Rightarrow> variables" where
  "build_namespaced_variables ac_variables vars env_vars attributes =
     hm_collect (map (\<lambda>(name, v). (namespaced_name NsVariable name, v)) vars @ sub_agent_variables attributes @ env_vars @ ac_variables)"

definition render ::
  "runtime_libs \<Rightarrow> variables \<Rightarrow> 'v agent_type \<Rightarrow> json yaml_config \<Rightarrow> agent_attributes \<Rightarrow> variables \<Rightarrow> variables \<Rightarrow>
   agent_type_error + rendered_deployment" where
  "render R ac_variables agent_type values attributes env_vars secrets =
     rbind (template_yaml_config (rl_serde R) secrets values) (\<lambda>values_expanded.
     rbind (map_ok flatten (fill_with_values (rl_serde R) values_expanded (at_variables agent_type))) (\<lambda>filled_variables.
     rbind (check_all_vars_are_populated filled_variables) (\<lambda>_.
     let ns_variables = build_namespaced_variables ac_variables filled_variables env_vars attributes
     in template_deployment R ns_variables (at_runtime_config agent_type))))"

section \<open>Assembler\<close>

datatype assembler_error =
    AssemblerGeneric string
  | AssemblerRegistry agent_type_registry_error
  | AssemblerSerialization string
  | AssemblerValueConversion string
  | AssemblerAgentType agent_type_error
  | AssemblerSecrets secret_variables_error

record 'v effective_agent =
  ea_agent_identity :: "'v agent_identity"
  ea_runtime_config :: rendered_deployment

definition get_onhost_config :: "'v effective_agent \<Rightarrow> assembler_error + rendered_on_host" where
  "get_onhost_config a =
     (case ea_runtime_config a of
        RenderedHost on_host \<Rightarrow> Inr on_host
      | RenderedK8s _ \<Rightarrow> Inl (AssemblerGeneric ''missing host deployment configuration''))"

definition get_k8s_config :: "'v effective_agent \<Rightarrow> assembler_error + k8s_deployment" where
  "get_k8s_config a =
     (case ea_runtime_config a of
        RenderedK8s k8s \<Rightarrow> Inr k8s
      | RenderedHost _ \<Rightarrow> Inl (AssemblerGeneric ''missing k8s deployment configuration''))"

record ('v, 'u, 'k) assembler =
  as_registry :: "'v registry_get"
  as_renderer :: variables
  as_variable_constraints :: variants_constraints
  as_secrets_providers :: "('u, 'k) secrets_registry"
  as_remote_dir :: path

text \<open>\<open>to_str\<close> prints a configuration as YAML. \<open>None\<close> stands for a panic.\<close>

definition assemble_agent ::
  "runtime_libs \<Rightarrow> (json yaml_config \<Rightarrow> string + string) \<Rightarrow> ('u, 't) secrets_world \<Rightarrow> ('v, 'u, 'k) assembler \<Rightarrow>
   'v agent_identity \<Rightarrow> json yaml_config \<Rightarrow> (assembler_error + 'v effective_agent) option" where
  "assemble_agent R to_str W A identity values =
     (case rbind (map_err AssemblerRegistry (as_registry A (ai_agent_type_id identity))) (\<lambda>d.
           rbind (map_err AssemblerGeneric (attributes_try_new (ai_id identity) (as_remote_dir A))) (\<lambda>attributes.
           Inr (with_constraints (as_variable_constraints A) d, attributes))) of
        Inl e \<Rightarrow> Some (Inl e)
      | Inr (agent_type, attributes) \<Rightarrow>
          map_option
            (\<lambda>secret_variables.
               rbind (map_err AssemblerSecrets secret_variables) (\<lambda>secret_variables.
               rbind (map_err AssemblerSecrets (load_secrets W (as_secrets_providers A) secret_variables)) (\<lambda>secrets.
               rbind (map_err AssemblerAgentType
                        (render R (as_renderer A) agent_type values attributes (load_env_vars (sw_env W)) secrets)) (\<lambda>runtime_config.
               Inr \<lparr>ea_agent_identity = identity, ea_runtime_config = runtime_config\<rparr>))))
            (secret_variables_try_from (rl_serde R) to_str values))"

section \<open>Variables of the sub-agent\<close>

text \<open>All names of a map of variables are in one namespace.\<close>

definition in_namespace :: "namespace \<Rightarrow> variables \<Rightarrow> bool" where
  "in_namespace ns vars \<longleftrightarrow> (\<forall>k \<in> fst ` set vars. \<exists>name. k = namespaced_name ns name)"

lemma in_namespace_lookup: "in_namespace ns vars \<Longrightarrow> ns \<noteq> ns' \<Longrightarrow> map_of (rev vars) (namespaced_name ns' name) = None"
  by (auto simp: in_namespace_def map_of_eq_None_iff namespaced_name_inj)

lemma in_namespace_collect: "in_namespace ns vars \<Longrightarrow> in_namespace ns (hm_collect vars)"
  using hm_extend_keys[of "[]" vars] by (auto simp: in_namespace_def akeys_def)

lemma in_namespace_map: "in_namespace ns (map (\<lambda>(name, v). (namespaced_name ns (f name), g v)) vars)"
  by (auto simp: in_namespace_def)

lemma env_vars_namespace: "in_namespace NsEnvironmentVariable (load_env_vars env)"
  unfolding load_env_vars_def by (rule in_namespace_collect) (rule in_namespace_map)

lemma ac_variables_namespace: "in_namespace NsAgentControl (with_agent_control_variables vars)"
  using in_namespace_map[of NsAgentControl "\<lambda>n. n" "\<lambda>v. v"] unfolding with_agent_control_variables_def by (rule in_namespace_collect)

lemma sub_agent_lookup:
  assumes "in_namespace NsEnvironmentVariable env_vars" and "in_namespace NsAgentControl ac"
  shows "map_of (build_namespaced_variables ac vars env_vars a) (namespaced_name NsSubAgent VARIABLE_FILESYSTEM_AGENT_DIR) =
    Some (new_final_string_variable (from_utf8_lossy (path_string (aa_agent_filesystem_dir a))))"
proof -
  have "in_namespace NsVariable (map (\<lambda>(name, v). (namespaced_name NsVariable name, v)) vars)"
    using in_namespace_map[of NsVariable "\<lambda>n. n" "\<lambda>v. v"] by simp
  then show ?thesis
    using in_namespace_lookup[OF assms(1), of NsSubAgent] in_namespace_lookup[OF assms(2), of NsSubAgent]
    unfolding build_namespaced_variables_def map_of_hm_extend
    by (simp add: map_add_def sub_agent_variables_def namespaced_name_inj)
qed

lemma package_variable_other: "package_dir_variable package_id \<noteq> namespaced_name NsSubAgent VARIABLE_FILESYSTEM_AGENT_DIR"
  by (simp add: package_dir_variable_def namespaced_name_inj)

lemma include_package_keeps:
  assumes "include_package L dir i p vars = Inr vars'"
  shows "map_of vars' (namespaced_name NsSubAgent VARIABLE_FILESYSTEM_AGENT_DIR) =
    map_of vars (namespaced_name NsSubAgent VARIABLE_FILESYSTEM_AGENT_DIR)"
  using assms package_variable_other[of "fst p"] by (cases p) (auto simp: include_package_def rbind_eq_Inr map_of_update)

lemma include_packages_keeps:
  assumes "include_packages_variables L vars packages = Inr vars'"
  shows "map_of vars' (namespaced_name NsSubAgent VARIABLE_FILESYSTEM_AGENT_DIR) =
    map_of vars (namespaced_name NsSubAgent VARIABLE_FILESYSTEM_AGENT_DIR)"
proof -
  have "map_of vars'' (namespaced_name NsSubAgent VARIABLE_FILESYSTEM_AGENT_DIR) =
      map_of vs (namespaced_name NsSubAgent VARIABLE_FILESYSTEM_AGENT_DIR)"
    if "try_fold (\<lambda>vars p. include_package L dir i p vars) vs ps = Inr vars''" for vs vars'' dir i ps
    using that
  proof (induction ps arbitrary: vs)
    case (Cons p ps)
    obtain v where v: "include_package L dir i p vs = Inr v" "try_fold (\<lambda>vars p. include_package L dir i p vars) v ps = Inr vars''"
      using Cons.prems unfolding try_fold.simps rbind_eq_Inr by blast
    then show ?case using Cons.IH[OF v(2)] include_package_keeps[OF v(1)] by simp
  qed simp
  then show ?thesis using assms unfolding include_packages_variables_def
    by (simp add: rbind_eq_Inr split: if_split_asm) blast
qed

section \<open>Directories of sub-agents\<close>

lemma lossy_path_string: "list_all name_ok p \<Longrightarrow> from_utf8_lossy (path_string p) = path_string p"
  using utf8_lossy_valid[OF utf8_valid_path_string, of p] by (simp add: from_utf8_lossy_def o_def)

lemma rendered_filesystem_ok:
  assumes "template_on_host R vars c = Inr oh" and "filesystem_valid (oh_filesystem c)" and "runtime_libs_ok R"
    and "map_of vars (namespaced_name NsSubAgent VARIABLE_FILESYSTEM_AGENT_DIR) = Some (new_final_string_variable (path_string base))"
    and "list_all name_ok base"
  shows "filesystem_ok (ro_filesystem oh) \<and> rf_base_dir (ro_filesystem oh) = base"
proof -
  obtain packages vars' where v: "include_packages_variables (rl_serde R) vars packages = Inr vars'"
    "template_filesystem R vars' (oh_filesystem c) = Inr (ro_filesystem oh)"
    using assms(1) unfolding template_on_host_def rbind_eq_Inr by fastforce
  have "filesystem_agent_dir vars' = Inr (path_string base)"
    using include_packages_keeps[OF v(1)] assms(4)
    by (simp add: filesystem_agent_dir_def Let_def get_final_value_def new_final_string_variable_def final_or_default_def)
  then show ?thesis using template_filesystem_ok[OF v(2) assms(2,3) _ assms(5)] by blast
qed

text \<open>What deserialization ensures of a definition for a host.\<close>

fun deployment_valid :: "deployment_definition \<Rightarrow> bool" where
  "deployment_valid (HostDefinition c) \<longleftrightarrow> filesystem_valid (oh_filesystem c)"
| "deployment_valid (K8sDefinition c) \<longleftrightarrow> True"

lemma utf8_valid_ascii: "list_all (\<lambda>c. of_char c < (128 :: nat)) s \<Longrightarrow> utf8_valid (map of_char s)"
  by (induction s) simp_all

lemma agent_id_char:
  assumes "c = CHR ''-'' \<or> is_ascii_digit c \<or> is_ascii_lowercase c"
  shows "c \<noteq> CHR ''/''" and "of_char c < (128 :: nat)"
  using assms by (auto simp: ascii_defs)

lemma agent_id_name_ok:
  assumes "agent_id_str_validation i"
  shows "name_ok i"
proof -
  have i: "i \<noteq> []" "is_ascii_lowercase (hd i)"
    and c: "list_all (\<lambda>c. c = CHR ''-'' \<or> is_ascii_digit c \<or> is_ascii_lowercase c) i"
    using assms by (simp_all add: agent_id_str_validation_lang)
  have "\<not> is_ascii_lowercase (CHR ''.'')" by (simp add: ascii_defs)
  then have "hd i \<noteq> CHR ''.''" using i(2) by metis
  then have "i \<noteq> ''.''" "i \<noteq> ''..''" by (metis list.sel(1))+
  moreover have "CHR ''/'' \<notin> set i" using c agent_id_char(1) unfolding list_all_iff by blast
  moreover have "utf8_valid (map of_char i)"
    using c agent_id_char(2) unfolding list_all_iff by (intro utf8_valid_ascii[unfolded list_all_iff]) blast
  ultimately show ?thesis unfolding name_ok_def segment_name_def using i(1) by blast
qed

definition agent_dir :: "path \<Rightarrow> string \<Rightarrow> path" where
  "agent_dir remote_dir i = remote_dir @ [AGENT_FILESYSTEM_FOLDER_NAME, i]"

lemma agent_dir_ok:
  assumes "list_all name_ok remote_dir" and "agent_id_str_validation i"
  shows "list_all name_ok (agent_dir remote_dir i)"
    and "path_join (path_join remote_dir AGENT_FILESYSTEM_FOLDER_NAME) i = agent_dir remote_dir i"
proof -
  have f: "name_ok AGENT_FILESYSTEM_FOLDER_NAME"
    by (simp add: name_ok_def segment_name_def AGENT_FILESYSTEM_FOLDER_NAME_def utf8_valid_ascii del: list.map utf8_valid.simps)
  then show "list_all name_ok (agent_dir remote_dir i)"
    using assms agent_id_name_ok by (simp add: agent_dir_def)
  show "path_join (path_join remote_dir AGENT_FILESYSTEM_FOLDER_NAME) i = agent_dir remote_dir i"
    using f agent_id_name_ok[OF assms(2)] by (simp add: agent_dir_def path_join_segment name_ok_def)
qed

text \<open>An assembler as the program builds it: the variables of Agent Control are in their namespace, the registry holds
  definitions that were deserialized.\<close>

definition assembler_ok :: "('v, 'u, 'k) assembler \<Rightarrow> bool" where
  "assembler_ok A \<longleftrightarrow>
     (\<exists>ac. as_renderer A = with_agent_control_variables ac) \<and> list_all name_ok (as_remote_dir A) \<and>
     (\<forall>t d. as_registry A t = Inr d \<longrightarrow> deployment_valid (atd_runtime_config d))"

lemma assembled_filesystem:
  assumes "assemble_agent R to_str W A identity values = Some (Inr agent)" and "get_onhost_config agent = Inr oh"
    and "ai_id identity = SubAgent (SubAgentID i)" and "agent_id_str_validation i"
    and "assembler_ok A" and "runtime_libs_ok R"
  shows "filesystem_ok (ro_filesystem oh) \<and> rf_base_dir (ro_filesystem oh) = agent_dir (as_remote_dir A) i"
proof -
  let ?base = "agent_dir (as_remote_dir A) i"
  have remote: "list_all name_ok (as_remote_dir A)" using assms(5) by (simp add: assembler_ok_def)
  note base = agent_dir_ok[OF remote assms(4)]
  obtain d secrets attributes where a: "as_registry A (ai_agent_type_id identity) = Inr d"
    "attributes_try_new (SubAgent (SubAgentID i)) (as_remote_dir A) = Inr attributes"
    "render R (as_renderer A) (with_constraints (as_variable_constraints A) d) values attributes (load_env_vars (sw_env W)) secrets =
       Inr (RenderedHost oh)"
    using assms(1-3)
    by (auto simp: assemble_agent_def get_onhost_config_def rbind_eq_Inr map_err_eq_Inr split: sum.splits prod.splits rendered_deployment.splits)
  obtain vars where "template_deployment R (build_namespaced_variables (as_renderer A) vars (load_env_vars (sw_env W)) attributes)
      (atd_runtime_config d) = Inr (RenderedHost oh)"
    using a(3) by (auto simp: render_def with_constraints_def rbind_eq_Inr Let_def)
  then obtain c where c: "atd_runtime_config d = HostDefinition c"
    "template_on_host R (build_namespaced_variables (as_renderer A) vars (load_env_vars (sw_env W)) attributes) c = Inr oh"
    by (cases "atd_runtime_config d") (auto simp: map_ok_eq_Inr)
  have "filesystem_valid (oh_filesystem c)"
    using assms(5) a(1) c(1) unfolding assembler_ok_def by fastforce
  moreover have "map_of (build_namespaced_variables (as_renderer A) vars (load_env_vars (sw_env W)) attributes)
      (namespaced_name NsSubAgent VARIABLE_FILESYSTEM_AGENT_DIR) = Some (new_final_string_variable (path_string ?base))"
    using sub_agent_lookup[OF env_vars_namespace ac_variables_namespace] assms(5) a(2) base lossy_path_string[OF base(1)]
    unfolding assembler_ok_def by fastforce
  ultimately show ?thesis using rendered_filesystem_ok[OF c(2) _ assms(6) _ base(1)] by blast
qed

text \<open>C18. Sub-agents are isolated from each other on a host whose disk has no symbolic links: whatever the
  configurations, the secrets and the environment variables are, the files of a sub-agent are rendered below a directory that only depends on its id, and writing them
  for one sub-agent, whatever fails, leaves everything below the directory of another one as it was.\<close>

theorem sub_agents_isolated:
  assumes "assembler_ok A" and "runtime_libs_ok R"
    and "assemble_agent R to_str W A identity values = Some (Inr agent)" and "get_onhost_config agent = Inr oh"
    and "ai_id identity = SubAgent (SubAgentID i)" and "agent_id_str_validation i"
    and "assemble_agent R to_str W' A identity' values' = Some (Inr agent')" and "get_onhost_config agent' = Inr oh'"
    and "ai_id identity' = SubAgent (SubAgentID j)" and "agent_id_str_validation j" and "i \<noteq> j"
    and "filesystem_write os M (ro_filesystem oh) d = (r, d')" and "under (rf_base_dir (ro_filesystem oh')) q"
  shows "rf_base_dir (ro_filesystem oh) = agent_dir (as_remote_dir A) i \<and> filesystem_ok (ro_filesystem oh) \<and>
    file_at d' q = file_at d q \<and> is_dir d' q = is_dir d q"
proof -
  have one: "filesystem_ok (ro_filesystem oh)" "rf_base_dir (ro_filesystem oh) = agent_dir (as_remote_dir A) i"
    using assembled_filesystem[OF assms(3-6,1,2)] by blast+
  have two: "rf_base_dir (ro_filesystem oh') = agent_dir (as_remote_dir A) j"
    using assembled_filesystem[OF assms(7-10,1,2)] by blast
  obtain s where q: "q = as_remote_dir A @ [AGENT_FILESYSTEM_FOLDER_NAME, j] @ s"
    using assms(13) unfolding two under_iff agent_dir_def by auto
  have out: "\<not> under (rf_base_dir (ro_filesystem oh)) q" "\<not> under q (rf_base_dir (ro_filesystem oh))"
    using assms(11) unfolding one(2) q under_iff agent_dir_def by auto
  have below: "entries_below (ro_filesystem oh)" using one(1) by (simp add: filesystem_ok_def)
  show ?thesis using filesystem_write_outside[OF below assms(12) out(1)] one out(2) by blast
qed

section \<open>Deployments that fit\<close>

lemma secret_variables_never_panic: "secret_variables_try_from L to_str values \<noteq> None"
  using secret_variables_from_total by (auto simp: secret_variables_try_from_def split: sum.splits)

lemma assemble_never_panics: "assemble_agent R to_str W A identity values \<noteq> None"
  using secret_variables_never_panic by (auto simp: assemble_agent_def split: sum.splits prod.splits)

text \<open>With the registry of the program an assembled agent has a deployment for the environment it runs in.\<close>

lemma assembled_deployment_fits:
  assumes "registry_build show_version show_id D files read_dir env = Some layers"
    and "as_registry A = registry_get show_id (layers download)"
    and "assemble_agent R to_str W A identity values = Some (Inr agent)"
  shows "is_ok (get_onhost_config agent) \<longleftrightarrow> env \<noteq> K8sCluster" and "is_ok (get_k8s_config agent) \<longleftrightarrow> env = K8sCluster"
proof -
  have l: "layers = registry_layers show_version show_id D (local_definitions show_id D files read_dir env) env"
    using assms(1) by (auto simp: registry_build_def local_definitions_def)
  obtain d attributes secrets where a: "as_registry A (ai_agent_type_id identity) = Inr d"
    "render R (as_renderer A) (with_constraints (as_variable_constraints A) d) values attributes (load_env_vars (sw_env W)) secrets =
       Inr (ea_runtime_config agent)"
    using assms(3) by (auto simp: assemble_agent_def rbind_eq_Inr map_err_eq_Inr split: sum.splits prod.splits)
  have "deployment_fits env (atd_runtime_config d)"
    using layered.get_fits[OF a(1)[unfolded assms(2) l]] by (simp add: definition_fits_def)
  moreover obtain vars where "template_deployment R vars (atd_runtime_config d) = Inr (ea_runtime_config agent)"
    using a(2) by (auto simp: render_def with_constraints_def rbind_eq_Inr Let_def)
  ultimately show "is_ok (get_onhost_config agent) \<longleftrightarrow> env \<noteq> K8sCluster" "is_ok (get_k8s_config agent) \<longleftrightarrow> env = K8sCluster"
    by (cases "atd_runtime_config d"; auto simp: deployment_fits_def get_onhost_config_def get_k8s_config_def map_ok_eq_Inr)+
qed

section \<open>Example\<close>

definition sample_runtime_libs :: runtime_libs where
  "sample_runtime_libs =
     \<lparr>rl_serde = sample_libs, rl_duration = \<lambda>_. None, rl_url = Inl, rl_yaml_map = \<lambda>_. Inl ''no map'', rl_yaml_value = \<lambda>_. Inl ''no value''\<rparr>"

definition sample_assembler :: "(nat, unit, unit) assembler" where
  "sample_assembler =
     \<lparr>as_registry = \<lambda>_. Inr (sample_type_definition Linux (HostDefinition sample_on_host_definition)),
      as_renderer = with_agent_control_variables [], as_variable_constraints = [],
      as_secrets_providers = sample_secrets_registry, as_remote_dir = [''data'']\<rparr>"

definition sample_identity :: "string \<Rightarrow> nat agent_identity" where
  "sample_identity i = \<lparr>ai_id = SubAgent (SubAgentID i), ai_agent_type_id = sample_type_id\<rparr>"

definition sample_assembled :: "string \<Rightarrow> (assembler_error + nat effective_agent) option" where
  "sample_assembled i = assemble_agent sample_runtime_libs (\<lambda>_. Inr '''') sample_world sample_assembler (sample_identity i) []"

definition sample_other_disk :: disk where
  "sample_other_disk =
     \<lparr>dk_files = [([''data'', ''filesystem'', ''b'', ''conf''], ''other'')],
      dk_dirs = [[''data''], [''data'', ''filesystem''], [''data'', ''filesystem'', ''b'']]\<rparr>"

lemma sample_assembled_host:
  "\<exists>agent oh. sample_assembled ''a'' = Some (Inr agent) \<and> get_onhost_config agent = Inr oh"
  "\<exists>agent oh. sample_assembled ''b'' = Some (Inr agent) \<and> get_onhost_config agent = Inr oh"
proof -
  have "case sample_assembled ''a'' of Some (Inr agent) \<Rightarrow> is_ok (get_onhost_config agent) | _ \<Rightarrow> False"
    "case sample_assembled ''b'' of Some (Inr agent) \<Rightarrow> is_ok (get_onhost_config agent) | _ \<Rightarrow> False"
    by code_simp+
  then show "\<exists>agent oh. sample_assembled ''a'' = Some (Inr agent) \<and> get_onhost_config agent = Inr oh"
    "\<exists>agent oh. sample_assembled ''b'' = Some (Inr agent) \<and> get_onhost_config agent = Inr oh"
    by (auto simp: is_ok_iff split: option.splits sum.splits)
qed

theorem sub_agents_isolated_witness:
  "\<exists>agent oh. sample_assembled ''a'' = Some (Inr agent) \<and> get_onhost_config agent = Inr oh \<and>
     rf_base_dir (ro_filesystem oh) = [''data'', ''filesystem'', ''a''] \<and>
     file_at (snd (filesystem_write no_faults sample_manifest_codec (ro_filesystem oh) sample_other_disk))
       [''data'', ''filesystem'', ''b'', ''conf''] = Some ''other''"
proof -
  obtain agent oh where a: "sample_assembled ''a'' = Some (Inr agent)" "get_onhost_config agent = Inr oh"
    using sample_assembled_host(1) by blast
  obtain agent' oh' where b: "sample_assembled ''b'' = Some (Inr agent')" "get_onhost_config agent' = Inr oh'"
    using sample_assembled_host(2) by blast
  have v: "filesystem_valid (oh_filesystem sample_on_host_definition)" "list_all name_ok [''data'']"
    "agent_id_str_validation ''a''" "agent_id_str_validation ''b''" by code_simp+
  have A: "assembler_ok sample_assembler"
    using v(1,2) by (auto simp: assembler_ok_def sample_assembler_def sample_type_definition_def)
  have R: "runtime_libs_ok sample_runtime_libs" by (simp add: runtime_libs_ok_def sample_runtime_libs_def)
  let ?q = "[''data'', ''filesystem'', ''b'', ''conf'']"
  let ?w = "filesystem_write no_faults sample_manifest_codec (ro_filesystem oh) sample_other_disk"
  have ids: "ai_id (sample_identity i) = SubAgent (SubAgentID i)" for i by (simp add: sample_identity_def)
  note isolated = sub_agents_isolated[OF A R a[unfolded sample_assembled_def] ids v(3) b[unfolded sample_assembled_def] ids v(4),
      of no_faults sample_manifest_codec sample_other_disk "fst ?w" "snd ?w" ?q]
  have "rf_base_dir (ro_filesystem oh') = [''data'', ''filesystem'', ''b'']"
    using assembled_filesystem[OF b[unfolded sample_assembled_def] ids v(4) A R]
    by (simp add: agent_dir_def sample_assembler_def AGENT_FILESYSTEM_FOLDER_NAME_def)
  then have "under (rf_base_dir (ro_filesystem oh')) ?q" by (simp add: under_def)
  then have "rf_base_dir (ro_filesystem oh) = agent_dir [''data''] ''a'' \<and> file_at (snd ?w) ?q = file_at sample_other_disk ?q"
    using isolated by (simp add: sample_assembler_def)
  moreover have "file_at sample_other_disk ?q = Some ''other''" by code_simp
  ultimately show ?thesis using a by (auto simp: agent_dir_def AGENT_FILESYSTEM_FOLDER_NAME_def)
qed

end
