(* ===== verification/Spec2Isabelle.thy ===== *)
theory Spec2Isabelle
  imports Agent_Control_Loop Instance_Id K8s_Health Sub_Agent_Handling On_Host_Process Package_Manager Agent_Render
begin

text \<open>
  A verification development for New Relic Agent Control (\<open>src/agent-control\<close> and the file system
  crate \<open>src/fs\<close>): a supervisor that runs sub-agents on a host or in a Kubernetes cluster and follows
  configurations received from a server over the OpAMP protocol.

  \<^bold>\<open>The program.\<close> \<open>AgentControl\<close> (\<open>agent_control.rs\<close>) starts the sub-agents of its configuration and
  then processes events: remote configurations, health and attribute updates, stop requests. A remote
  configuration arrives through the callbacks of the OpAMP client (\<open>opamp/callbacks.rs\<close>), is validated
  (signatures, forbidden patterns), merged from its entries (\<open>opamp/remote_config.rs\<close>,
  \<open>agent_control/config.rs\<close>), stored (\<open>values.rs\<close> over the file store \<open>on_host/file_store.rs\<close>) and
  applied to the collection of running sub-agents. Each sub-agent (\<open>sub_agent.rs\<close>) has its own client,
  assembles an effective agent from its stored, local or received configuration, runs a supervisor for
  it, and forwards the health found by the checkers (\<open>checkers/health\<close>).

  \<^bold>\<open>Theories.\<close>
  \<^item> \<open>Prelude\<close>: results, early returns (\<open>rbind\<close>, \<open>sbind\<close>), hash maps as association lists, strings as
    byte lists, decimal numbers.
  \<^item> \<open>Agent_Id\<close>: \<open>agent_control/agent_id.rs\<close>, \<open>agent_type/agent_type_id.rs\<close>,
    \<open>agent_type/protocol_version.rs\<close>, \<open>sub_agent/identity.rs\<close>. The languages accepted, round trips of
    printing and parsing, injectivity of names.
  \<^item> \<open>Remote_Config\<close>: the messages and the configuration maps (\<open>opamp/remote_config.rs\<close>,
    \<open>values/yaml_config.rs\<close>, \<open>values/config.rs\<close>, \<open>sub_agent/remote_config_parser.rs\<close>). A parsed
    configuration is the union of its documents with the override on top, in any order of the entries.
  \<^item> \<open>Remote_Config_Intake\<close>: from the wire to a validated message (\<open>opamp/callbacks.rs\<close>,
    \<open>opamp/remote_config/signature.rs\<close>, the validators, \<open>signature/public_key.rs\<close> and its fetcher).
  \<^item> \<open>File_System\<close>, \<open>Data_Store\<close>, \<open>Instance_Id\<close>, \<open>Config_Repo\<close>: the disk with arbitrary faults
    (\<open>src/fs\<close>), the store of agent data (\<open>data_store.rs\<close>, \<open>on_host/file_store.rs\<close>), the instance ids
    (\<open>opamp/instance_id\<close>) and the repository of configurations (\<open>values.rs\<close>). Each interface is a locale
    of laws; the file store, the instance ids and the repository of the host are interpretations.
  \<^item> \<open>Ac_Config\<close>: the dynamic configuration of Agent Control and its store.
  \<^item> \<open>Opamp_Client\<close>: the calls to the OpAMP client and the update of attributes.
  \<^item> \<open>Agent_Control\<close>: the state of the supervisor and its operations. \<open>Agent_Control_Sync\<close>,
    \<open>Agent_Control_Handling\<close> and \<open>Agent_Control_Loop\<close>: their effect on the collection of sub-agents,
    the handling of a configuration as a whole, the event loop as a transition system with its
    invariants (the locale \<open>collection_invariant\<close>, interpreted for the shape of the collection and for
    sub-agents that nobody holds), what is reported and what is stored. What a configuration does to each
    agent is shown from any state; that exactly its sub-agents run holds while no configuration failed
    halfway, and one property shows what can happen after that.
  \<^item> \<open>Health\<close>, \<open>K8s_Health\<close>: health values and their wire form, the retried check, the checkers of
    executables, files and HTTP endpoints on the host, those of workloads, Helm releases and
    instrumentations in a cluster, and how they are aggregated (the locale \<open>health_aggregate\<close>).
  \<^item> \<open>Sub_Agent\<close>: the start, the handling of configurations and the event loop of a sub-agent.
    \<open>Sub_Agent_Handling\<close>: it holds at most one supervisor, rejected configurations change nothing,
    what is newly reported as applied is what runs, and a restart on the host starts from the same values.
  \<^item> \<open>Backoff\<close>: restart policies, retries with backoff and the gate (\<open>restart_policy.rs\<close>, \<open>utils/retry.rs\<close>,
    \<open>utils/backoff_gate.rs\<close>), with counters and delays at their width. \<open>On_Host_Process\<close>: the thread that runs
    one executable on a host (\<open>sub_agent/on_host/supervisor.rs\<close>, \<open>command_os.rs\<close>). A cancelled thread launches
    nothing any more and ends, unless waiting for its process fails; restarts are bounded by the policy; shutting
    down ends.
  \<^item> \<open>Text_Json\<close>: characters of strings and JSON values. \<open>Agent_Variables\<close>: the variables an agent type declares
    (\<open>agent_type/variable.rs\<close> and below, \<open>definition.rs\<close>): a value given to a variable has its declared type.
    \<open>Templates\<close>: placeholders and their functions (\<open>agent_type/templates.rs\<close>); replacing them one after the other
    refines the simultaneous substitution.
  \<^item> \<open>Oci_Package\<close>, \<open>Package_Manager\<close>: references and directories of packages, their installation and retention
    (\<open>package/oci/package_manager.rs\<close>).
  \<^item> \<open>Host_Filesystem\<close>: the files of a sub-agent on a host and the manifest that tracks them
    (\<open>agent_type/runtime_config/on_host/filesystem/rendered.rs\<close>). \<open>Runtime_Config\<close>: the deployments of agent types
    (\<open>agent_type/runtime_config\<close>) and their rendering. \<open>Rendered_Files\<close>: what is rendered is well-formed.
  \<^item> \<open>Http_Client\<close>: the HTTP client and its proxy (\<open>http/client.rs\<close>, \<open>http/config.rs\<close>). \<open>Secret_Providers\<close>: the secrets
    that a configuration names and the providers they come from (\<open>secrets_provider\<close>,
    \<open>agent_type/variable/secret_variables.rs\<close>). \<open>Agent_Type_Registry\<close>: definitions of agent types and their registries
    (\<open>agent_type/registry\<close>), with the locale \<open>agent_type_registry\<close> for what a lookup promises.
  \<^item> \<open>Agent_Render\<close>: attributes, renderer and assembler of effective agents (\<open>agent_type/render.rs\<close>,
    \<open>sub_agent/effective_agents_assembler.rs\<close>). Composed with \<open>Host_Filesystem\<close>: sub-agents are isolated from each other.

  \<^bold>\<open>Correspondence.\<close> A struct is a record and an enum a datatype with the names of the source. A method
  that changes something takes and returns the state: the disk, the repository, or the record
  \<open>ac_state\<close> of the supervisor with the calls and events it has issued. \<open>Result\<close> is a sum with the error
  on the left. Traits are records of functions (\<open>data_store_ops\<close>, \<open>config_repository_ops\<close>,
  \<open>dynamic_config_repository\<close>, \<open>ac_deps\<close>). Third-party libraries are parameters: the YAML and JSON
  codecs, the semantic versions, cryptography and base64, HTTP, the regular-expression engine, the
  OpAMP client. Loops over collections are structural recursions and loops that
  may run forever are partial functions, so no fuel is used. The order in which
  a hash map is iterated is the order of the list, over which every lemma quantifies.

  \<^bold>\<open>Not modelled.\<close> Logging, threads and channels (events are explicit inputs), the supervisors that start and join
  threads, the status server, the Kubernetes and OCI clients, hooks and downloads (parameters of the package manager), the
  version updater and the resource cleaner (parameters of Agent Control), the command line tools, the detection of
  resources, the deserialization derived by macros, and the static part of the configuration.
\<close>

end
